(* ===== verification/Prelude.thy ===== *)
theory Prelude
  imports Main "HOL-Library.Word" "HOL-Library.Sublist"
begin

text \<open>
  Shared vocabulary of the development: the byte and code-point types that
  model Node's \<open>Buffer\<close> and JavaScript strings, the error type that stands for
  every exception the build script (\<open>src/scripts/build.ts\<close>) and the helpers it
  calls can raise, and generic lemmas on lists and bytes that the component
  theories use through the collections declared here.
\<close>

named_theorems js_simps \<open>evaluation rules for the JavaScript runtime model\<close>
named_theorems path_simps \<open>evaluation rules for the node:path model\<close>

type_synonym byte = "8 word"
type_synonym bytes = "byte list"

text \<open>A JavaScript string after UTF-8 decoding, as a list of Unicode code points.\<close>
type_synonym codepoints = "nat list"

text \<open>
  Every exception of the script and of the pipeline it drives. \<open>ZodError\<close>
  carries the keys of the package descriptor whose check failed (the empty key
  for the top-level "expected object" issue); \<open>SyntaxError\<close> is
  \<open>JSON.parse\<close> rejecting its text.
\<close>

datatype build_error =
    ZodError "string list"
  | AssertionError
  | NetworkError string
  | ArchiveFormatError
  | PathTraversalError string
  | CallbackError
  | IOError string
  | SyntaxError

section \<open>Generic lemmas on lists\<close>

lemma take_length_append_eq [simp]: "take (length p) (p @ s) = p"
  by simp

lemma drop_length_append_suffix [simp]: "drop (length (s @ q) - length q) (s @ q) = q"
  by simp

lemma takeWhile_append_stop:
  "\<not> P c \<Longrightarrow> takeWhile P (xs @ c # ys) = (if \<forall>x\<in>set xs. P x then xs else takeWhile P xs)"
  by (induction xs) auto

text \<open>
  \<open>Array.prototype.join(sep)\<close> on an array of strings: the empty array gives the
  empty string, otherwise the elements with \<open>sep\<close> between neighbours.
\<close>

fun join_with :: "'a list \<Rightarrow> 'a list list \<Rightarrow> 'a list" where
  "join_with sep [] = []"
| "join_with sep [x] = x"
| "join_with sep (x # y # zs) = x @ sep @ join_with sep (y # zs)"

lemma join_with_Cons: "xs \<noteq> [] \<Longrightarrow> join_with sep (x # xs) = x @ sep @ join_with sep xs"
  by (cases xs) auto

lemma join_with_append_single:
  "xs \<noteq> [] \<Longrightarrow> join_with sep (xs @ [y]) = join_with sep xs @ sep @ y"
  by (induction sep xs rule: join_with.induct) auto

text \<open>Joining with a last element: every earlier element is followed by the separator.\<close>

lemma join_with_snoc: "join_with sep (xs @ [y]) = concat (map (\<lambda>x. x @ sep) xs) @ y"
  by (induction xs) (auto simp: join_with_Cons)

lemma join_with_empty_iff: "join_with sep xs = [] \<longleftrightarrow> (\<forall>x\<in>set xs. x = []) \<and> (sep = [] \<or> length xs \<le> 1)"
  by (induction sep xs rule: join_with.induct) auto

section \<open>Arithmetic on digits\<close>

lemma mod_range_eq: "(r::nat) * m \<le> n \<Longrightarrow> n < r * m + m \<Longrightarrow> n mod m = n - r * m"
  by (rule mod_nat_eqI) auto

lemma base64_div [simp]: "(x::nat) < 64 \<Longrightarrow> (q * 64 + x) div 64 = q"
  by simp

lemma base64_mod [simp]: "(x::nat) < 64 \<Longrightarrow> (q * 64 + x) mod 64 = x"
  by simp

lemma div_4096: "(n::nat) div 4096 = n div 64 div 64"
  using div_mult2_eq [of n 64 64] by simp

lemma div_262144: "(n::nat) div 262144 = n div 64 div 64 div 64"
  using div_mult2_eq [of n 4096 64] by (simp add: div_4096)

text \<open>A value whose leading base-64 digits lie outside \<open>[l, h]\<close> lies outside \<open>[64 l, 64 h + 63]\<close>.\<close>

lemma base64_range_out:
  "(y::nat) < 64 \<Longrightarrow> \<not> (l \<le> q \<and> q \<le> h) \<Longrightarrow> \<not> (l * 64 \<le> q * 64 + y \<and> q * 64 + y \<le> h * 64 + 63)"
proof
  assume a: "y < 64" "\<not> (l \<le> q \<and> q \<le> h)" "l * 64 \<le> q * 64 + y \<and> q * 64 + y \<le> h * 64 + 63"
  have "l * 64 div 64 \<le> (q * 64 + y) div 64" using a(3) by (intro div_le_mono) simp
  moreover have "(q * 64 + y) div 64 \<le> (h * 64 + 63) div 64" using a(3) by (intro div_le_mono) simp
  ultimately show False using a(1,2) by simp
qed

section \<open>Bytes\<close>

lemma unat_byte_less [simp]: "unat (b :: byte) < 256"
  using unsigned_less [of b, where ?'a = nat] by simp

lemma byte_of_unat [simp]: "(word_of_nat (unat (b :: byte)) :: byte) = b"
  by simp

lemma unat_word_of_nat_byte: "n < 256 \<Longrightarrow> unat (word_of_nat n :: byte) = n"
  by (simp add: unat_of_nat)

lemma byte_eq_of_nat_iff: "n < 256 \<Longrightarrow> ((b :: byte) = word_of_nat n) = (unat b = n)"
  by (auto simp: unat_word_of_nat_byte)

end
