(* ===== verification/JsRuntime.thy ===== *)
theory JsRuntime
  imports Prelude
begin

text \<open>
  The JavaScript built-ins that \<open>src/scripts/build.ts\<close> applies to strings and
  numbers: \<open>String.prototype.split\<close> with a one-character separator, string
  indexing \<open>s[i]\<close> (which yields \<open>undefined\<close> out of range), the \<open>+\<close> operator on
  such results, \<open>parseInt\<close> without a radix, the conversion of a number inside a
  template literal, and \<open>startsWith\<close>/\<open>endsWith\<close>. Strings are \<open>char\<close> lists:
  the script only handles ASCII version strings and file names, whose UTF-16
  code units are these characters.
\<close>

section \<open>Values\<close>

text \<open>
  A JavaScript number as far as the script can produce one: \<open>parseInt\<close> returns
  an integer or \<open>NaN\<close>. The integers met here have at most two digits, so the
  double is exact; \<open>-0\<close> is not told apart from \<open>0\<close>, and the only place the
  script reads such a number is \<open>ToString\<close>, which prints both as \<open>0\<close>.
\<close>

datatype js_number = Finite int | NaN

text \<open>A string index: \<open>Some\<close> a one-character string, \<open>None\<close> for \<open>undefined\<close>.\<close>

definition js_char_at :: "string \<Rightarrow> nat \<Rightarrow> string option" where
  "js_char_at s i = (if i < length s then Some [s ! i] else None)"

text \<open>
  \<open>a + b\<close> on two string-or-undefined values, as the string \<open>parseInt\<close> then
  receives: string concatenation when either side is a string (\<open>undefined\<close> is
  printed as \<open>"undefined"\<close>), numeric addition \<open>NaN + NaN\<close> when both are
  \<open>undefined\<close>, which \<open>parseInt\<close> converts to the string \<open>"NaN"\<close>.
\<close>

fun js_add_str :: "string option \<Rightarrow> string option \<Rightarrow> string" where
  "js_add_str (Some a) (Some b) = a @ b"
| "js_add_str (Some a) None = a @ ''undefined''"
| "js_add_str None (Some b) = ''undefined'' @ b"
| "js_add_str None None = ''NaN''"

section \<open>String.prototype.split\<close>

text \<open>
  \<open>s.split(c)\<close> for a one-character separator \<open>c\<close>: the pieces between
  occurrences of \<open>c\<close>, always at least one (the empty string gives \<open>[""]\<close>).
  The accumulator holds the current piece reversed.
\<close>

fun js_split_acc :: "char \<Rightarrow> string \<Rightarrow> string \<Rightarrow> string list" where
  "js_split_acc c acc [] = [rev acc]"
| "js_split_acc c acc (x # xs) =
     (if x = c then rev acc # js_split_acc c [] xs else js_split_acc c (x # acc) xs)"

definition js_split :: "char \<Rightarrow> string \<Rightarrow> string list" where
  "js_split c s = js_split_acc c [] s"

section \<open>startsWith and endsWith\<close>

definition js_starts_with :: "string \<Rightarrow> string \<Rightarrow> bool" where
  "js_starts_with s p \<longleftrightarrow> take (length p) s = p"

definition js_ends_with :: "string \<Rightarrow> string \<Rightarrow> bool" where
  "js_ends_with s p \<longleftrightarrow> length p \<le> length s \<and> drop (length s - length p) s = p"

section \<open>parseInt\<close>

text \<open>
  The white space \<open>parseInt\<close> skips (StrWhiteSpaceChar) that fits in a
  \<open>char\<close>: tab, line feed, vertical tab, form feed, carriage return, space and
  no-break space.
\<close>

definition js_is_space :: "char \<Rightarrow> bool" where
  "js_is_space c \<longleftrightarrow> of_char c \<in> {9, 10, 11, 12, 13, 32, 160 :: nat}"

text \<open>The value of a digit in radix up to 36, or 36 for any other character.\<close>

definition js_digit_value :: "char \<Rightarrow> nat" where
  "js_digit_value c =
     (let n = of_char c :: nat in
      if 48 \<le> n \<and> n \<le> 57 then n - 48
      else if 97 \<le> n \<and> n \<le> 122 then n - 87
      else if 65 \<le> n \<and> n \<le> 90 then n - 55
      else 36)"

definition js_digits_value :: "nat \<Rightarrow> string \<Rightarrow> nat" where
  "js_digits_value r ds = foldl (\<lambda>acc d. acc * r + js_digit_value d) 0 ds"

text \<open>
  \<open>parseInt(s)\<close> with the radix undefined (ECMA-262, 19.2.5): skip leading white
  space, take one sign, switch to radix 16 after a \<open>0x\<close>/\<open>0X\<close> prefix, then read
  the longest prefix of digits of the radix; no digit at all gives \<open>NaN\<close>.
\<close>

definition js_parse_int :: "string \<Rightarrow> js_number" where
  "js_parse_int s =
     (let t = dropWhile js_is_space s;
          (sign, u) = (case t of
                         c # r \<Rightarrow> if c = CHR ''-'' then (-1 :: int, r)
                                  else if c = CHR ''+'' then (1, r) else (1, t)
                       | [] \<Rightarrow> (1, []));
          (radix, v) = (case u of
                          c0 # c1 # r \<Rightarrow>
                            if c0 = CHR ''0'' \<and> (c1 = CHR ''x'' \<or> c1 = CHR ''X'')
                            then (16 :: nat, r) else (10, u)
                        | _ \<Rightarrow> (10, u));
          ds = takeWhile (\<lambda>c. js_digit_value c < radix) v
      in if ds = [] then NaN else Finite (sign * int (js_digits_value radix ds)))"

section \<open>Number to string\<close>

text \<open>Decimal digits of a natural number, most significant first.\<close>

fun nat_digits :: "nat \<Rightarrow> string" where
  "nat_digits n =
     (if n < 10 then [char_of (48 + n)] else nat_digits (n div 10) @ [char_of (48 + n mod 10)])"

declare nat_digits.simps [simp del]

text \<open>\<open>ToString\<close> of a number as a template literal \<open>${n}\<close> prints it.\<close>

fun js_number_to_string :: "js_number \<Rightarrow> string" where
  "js_number_to_string NaN = ''NaN''"
| "js_number_to_string (Finite i) =
     (if i < 0 then CHR ''-'' # nat_digits (nat (- i)) else nat_digits (nat i))"

text \<open>The rules that evaluate the string built-ins on literal arguments.\<close>

declare js_split_def [js_simps] js_starts_with_def [js_simps] js_ends_with_def [js_simps]

section \<open>Lemmas: split and join\<close>

lemma js_split_acc_nonempty [simp]: "js_split_acc c acc s \<noteq> []"
  by (induction c acc s rule: js_split_acc.induct) auto

lemma js_split_nonempty [simp]: "js_split c s \<noteq> []"
  by (simp add: js_split_def)

lemma js_split_acc_nosep:
  "c \<notin> set x \<Longrightarrow> js_split_acc c acc (x @ rest) = js_split_acc c (rev x @ acc) rest"
  by (induction x arbitrary: acc) auto

lemma js_split_nosep [simp]: "c \<notin> set x \<Longrightarrow> js_split c x = [x]"
  using js_split_acc_nosep [of c x "[]" "[]"] by (simp add: js_split_def)

lemma js_split_sep:
  "c \<notin> set x \<Longrightarrow> js_split c (x @ c # y) = x # js_split c y"
  using js_split_acc_nosep [of c x "[]" "c # y"] by (simp add: js_split_def)

lemma js_split_acc_pieces:
  "c \<notin> set acc \<Longrightarrow> \<forall>w \<in> set (js_split_acc c acc s). c \<notin> set w"
  by (induction c acc s rule: js_split_acc.induct) auto

lemma js_split_pieces: "w \<in> set (js_split c s) \<Longrightarrow> c \<notin> set w"
  using js_split_acc_pieces [of c "[]" s] by (auto simp: js_split_def)

lemma join_js_split_acc: "join_with [c] (js_split_acc c acc s) = rev acc @ s"
  by (induction c acc s rule: js_split_acc.induct) (auto simp: join_with_Cons)

text \<open>Joining the pieces of a split with the separator gives the string back.\<close>

lemma join_js_split [simp]: "join_with [c] (js_split c s) = s"
  by (simp add: js_split_def join_js_split_acc)

text \<open>Splitting a join of separator-free pieces gives the pieces back.\<close>

lemma js_split_join:
  "xs \<noteq> [] \<Longrightarrow> \<forall>w\<in>set xs. c \<notin> set w \<Longrightarrow> js_split c (join_with [c] xs) = xs"
proof (induction xs)
  case Nil
  then show ?case by simp
next
  case (Cons x xs)
  show ?case
  proof (cases "xs = []")
    case True
    with Cons.prems show ?thesis by simp
  next
    case False
    with Cons show ?thesis by (simp add: join_with_Cons js_split_sep)
  qed
qed

lemma hd_js_split_acc: "hd (js_split_acc c acc s) = rev acc @ takeWhile (\<lambda>x. x \<noteq> c) s"
  by (induction c acc s rule: js_split_acc.induct) auto

text \<open>The first piece of a split is the longest prefix free of the separator.\<close>

lemma hd_js_split: "hd (js_split c s) = takeWhile (\<lambda>x. x \<noteq> c) s"
  by (simp add: js_split_def hd_js_split_acc)

section \<open>Lemmas: startsWith\<close>

lemma js_starts_with_append [simp]: "js_starts_with (p @ s) p"
  by (simp add: js_starts_with_def)

lemma js_starts_with_Cons_dots:
  "js_starts_with (''..'' @ s) ''..''"
  by (simp add: js_starts_with_def)

section \<open>Lemmas: parseInt\<close>

lemma char_neq_of_char: "(of_char c :: nat) \<noteq> of_char d \<Longrightarrow> c \<noteq> d"
  by auto

lemma of_char_digit [simp]: "x < 10 \<Longrightarrow> of_char (char_of (48 + x) :: char) = (48 + x :: nat)"
  by simp

lemma digit_char_props:
  assumes "x < 10"
  shows "\<not> js_is_space (char_of (48 + x))" "char_of (48 + x) \<noteq> CHR ''-''"
    "char_of (48 + x) \<noteq> CHR ''+''" "char_of (48 + x) \<noteq> CHR ''x''" "char_of (48 + x) \<noteq> CHR ''X''"
    "js_digit_value (char_of (48 + x)) = x"
  using assms by (auto simp: js_is_space_def js_digit_value_def intro!: char_neq_of_char)

lemma parse_two_digits:
  assumes "x < 10" "y < 10"
  shows "js_parse_int [char_of (48 + x), char_of (48 + y)] = Finite (int (10 * x + y))"
  using assms digit_char_props [OF assms(1)] digit_char_props [OF assms(2)]
  by (simp add: js_parse_int_def js_digits_value_def)

lemma parse_int_one: "js_parse_int [c] = Finite k \<Longrightarrow> 0 \<le> k \<and> k \<le> 9"
  by (auto simp: js_parse_int_def js_digits_value_def split: if_splits)

lemma parse_int_two: "js_parse_int [c0, c1] = Finite k \<Longrightarrow> -9 \<le> k \<and> k \<le> 99"
  by (auto simp: js_parse_int_def js_digits_value_def split: if_splits)

lemma parse_int_undefined_suffix: "js_parse_int (c # ''undefined'') = js_parse_int [c]"
  by (auto simp: js_parse_int_def js_is_space_def js_digit_value_def Let_def split: if_splits)

lemma parse_int_letter_u: "js_parse_int (CHR ''u'' # s) = NaN"
  by (simp add: js_parse_int_def js_is_space_def js_digit_value_def Let_def split: list.split)

lemma parse_int_letter_N: "js_parse_int (CHR ''N'' # s) = NaN"
  by (simp add: js_parse_int_def js_is_space_def js_digit_value_def Let_def split: list.split)


end
