(* ===== verification/NodePath.thy ===== *)
theory NodePath
  imports JsRuntime
begin

text \<open>
  The POSIX functions of \<open>node:path\<close> that \<open>src/scripts/build.ts\<close> imports
  (\<open>join\<close>, \<open>relative\<close>, \<open>basename\<close>, \<open>dirname\<close>), with \<open>resolve\<close> and the
  segment normalisation they are built on. A path is a string; its segments are
  the pieces between slashes. \<open>resolve\<close> reads the process's working
  directory \<open>process.cwd()\<close>, the string parameter \<open>cwd\<close> here.
\<close>

section \<open>Segments and normalisation\<close>

definition path_segments :: "string \<Rightarrow> string list" where
  "path_segments p = js_split CHR ''/'' p"

definition path_is_absolute :: "string \<Rightarrow> bool" where
  "path_is_absolute p \<longleftrightarrow> p \<noteq> [] \<and> hd p = CHR ''/''"

text \<open>
  \<open>normalizeString(path, allowAboveRoot)\<close>: empty and \<open>.\<close> segments vanish, a
  \<open>..\<close> removes the segment before it, and where there is none (or it is itself
  \<open>..\<close>) it is kept only when the path may climb above its start. The result so
  far is kept reversed in \<open>acc\<close>.
\<close>

fun norm_segs :: "bool \<Rightarrow> string list \<Rightarrow> string list \<Rightarrow> string list" where
  "norm_segs up acc [] = rev acc"
| "norm_segs up acc (s # ss) =
     (if s = [] \<or> s = ''.'' then norm_segs up acc ss
      else if s = ''..'' then
        (if acc \<noteq> [] \<and> hd acc \<noteq> ''..'' then norm_segs up (tl acc) ss
         else if up then norm_segs up (''..'' # acc) ss
         else norm_segs up acc ss)
      else norm_segs up (s # acc) ss)"

text \<open>
  \<open>path.normalize\<close>: the empty path is \<open>.\<close>; an absolute path stays absolute;
  a trailing slash is kept.
\<close>

definition path_normalize :: "string \<Rightarrow> string" where
  "path_normalize p =
     (if p = [] then ''.''
      else
        let is_abs = path_is_absolute p;
            trailing = (last p = CHR ''/'');
            body = join_with ''/'' (norm_segs (\<not> is_abs) [] (path_segments p))
        in if body = [] then (if is_abs then ''/'' else if trailing then ''./'' else ''.'')
           else (if is_abs then CHR ''/'' # body else body) @ (if trailing then ''/'' else []))"

text \<open>\<open>path.join(...parts)\<close>: the non-empty parts joined by slashes, normalised.\<close>

definition path_join :: "string list \<Rightarrow> string" where
  "path_join parts =
     (let joined = join_with ''/'' (filter (\<lambda>p. p \<noteq> []) parts)
      in if joined = [] then ''.'' else path_normalize joined)"

text \<open>
  \<open>path.resolve(p)\<close> for one argument, as the segments of the absolute result:
  a relative \<open>p\<close> is taken below \<open>cwd\<close>, and \<open>..\<close> never climbs above the root.
\<close>

definition path_resolve :: "string \<Rightarrow> string \<Rightarrow> string list" where
  "path_resolve cwd p =
     norm_segs False [] ((if path_is_absolute p then [] else path_segments cwd) @ path_segments p)"

fun common_prefix_len :: "'a list \<Rightarrow> 'a list \<Rightarrow> nat" where
  "common_prefix_len (x # xs) (y # ys) = (if x = y then Suc (common_prefix_len xs ys) else 0)"
| "common_prefix_len _ _ = 0"

text \<open>
  \<open>path.relative(from, to)\<close>: equal arguments give the empty string; otherwise
  both are resolved, and the result climbs with \<open>..\<close> out of the part of
  \<open>from\<close> below their longest common segment prefix, then descends into the
  rest of \<open>to\<close>. (Node computes the same on the characters of the resolved
  strings, cutting at the last common separator.)
\<close>

definition path_relative :: "string \<Rightarrow> string \<Rightarrow> string \<Rightarrow> string" where
  "path_relative cwd from to =
     (if from = to then []
      else
        let f = path_resolve cwd from; t = path_resolve cwd to
        in if f = t then []
           else let k = common_prefix_len f t
                in join_with ''/'' (replicate (length f - k) ''..'' @ drop k t))"

section \<open>dirname and basename\<close>

text \<open>
  \<open>path.dirname(p)\<close>: scanning from the end (never the first character), skip
  trailing slashes, then the last name; the cut is at the slash before it.
  Without such a slash the result is \<open>/\<close> or \<open>.\<close>; a cut right after a leading
  slash gives \<open>//\<close>.
\<close>

definition path_dirname :: "string \<Rightarrow> string" where
  "path_dirname p =
     (if p = [] then ''.''
      else
        let has_root = (hd p = CHR ''/'');
            r = dropWhile (\<lambda>c. c \<noteq> CHR ''/'') (dropWhile (\<lambda>c. c = CHR ''/'') (rev (tl p)));
            cut = length r
        in if r = [] then (if has_root then ''/'' else ''.'')
           else if has_root \<and> cut = 1 then ''//''
           else take cut p)"

text \<open>\<open>path.basename(p)\<close>: the last name, trailing slashes ignored.\<close>

definition path_basename :: "string \<Rightarrow> string" where
  "path_basename p =
     (let r = dropWhile (\<lambda>c. c = CHR ''/'') (rev p)
      in rev (takeWhile (\<lambda>c. c \<noteq> CHR ''/'') r))"

section \<open>Well-formed segments\<close>

text \<open>
  A segment that normalisation keeps as it is: not empty, not \<open>.\<close> or \<open>..\<close>,
  and free of the separator.
\<close>

definition seg_ok :: "string \<Rightarrow> bool" where
  "seg_ok s \<longleftrightarrow> s \<noteq> [] \<and> s \<noteq> ''.'' \<and> s \<noteq> ''..'' \<and> CHR ''/'' \<notin> set s"

text \<open>The rules that evaluate a path's segments on a literal path.\<close>

declare path_segments_def [path_simps] path_is_absolute_def [path_simps]

section \<open>Lemmas: normalisation\<close>

lemma norm_segs_append:
  "norm_segs up acc (xs @ ys) = norm_segs up (rev (norm_segs up acc xs)) ys"
  by (induction up acc xs rule: norm_segs.induct) auto

lemma norm_segs_ok [simp]: "list_all seg_ok ys \<Longrightarrow> norm_segs up acc ys = rev acc @ ys"
  by (induction ys arbitrary: acc) (auto simp: seg_ok_def)

lemma norm_segs_no_dotdot:
  "''..'' \<notin> set ys \<Longrightarrow> norm_segs up acc ys = rev acc @ filter (\<lambda>s. s \<noteq> [] \<and> s \<noteq> ''.'') ys"
  by (induction ys arbitrary: acc) auto

lemma list_all_seg_ok_tl: "list_all seg_ok acc \<Longrightarrow> list_all seg_ok (tl acc)"
  by (cases acc) auto

lemma norm_segs_False_ok:
  "list_all seg_ok acc \<Longrightarrow> \<forall>s\<in>set ys. CHR ''/'' \<notin> set s \<Longrightarrow> list_all seg_ok (norm_segs False acc ys)"
  by (induction False acc ys rule: norm_segs.induct) (auto simp: seg_ok_def list_all_seg_ok_tl)

lemma path_segments_pieces: "s \<in> set (path_segments p) \<Longrightarrow> CHR ''/'' \<notin> set s"
  by (auto simp: path_segments_def dest: js_split_pieces)

text \<open>Every segment of a resolved path is well-formed: no \<open>..\<close> survives resolution.\<close>

lemma path_resolve_ok: "list_all seg_ok (path_resolve cwd p)"
  unfolding path_resolve_def
  by (rule norm_segs_False_ok) (auto dest: path_segments_pieces)

section \<open>Lemmas: common prefixes\<close>

lemma common_prefix_len_le: "common_prefix_len xs ys \<le> length xs"
  by (induction xs ys rule: common_prefix_len.induct) auto

lemma common_prefix_len_full: "common_prefix_len xs ys = length xs \<Longrightarrow> prefix xs ys"
  by (induction xs ys rule: common_prefix_len.induct) (auto split: if_splits)

lemma common_prefix_len_append [simp]: "common_prefix_len xs (xs @ ys) = length xs"
  by (induction xs) auto

lemma common_prefix_len_same_prefix [simp]:
  "common_prefix_len (xs @ ys) (xs @ zs) = length xs + common_prefix_len ys zs"
  by (induction xs) auto

section \<open>Lemmas: relative paths\<close>

lemma join_dotdot_starts: "js_starts_with (join_with ''/'' (''..'' # xs)) ''..''"
  by (cases xs) (auto simp: js_starts_with_def)

lemma hd_join_with_Cons: "x \<noteq> [] \<Longrightarrow> hd (join_with sep (x # xs)) = hd x"
  by (cases xs) auto

lemma join_seg_ok_not_absolute:
  "list_all seg_ok xs \<Longrightarrow> \<not> path_is_absolute (join_with ''/'' xs)"
proof (cases xs)
  case (Cons x xs')
  moreover assume "list_all seg_ok xs"
  ultimately have "x \<noteq> []" "CHR ''/'' \<notin> set x" by (auto simp: seg_ok_def)
  then show ?thesis
    using Cons by (auto simp: path_is_absolute_def hd_join_with_Cons dest: hd_in_set)
qed (simp add: path_is_absolute_def)

lemma path_segments_join_ok:
  "xs \<noteq> [] \<Longrightarrow> list_all seg_ok xs \<Longrightarrow> path_segments (join_with ''/'' xs) = xs"
  unfolding path_segments_def
  by (rule js_split_join) (auto simp: seg_ok_def list_all_iff)

text \<open>
  The shape of \<open>path.relative\<close>: a result that does not start with \<open>..\<close>
  climbs nothing. It is relative and none of its segments is \<open>..\<close>.
\<close>

lemma path_relative_descends:
  assumes "\<not> js_starts_with (path_relative cwd from to) ''..''"
  shows "\<not> path_is_absolute (path_relative cwd from to)
         \<and> ''..'' \<notin> set (path_segments (path_relative cwd from to))"
proof (cases "from = to \<or> path_resolve cwd from = path_resolve cwd to")
  case True
  then show ?thesis
    by (auto simp: path_relative_def path_simps js_simps)
next
  case False
  define f where "f = path_resolve cwd from"
  define t where "t = path_resolve cwd to"
  define k where "k = common_prefix_len f t"
  have rel: "path_relative cwd from to = join_with ''/'' (replicate (length f - k) ''..'' @ drop k t)"
    using False by (simp add: path_relative_def f_def t_def k_def Let_def)
  have "length f - k = 0"
  proof (rule ccontr)
    assume "length f - k \<noteq> 0"
    then obtain m where "length f - k = Suc m" by (cases "length f - k") auto
    then have "js_starts_with (path_relative cwd from to) ''..''"
      by (simp add: rel join_dotdot_starts)
    with assms show False by simp
  qed
  then have rel0: "path_relative cwd from to = join_with ''/'' (drop k t)"
    by (simp add: rel)
  have ok: "list_all seg_ok (drop k t)"
    using path_resolve_ok [of cwd to] by (auto simp: t_def list_all_iff dest: in_set_dropD)
  show ?thesis
  proof (cases "drop k t = []")
    case True
    then show ?thesis
      by (simp add: rel0 path_simps js_simps)
  next
    case False
    with ok show ?thesis
      by (auto simp: rel0 join_seg_ok_not_absolute path_segments_join_ok seg_ok_def list_all_iff)
  qed
qed

text \<open>A relative path free of \<open>..\<close> resolves below the directory it is taken from.\<close>

lemma path_resolve_below:
  assumes "\<not> path_is_absolute t" and "''..'' \<notin> set (path_segments t)"
  shows "prefix (path_resolve root ''.'') (path_resolve root t)"
proof -
  have dot: "path_resolve root ''.'' = norm_segs False [] (path_segments root)"
    by (simp add: path_resolve_def path_simps js_simps
                  norm_segs_append)
  have "path_resolve root t =
          norm_segs False (rev (norm_segs False [] (path_segments root))) (path_segments t)"
    using assms(1) by (simp add: path_resolve_def norm_segs_append)
  also have "\<dots> = norm_segs False [] (path_segments root)
                   @ filter (\<lambda>s. s \<noteq> [] \<and> s \<noteq> ''.'') (path_segments t)"
    using assms(2) by (simp add: norm_segs_no_dotdot)
  finally show ?thesis by (simp add: dot)
qed

text \<open>A path that is not below \<open>from\<close> is reached by climbing.\<close>

lemma path_relative_climbs:
  assumes "\<not> prefix (path_resolve cwd from) (path_resolve cwd to)"
  shows "js_starts_with (path_relative cwd from to) ''..''"
proof -
  define f where "f = path_resolve cwd from"
  define t where "t = path_resolve cwd to"
  define k where "k = common_prefix_len f t"
  have ne: "from \<noteq> to" "f \<noteq> t"
    using assms by (auto simp: f_def t_def)
  have "k \<noteq> length f"
    using assms common_prefix_len_full [of f t] by (auto simp: k_def f_def t_def)
  then obtain m where m: "length f - k = Suc m"
    using common_prefix_len_le [of f t] by (cases "length f - k") (auto simp: k_def)
  have "path_relative cwd from to = join_with ''/'' (replicate (length f - k) ''..'' @ drop k t)"
    using ne by (simp add: path_relative_def f_def t_def k_def Let_def)
  then show ?thesis by (simp add: m join_dotdot_starts)
qed

section \<open>Lemmas: dirname and basename\<close>

text \<open>For a directory name and a file name, neither containing a slash.\<close>

lemma path_dirname_file:
  assumes "d \<noteq> []" "CHR ''/'' \<notin> set d" "x \<noteq> []" "CHR ''/'' \<notin> set x"
  shows "path_dirname (d @ CHR ''/'' # x) = d"
proof -
  have hx: "hd (rev x) \<noteq> CHR ''/''"
    using assms(3,4) by (metis hd_in_set rev_is_Nil_conv set_rev)
  have r: "rev (tl (d @ CHR ''/'' # x)) = rev x @ CHR ''/'' # rev (tl d)"
    using assms(1) by (cases d) auto
  have d1: "dropWhile (\<lambda>c. c = CHR ''/'') (rev x @ CHR ''/'' # rev (tl d)) = rev x @ CHR ''/'' # rev (tl d)"
    using hx assms(3) by (cases "rev x") auto
  have d2: "dropWhile (\<lambda>c. c \<noteq> CHR ''/'') (rev x @ CHR ''/'' # rev (tl d)) = CHR ''/'' # rev (tl d)"
    using assms(4) by (simp add: dropWhile_append)
  have hd: "hd (d @ CHR ''/'' # x) \<noteq> CHR ''/''"
    using assms(1,2) by (cases d) auto
  have len: "length (CHR ''/'' # rev (tl d)) = length d"
    using assms(1) by (cases d) auto
  show ?thesis
    using assms(1) hd
    by (simp add: path_dirname_def r d1 d2 len Let_def)
qed

lemma path_basename_file:
  assumes "x \<noteq> []" "CHR ''/'' \<notin> set x"
  shows "path_basename (d @ CHR ''/'' # x) = x"
proof -
  have hx: "hd (rev x) \<noteq> CHR ''/''"
    using assms by (metis hd_in_set rev_is_Nil_conv set_rev)
  have "dropWhile (\<lambda>c. c = CHR ''/'') (rev x @ CHR ''/'' # rev d) = rev x @ CHR ''/'' # rev d"
    using hx assms(1) by (cases "rev x") auto
  moreover have "takeWhile (\<lambda>c. c \<noteq> CHR ''/'') (rev x @ CHR ''/'' # rev d) = rev x"
    using assms(2) by (simp add: takeWhile_append)
  ultimately show ?thesis
    by (simp add: path_basename_def)
qed

end
