(* ===== verification/EmailThemeFilter.thy ===== *)
theory EmailThemeFilter
  imports NodePath
begin

text \<open>
  The \<open>onArchiveFile\<close> callback that \<open>src/scripts/build.ts\<close> (lines 75--86)
  hands to \<open>downloadAndExtractArchive\<close>: for each file of the Keycloak themes
  jar it computes the path relative to \<open>theme/base/email\<close>, skips the file when
  that path starts with \<open>..\<close>, and otherwise asks for it to be written at that
  path. \<open>Some t\<close> is the call \<open>writeFile({fileRelativePath: t})\<close>; \<open>None\<close> is the
  early return, after which the entry is left out of the extraction.
\<close>

definition email_theme_dir :: string where
  "email_theme_dir = path_join [''theme'', ''base'', ''email'']"

definition on_archive_file :: "string \<Rightarrow> string \<Rightarrow> string option" where
  "on_archive_file cwd file_relative_path =
     (let file_relative_path_target = path_relative cwd email_theme_dir file_relative_path
      in if js_starts_with file_relative_path_target ''..'' then None
         else Some file_relative_path_target)"

section \<open>Lemmas\<close>

lemma email_theme_dir_eq: "email_theme_dir = ''theme/base/email''"
  by (simp add: email_theme_dir_def path_join_def path_normalize_def path_simps js_simps)

lemma path_segments_email_entry:
  "path_segments (''theme/base/email/'' @ r) = [''theme'', ''base'', ''email''] @ path_segments r"
  by (simp add: path_simps js_simps)

lemma path_resolve_email_dir:
  "path_resolve cwd email_theme_dir
     = norm_segs False [] (path_segments cwd) @ [''theme'', ''base'', ''email'']"
  by (simp add: email_theme_dir_eq path_resolve_def path_simps js_simps norm_segs_append)

lemma path_resolve_email_entry:
  assumes "list_all seg_ok (path_segments r)"
  shows "path_resolve cwd (''theme/base/email/'' @ r)
     = norm_segs False [] (path_segments cwd) @ [''theme'', ''base'', ''email''] @ path_segments r"
proof -
  have "\<not> path_is_absolute (''theme/base/email/'' @ r)"
    by (simp add: path_is_absolute_def)
  then show ?thesis
    using assms unfolding path_resolve_def path_segments_email_entry
    by (simp add: norm_segs_append seg_ok_def)
qed

section \<open>Properties\<close>

text \<open>
  C1 (path-traversal safety of the filter). Whatever the archive entry and
  whatever the working directory, a target the callback asks to write is a
  relative path without \<open>..\<close> segments: joined to any extraction directory
  \<open>root\<close>, it resolves below \<open>root\<close>.
\<close>

theorem on_archive_file_target_below:
  assumes "on_archive_file cwd p = Some t"
  shows "prefix (path_resolve root ''.'') (path_resolve root t)"
proof -
  have t: "t = path_relative cwd email_theme_dir p"
    and ns: "\<not> js_starts_with t ''..''"
    using assms by (auto simp: on_archive_file_def Let_def split: if_splits)
  then have "\<not> path_is_absolute t \<and> ''..'' \<notin> set (path_segments t)"
    using path_relative_descends [of cwd email_theme_dir p] by simp
  then show ?thesis by (blast intro: path_resolve_below)
qed

text \<open>
  C2 (the email files are kept, renamed). An entry
  \<open>theme/base/email/r\<close>, with \<open>r\<close> a path of ordinary names whose first name
  does not start with \<open>..\<close>, is written at \<open>r\<close>.
\<close>

theorem on_archive_file_email_entry:
  assumes "list_all seg_ok (path_segments r)" and "\<not> js_starts_with r ''..''"
  shows "on_archive_file cwd (''theme/base/email/'' @ r) = Some r"
proof -
  let ?C = "norm_segs False [] (path_segments cwd)"
  have f: "path_resolve cwd email_theme_dir = ?C @ [''theme'', ''base'', ''email'']"
    by (rule path_resolve_email_dir)
  have t: "path_resolve cwd (''theme/base/email/'' @ r)
             = ?C @ [''theme'', ''base'', ''email''] @ path_segments r"
    using assms(1) by (rule path_resolve_email_entry)
  have ne: "path_segments r \<noteq> []"
    by (simp add: path_segments_def)
  have neq1: "email_theme_dir \<noteq> ''theme/base/email/'' @ r"
    by (simp add: email_theme_dir_eq)
  have neq2: "path_resolve cwd email_theme_dir \<noteq> path_resolve cwd (''theme/base/email/'' @ r)"
    unfolding f t using ne by simp
  have k: "common_prefix_len (path_resolve cwd email_theme_dir)
             (path_resolve cwd (''theme/base/email/'' @ r)) = length (path_resolve cwd email_theme_dir)"
    unfolding f t by simp
  have d: "drop (length (path_resolve cwd email_theme_dir))
             (path_resolve cwd (''theme/base/email/'' @ r)) = path_segments r"
    unfolding f t by simp
  have "path_relative cwd email_theme_dir (''theme/base/email/'' @ r)
          = join_with ''/'' (path_segments r)"
    unfolding path_relative_def Let_def using neq1 neq2 k d by simp
  also have "\<dots> = r"
    by (simp add: path_segments_def)
  finally show ?thesis
    using assms(2) by (simp add: on_archive_file_def)
qed

text \<open>
  C3 (everything outside the email theme is skipped). An entry that does not
  resolve below \<open>theme/base/email\<close> (another theme, the jar's metadata, a
  path climbing out with \<open>..\<close>, an absolute path) is never written.
\<close>

theorem on_archive_file_outside_skipped:
  assumes "\<not> prefix (path_resolve cwd ''theme/base/email'') (path_resolve cwd p)"
  shows "on_archive_file cwd p = None"
  using path_relative_climbs [of cwd email_theme_dir p] assms
  by (simp add: on_archive_file_def email_theme_dir_eq)

text \<open>
  The \<open>startsWith("..")\<close> test is on characters, not on segments: a file of
  the email theme whose name begins with two dots is dropped although it lies
  inside the theme.
\<close>

theorem on_archive_file_drops_dotted_name:
  "on_archive_file cwd ''theme/base/email/..data'' = None"
proof -
  have "path_relative cwd email_theme_dir ''theme/base/email/..data'' = ''..data''"
    by (simp add: path_relative_def email_theme_dir_eq path_resolve_def path_is_absolute_def
                  path_simps js_simps norm_segs_append seg_ok_def Let_def)
  then show ?thesis
    by (simp add: on_archive_file_def js_starts_with_def)
qed

section \<open>Witnesses\<close>

theorem on_archive_file_email_entry_witness:
  "on_archive_file ''/home/ci/email-native'' ''theme/base/email/messages/messages_en.properties''
     = Some ''messages/messages_en.properties''"
proof -
  have "list_all seg_ok (path_segments ''messages/messages_en.properties'')"
    by (simp add: path_simps js_simps seg_ok_def)
  moreover have "\<not> js_starts_with ''messages/messages_en.properties'' ''..''"
    by (simp add: js_starts_with_def)
  ultimately show ?thesis
    using on_archive_file_email_entry [of "''messages/messages_en.properties''"
                                          "''/home/ci/email-native''"]
    by simp
qed

theorem on_archive_file_target_below_witness:
  "on_archive_file ''/home/ci'' ''theme/base/email/html/executions.ftl'' = Some ''html/executions.ftl''
   \<and> prefix (path_resolve ''/tmp/x'' ''.'') (path_resolve ''/tmp/x'' ''html/executions.ftl'')"
proof -
  have e: "on_archive_file ''/home/ci'' ''theme/base/email/html/executions.ftl''
             = Some ''html/executions.ftl''"
    by (simp add: on_archive_file_def path_relative_def email_theme_dir_eq path_resolve_def
                  path_simps js_simps norm_segs_append
                  seg_ok_def js_starts_with_def Let_def)
  show ?thesis
    using e on_archive_file_target_below [OF e, of "''/tmp/x''"] by simp
qed

theorem on_archive_file_outside_skipped_witness:
  "\<not> prefix (path_resolve ''/home/ci'' ''theme/base/email'')
            (path_resolve ''/home/ci'' ''theme/base/login/template.ftl'')
   \<and> on_archive_file ''/home/ci'' ''theme/base/login/template.ftl'' = None"
proof -
  have h: "\<not> prefix (path_resolve ''/home/ci'' ''theme/base/email'')
                     (path_resolve ''/home/ci'' ''theme/base/login/template.ftl'')"
    by (simp add: path_resolve_def path_simps js_simps
                  norm_segs_append seg_ok_def)
  show ?thesis
    using h on_archive_file_outside_skipped [OF h] by simp
qed

end
