(* ===== verification/Utf8.thy ===== *)
theory Utf8
  imports Prelude
begin

text \<open>
  The two conversions \<open>src/scripts/build.ts\<close> applies to the bytes of a
  messages file (lines 115--128): \<open>sourceCode.toString("utf8")\<close> decodes the
  \<open>Buffer\<close> into a string, and \<open>Buffer.from(text, "utf8")\<close> encodes the
  bannered string back. Node decodes with the WHATWG UTF-8 decoder (V8's
  \<open>Utf8Decoder\<close>): an ill-formed sequence becomes U+FFFD, the byte that broke
  it is read again, and a sequence cut off by the end of input gives one
  U+FFFD. The decoder is its state machine; the encoder writes each code
  point in one to four bytes, a lone surrogate as U+FFFD. Unicode's table of
  well-formed byte sequences (Table 3-7) is stated separately
  (\<open>utf8_valid\<close>) to say which inputs survive the round trip.
\<close>

section \<open>Decoder\<close>

text \<open>
  The decoder's state between bytes: idle, or inside a sequence with
  \<open>k\<close> continuation bytes still needed, the code point so far, and the
  bounds the next byte must lie in.
\<close>

datatype utf8_state = Utf8Idle | Utf8Need nat nat nat nat

function utf8_decode_from :: "utf8_state \<Rightarrow> bytes \<Rightarrow> codepoints" where
  "utf8_decode_from Utf8Idle [] = []"
| "utf8_decode_from (Utf8Need k cp lo hi) [] = [0xFFFD]"
| "utf8_decode_from Utf8Idle (b # bs) =
     (let n = unat b in
      if n \<le> 0x7F then n # utf8_decode_from Utf8Idle bs
      else if 0xC2 \<le> n \<and> n \<le> 0xDF then utf8_decode_from (Utf8Need 1 (n mod 32) 0x80 0xBF) bs
      else if n = 0xE0 then utf8_decode_from (Utf8Need 2 (n mod 16) 0xA0 0xBF) bs
      else if n = 0xED then utf8_decode_from (Utf8Need 2 (n mod 16) 0x80 0x9F) bs
      else if 0xE1 \<le> n \<and> n \<le> 0xEF then utf8_decode_from (Utf8Need 2 (n mod 16) 0x80 0xBF) bs
      else if n = 0xF0 then utf8_decode_from (Utf8Need 3 (n mod 8) 0x90 0xBF) bs
      else if n = 0xF4 then utf8_decode_from (Utf8Need 3 (n mod 8) 0x80 0x8F) bs
      else if 0xF1 \<le> n \<and> n \<le> 0xF3 then utf8_decode_from (Utf8Need 3 (n mod 8) 0x80 0xBF) bs
      else 0xFFFD # utf8_decode_from Utf8Idle bs)"
| "utf8_decode_from (Utf8Need k cp lo hi) (b # bs) =
     (let n = unat b in
      if lo \<le> n \<and> n \<le> hi then
        (if k \<le> 1 then (cp * 64 + n mod 64) # utf8_decode_from Utf8Idle bs
         else utf8_decode_from (Utf8Need (k - 1) (cp * 64 + n mod 64) 0x80 0xBF) bs)
      else 0xFFFD # utf8_decode_from Utf8Idle (b # bs))"
  by pat_completeness auto
termination
  by (relation "measures [\<lambda>(st, bs). length bs,
                          \<lambda>(st, bs). case st of Utf8Idle \<Rightarrow> 0 | Utf8Need _ _ _ _ \<Rightarrow> 1]") auto

text \<open>\<open>buf.toString("utf8")\<close>.\<close>

definition utf8_decode :: "bytes \<Rightarrow> codepoints" where
  "utf8_decode bs = utf8_decode_from Utf8Idle bs"

section \<open>Encoder\<close>

text \<open>\<open>Buffer.from(s, "utf8")\<close> on one code point of the string.\<close>

definition utf8_encode_cp :: "nat \<Rightarrow> bytes" where
  "utf8_encode_cp c0 =
     (let c = (if 0xD800 \<le> c0 \<and> c0 \<le> 0xDFFF then 0xFFFD else c0) in
      if c < 0x80 then [word_of_nat c]
      else if c < 0x800 then [word_of_nat (0xC0 + c div 64), word_of_nat (0x80 + c mod 64)]
      else if c < 0x10000 then
        [word_of_nat (0xE0 + c div 4096), word_of_nat (0x80 + c div 64 mod 64),
         word_of_nat (0x80 + c mod 64)]
      else
        [word_of_nat (0xF0 + c div 262144), word_of_nat (0x80 + c div 4096 mod 64),
         word_of_nat (0x80 + c div 64 mod 64), word_of_nat (0x80 + c mod 64)])"

definition utf8_encode :: "codepoints \<Rightarrow> bytes" where
  "utf8_encode cs = concat (map utf8_encode_cp cs)"

section \<open>Well-formed UTF-8 (Unicode Table 3-7)\<close>

text \<open>
  For a first byte, the ranges its continuation bytes must lie in, or
  \<open>None\<close> when it cannot start a well-formed sequence.
\<close>

definition utf8_seq_ranges :: "nat \<Rightarrow> (nat \<times> nat) list option" where
  "utf8_seq_ranges n =
     (if n \<le> 0x7F then Some []
      else if 0xC2 \<le> n \<and> n \<le> 0xDF then Some [(0x80, 0xBF)]
      else if n = 0xE0 then Some [(0xA0, 0xBF), (0x80, 0xBF)]
      else if 0xE1 \<le> n \<and> n \<le> 0xEC then Some [(0x80, 0xBF), (0x80, 0xBF)]
      else if n = 0xED then Some [(0x80, 0x9F), (0x80, 0xBF)]
      else if 0xEE \<le> n \<and> n \<le> 0xEF then Some [(0x80, 0xBF), (0x80, 0xBF)]
      else if n = 0xF0 then Some [(0x90, 0xBF), (0x80, 0xBF), (0x80, 0xBF)]
      else if 0xF1 \<le> n \<and> n \<le> 0xF3 then Some [(0x80, 0xBF), (0x80, 0xBF), (0x80, 0xBF)]
      else if n = 0xF4 then Some [(0x80, 0x8F), (0x80, 0xBF), (0x80, 0xBF)]
      else None)"

definition in_ranges :: "(nat \<times> nat) list \<Rightarrow> bytes \<Rightarrow> bool" where
  "in_ranges rs bs \<longleftrightarrow> length bs = length rs
     \<and> list_all2 (\<lambda>(lo, hi) b. lo \<le> unat b \<and> unat b \<le> hi) rs bs"

fun utf8_valid :: "bytes \<Rightarrow> bool" where
  "utf8_valid [] = True"
| "utf8_valid (b # bs) =
     (case utf8_seq_ranges (unat b) of
        None \<Rightarrow> False
      | Some rs \<Rightarrow> in_ranges rs (take (length rs) bs) \<and> utf8_valid (drop (length rs) bs))"

text \<open>
  The code points a JavaScript string holds once its surrogate pairs are
  joined: Unicode scalar values, below U+110000 and outside the surrogates.
\<close>

definition utf8_scalar :: "nat \<Rightarrow> bool" where
  "utf8_scalar c \<longleftrightarrow> c < 0x110000 \<and> \<not> (0xD800 \<le> c \<and> c \<le> 0xDFFF)"

section \<open>Lemmas: the encoder by length\<close>

lemma utf8_encode_append [simp]: "utf8_encode (xs @ ys) = utf8_encode xs @ utf8_encode ys"
  by (simp add: utf8_encode_def)

lemma utf8_encode_cp_1: "c < 0x80 \<Longrightarrow> utf8_encode_cp c = [word_of_nat c]"
  by (simp add: utf8_encode_cp_def)

lemma utf8_encode_cp_2:
  "0x80 \<le> c \<Longrightarrow> c < 0x800 \<Longrightarrow>
   utf8_encode_cp c = [word_of_nat (0xC0 + c div 64), word_of_nat (0x80 + c mod 64)]"
  by (simp add: utf8_encode_cp_def)

lemma utf8_encode_cp_3:
  "0x800 \<le> c \<Longrightarrow> c < 0x10000 \<Longrightarrow> \<not> (0xD800 \<le> c \<and> c \<le> 0xDFFF) \<Longrightarrow>
   utf8_encode_cp c = [word_of_nat (0xE0 + c div 64 div 64), word_of_nat (0x80 + c div 64 mod 64),
                       word_of_nat (0x80 + c mod 64)]"
  by (auto simp: utf8_encode_cp_def div_4096)

lemma utf8_encode_cp_4:
  "0x10000 \<le> c \<Longrightarrow>
   utf8_encode_cp c = [word_of_nat (0xF0 + c div 64 div 64 div 64), word_of_nat (0x80 + c div 64 div 64 mod 64),
                       word_of_nat (0x80 + c div 64 mod 64), word_of_nat (0x80 + c mod 64)]"
  by (simp add: utf8_encode_cp_def div_4096 div_262144)

section \<open>Lemmas: one well-formed sequence decodes and re-encodes to itself\<close>

lemma cont_mod: "0x80 \<le> unat (c::byte) \<Longrightarrow> unat c \<le> 0xBF \<Longrightarrow> unat c mod 64 = unat c - 128"
  using mod_range_eq [of 2 64 "unat c"] by simp

lemma seq2_roundtrip:
  assumes b: "0xC2 \<le> unat b" "unat b \<le> 0xDF" and c: "0x80 \<le> unat c" "unat c \<le> 0xBF"
  defines "cp \<equiv> (unat b mod 32) * 64 + unat c mod 64"
  shows "utf8_decode_from Utf8Idle (b # c # rest) = cp # utf8_decode_from Utf8Idle rest
         \<and> utf8_encode_cp cp = [b, c]"
proof -
  have m0: "unat b mod 32 = unat b - 192" using b mod_range_eq [of 6 32 "unat b"] by simp
  have m1: "unat c mod 64 = unat c - 128" using c by (rule cont_mod)
  have dec: "utf8_decode_from Utf8Idle (b # c # rest) = cp # utf8_decode_from Utf8Idle rest"
    using b c by (simp add: cp_def)
  have x: "unat c - 128 < 64" using c by simp
  have "cp = (unat b - 192) * 64 + (unat c - 128)" by (simp add: cp_def m0 m1)
  moreover have "128 \<le> (unat b - 192) * 64 + (unat c - 128)" using b by simp
  moreover have "(unat b - 192) * 64 + (unat c - 128) < 2048" using b c by simp
  ultimately have "utf8_encode_cp cp = [word_of_nat (0xC0 + (unat b - 192)), word_of_nat (0x80 + (unat c - 128))]"
    using x by (simp add: utf8_encode_cp_def Let_def)
  also have "\<dots> = [b, c]" using b c by simp
  finally show ?thesis using dec by simp
qed

lemma seq3_roundtrip:
  assumes r: "utf8_seq_ranges (unat b) = Some [(lo, hi), (0x80, 0xBF)]"
    and c1: "lo \<le> unat c1" "unat c1 \<le> hi" and c2: "0x80 \<le> unat c2" "unat c2 \<le> 0xBF"
  defines "cp \<equiv> ((unat b mod 16) * 64 + unat c1 mod 64) * 64 + unat c2 mod 64"
  shows "utf8_decode_from Utf8Idle (b # c1 # c2 # rest) = cp # utf8_decode_from Utf8Idle rest
         \<and> utf8_encode_cp cp = [b, c1, c2]"
proof -
  have cases: "(unat b = 0xE0 \<and> lo = 0xA0 \<and> hi = 0xBF) \<or> (0xE1 \<le> unat b \<and> unat b \<le> 0xEC \<and> lo = 0x80 \<and> hi = 0xBF)
      \<or> (unat b = 0xED \<and> lo = 0x80 \<and> hi = 0x9F) \<or> (0xEE \<le> unat b \<and> unat b \<le> 0xEF \<and> lo = 0x80 \<and> hi = 0xBF)"
    using r by (auto simp: utf8_seq_ranges_def split: if_splits)
  then have b: "0xE0 \<le> unat b" "unat b \<le> 0xEF" and c1': "0x80 \<le> unat c1" "unat c1 \<le> 0xBF"
    using c1 by auto
  have dec: "utf8_decode_from Utf8Idle (b # c1 # c2 # rest) = cp # utf8_decode_from Utf8Idle rest"
    using cases c1 c2 by (auto simp: cp_def)
  define a where "a = unat b - 224"
  define x where "x = unat c1 - 128"
  define y where "y = unat c2 - 128"
  have ab: "unat b = 224 + a" and xc: "unat c1 = 128 + x" and yc: "unat c2 = 128 + y"
    using b c1' c2 by (simp_all add: a_def x_def y_def)
  have bnd: "a < 16" "x < 64" "y < 64" using b c1' c2 by (simp_all add: a_def x_def y_def)
  have "(224 + a) mod 16 = a" using bnd mod_range_eq [of 14 16 "224 + a"] by simp
  moreover have "(128 + x) mod 64 = x" using bnd mod_range_eq [of 2 64 "128 + x"] by simp
  moreover have "(128 + y) mod 64 = y" using bnd mod_range_eq [of 2 64 "128 + y"] by simp
  ultimately have cp: "cp = (a * 64 + x) * 64 + y" by (simp add: cp_def ab xc yc)
  have lo: "32 \<le> a * 64 + x" using cases c1 ab xc by auto
  have nsur: "\<not> (0x360 \<le> a * 64 + x \<and> a * 64 + x \<le> 0x37F)" using cases c1 ab xc by auto
  have hi: "a * 64 + x < 1024" using bnd by simp
  have ns: "\<not> (0xD800 \<le> cp \<and> cp \<le> 0xDFFF)"
    using base64_range_out [OF bnd(3) nsur] unfolding cp by simp
  have d1: "cp div 64 = a * 64 + x" unfolding cp by (rule base64_div [OF bnd(3)])
  have m1: "cp mod 64 = y" unfolding cp by (rule base64_mod [OF bnd(3)])
  have d2: "cp div 64 div 64 = a" unfolding d1 by (rule base64_div [OF bnd(2)])
  have m2: "cp div 64 mod 64 = x" unfolding d1 by (rule base64_mod [OF bnd(2)])
  have range: "0x800 \<le> cp" "cp < 0x10000" using lo hi bnd unfolding cp by simp_all
  have "utf8_encode_cp cp = [word_of_nat (0xE0 + a), word_of_nat (0x80 + x), word_of_nat (0x80 + y)]"
    using ns range by (simp add: utf8_encode_cp_3 d2 m1 m2)
  also have "\<dots> = [b, c1, c2]" by (simp flip: ab xc yc)
  finally show ?thesis using dec by simp
qed

lemma seq4_roundtrip:
  assumes r: "utf8_seq_ranges (unat b) = Some [(lo, hi), (0x80, 0xBF), (0x80, 0xBF)]"
    and c1: "lo \<le> unat c1" "unat c1 \<le> hi" and c2: "0x80 \<le> unat c2" "unat c2 \<le> 0xBF"
    and c3: "0x80 \<le> unat c3" "unat c3 \<le> 0xBF"
  defines "cp \<equiv> (((unat b mod 8) * 64 + unat c1 mod 64) * 64 + unat c2 mod 64) * 64 + unat c3 mod 64"
  shows "utf8_decode_from Utf8Idle (b # c1 # c2 # c3 # rest) = cp # utf8_decode_from Utf8Idle rest
         \<and> utf8_encode_cp cp = [b, c1, c2, c3]"
proof -
  have cases: "(unat b = 0xF0 \<and> lo = 0x90 \<and> hi = 0xBF) \<or> (0xF1 \<le> unat b \<and> unat b \<le> 0xF3 \<and> lo = 0x80 \<and> hi = 0xBF)
      \<or> (unat b = 0xF4 \<and> lo = 0x80 \<and> hi = 0x8F)"
    using r by (auto simp: utf8_seq_ranges_def split: if_splits)
  then have b: "0xF0 \<le> unat b" "unat b \<le> 0xF4" and c1': "0x80 \<le> unat c1" "unat c1 \<le> 0xBF"
    using c1 by auto
  have dec: "utf8_decode_from Utf8Idle (b # c1 # c2 # c3 # rest) = cp # utf8_decode_from Utf8Idle rest"
    using cases c1 c2 c3 by (auto simp: cp_def)
  define a where "a = unat b - 240"
  define x where "x = unat c1 - 128"
  define y where "y = unat c2 - 128"
  define z where "z = unat c3 - 128"
  have ab: "unat b = 240 + a" and xc: "unat c1 = 128 + x" and yc: "unat c2 = 128 + y"
    and zc: "unat c3 = 128 + z"
    using b c1' c2 c3 by (simp_all add: a_def x_def y_def z_def)
  have bnd: "a < 8" "x < 64" "y < 64" "z < 64" using b c1' c2 c3 by (simp_all add: a_def x_def y_def z_def)
  have "(240 + a) mod 8 = a" using bnd mod_range_eq [of 30 8 "240 + a"] by simp
  moreover have "(128 + x) mod 64 = x" using bnd mod_range_eq [of 2 64 "128 + x"] by simp
  moreover have "(128 + y) mod 64 = y" using bnd mod_range_eq [of 2 64 "128 + y"] by simp
  moreover have "(128 + z) mod 64 = z" using bnd mod_range_eq [of 2 64 "128 + z"] by simp
  ultimately have cp: "cp = ((a * 64 + x) * 64 + y) * 64 + z" by (simp add: cp_def ab xc yc zc)
  have lo: "16 \<le> a * 64 + x" using cases c1 ab xc by auto
  have d1: "cp div 64 = (a * 64 + x) * 64 + y" unfolding cp by (rule base64_div [OF bnd(4)])
  have m1: "cp mod 64 = z" unfolding cp by (rule base64_mod [OF bnd(4)])
  have d2: "cp div 64 div 64 = a * 64 + x" unfolding d1 by (rule base64_div [OF bnd(3)])
  have m2: "cp div 64 mod 64 = y" unfolding d1 by (rule base64_mod [OF bnd(3)])
  have d3: "cp div 64 div 64 div 64 = a" unfolding d2 by (rule base64_div [OF bnd(2)])
  have m3: "cp div 64 div 64 mod 64 = x" unfolding d2 by (rule base64_mod [OF bnd(2)])
  have range: "0x10000 \<le> cp" using lo unfolding cp by simp
  have "utf8_encode_cp cp = [word_of_nat (0xF0 + a), word_of_nat (0x80 + x), word_of_nat (0x80 + y),
                              word_of_nat (0x80 + z)]"
    using range by (simp add: utf8_encode_cp_4 d3 m1 m2 m3)
  also have "\<dots> = [b, c1, c2, c3]" by (simp flip: ab xc yc zc)
  finally show ?thesis using dec by simp
qed

lemma seq1_roundtrip:
  assumes "unat b \<le> 0x7F"
  shows "utf8_decode_from Utf8Idle (b # rest) = unat b # utf8_decode_from Utf8Idle rest
         \<and> utf8_encode_cp (unat b) = [b]"
  using assms by (simp add: utf8_encode_cp_1)

lemma utf8_seq_ranges_shapes:
  assumes "utf8_seq_ranges n = Some rs"
  shows "(rs = [] \<and> n \<le> 0x7F) \<or> (rs = [(0x80, 0xBF)] \<and> 0xC2 \<le> n \<and> n \<le> 0xDF)
         \<or> (\<exists>lo hi. rs = [(lo, hi), (0x80, 0xBF)]) \<or> (\<exists>lo hi. rs = [(lo, hi), (0x80, 0xBF), (0x80, 0xBF)])"
  using assms by (auto simp: utf8_seq_ranges_def split: if_splits)

lemma in_ranges_Cons:
  "in_ranges ((lo, hi) # rs) cs \<longleftrightarrow> (\<exists>c cs'. cs = c # cs' \<and> lo \<le> unat c \<and> unat c \<le> hi \<and> in_ranges rs cs')"
  by (cases cs) (auto simp: in_ranges_def)

lemma in_ranges_Nil [simp]: "in_ranges [] cs \<longleftrightarrow> cs = []"
  by (simp add: in_ranges_def)

lemma utf8_seq_roundtrip:
  assumes r: "utf8_seq_ranges (unat b) = Some rs" and c: "in_ranges rs cs"
  shows "\<exists>cp. utf8_decode_from Utf8Idle (b # cs @ rest) = cp # utf8_decode_from Utf8Idle rest
              \<and> utf8_encode_cp cp = b # cs"
  using utf8_seq_ranges_shapes [OF r]
proof (elim disjE exE conjE)
  assume "rs = []" "unat b \<le> 0x7F"
  with c show ?thesis using seq1_roundtrip [of b rest] by auto
next
  assume rs: "rs = [(0x80, 0xBF)]" and b: "0xC2 \<le> unat b" "unat b \<le> 0xDF"
  with c obtain c1 where "cs = [c1]" "0x80 \<le> unat c1" "unat c1 \<le> 0xBF"
    by (auto simp: in_ranges_Cons)
  with b show ?thesis using seq2_roundtrip [of b c1 rest] by fastforce
next
  fix lo hi assume rs: "rs = [(lo, hi), (0x80, 0xBF)]"
  with c obtain c1 c2 where "cs = [c1, c2]" "lo \<le> unat c1" "unat c1 \<le> hi"
      "0x80 \<le> unat c2" "unat c2 \<le> 0xBF"
    by (auto simp: in_ranges_Cons)
  with r rs show ?thesis using seq3_roundtrip [of b lo hi c1 c2 rest] by fastforce
next
  fix lo hi assume rs: "rs = [(lo, hi), (0x80, 0xBF), (0x80, 0xBF)]"
  with c obtain c1 c2 c3 where "cs = [c1, c2, c3]" "lo \<le> unat c1" "unat c1 \<le> hi"
      "0x80 \<le> unat c2" "unat c2 \<le> 0xBF" "0x80 \<le> unat c3" "unat c3 \<le> 0xBF"
    by (auto simp: in_ranges_Cons)
  with r rs show ?thesis using seq4_roundtrip [of b lo hi c1 c2 c3 rest] by fastforce
qed

section \<open>Lemmas: the decoder on encoder output\<close>

lemma unat_cont_byte: "x < 64 \<Longrightarrow> unat (word_of_nat (0x80 + x) :: byte) = 128 + x"
  by (intro unat_word_of_nat_byte) simp

lemma decode_cont_next:
  assumes "unat b = 128 + x" "x < 64" "lo \<le> 128 + x" "128 + x \<le> hi" "1 < k" "k' = k - 1"
  shows "utf8_decode_from (Utf8Need k cp lo hi) (b # bs)
         = utf8_decode_from (Utf8Need k' (cp * 64 + x) 0x80 0xBF) bs"
  using assms mod_range_eq [of 2 64 "128 + x"] by (simp add: Let_def)

lemma decode_cont_last:
  assumes "unat b = 128 + x" "x < 64" "lo \<le> 128 + x" "128 + x \<le> hi"
  shows "utf8_decode_from (Utf8Need 1 cp lo hi) (b # bs) = (cp * 64 + x) # utf8_decode_from Utf8Idle bs"
  using assms mod_range_eq [of 2 64 "128 + x"] by (simp add: Let_def)

lemma decode_lead_2:
  assumes "unat b = 192 + a" "2 \<le> a" "a < 32"
  shows "utf8_decode_from Utf8Idle (b # bs) = utf8_decode_from (Utf8Need 1 a 0x80 0xBF) bs"
  using assms mod_range_eq [of 6 32 "192 + a"] by (simp add: Let_def)

lemma decode_lead_3:
  assumes "unat b = 224 + a" "a < 16"
  shows "utf8_decode_from Utf8Idle (b # bs)
         = utf8_decode_from (Utf8Need 2 a (if a = 0 then 0xA0 else 0x80) (if a = 13 then 0x9F else 0xBF)) bs"
  using assms mod_range_eq [of 14 16 "224 + a"] by (simp add: Let_def)

lemma decode_lead_4:
  assumes "unat b = 240 + a" "a < 5"
  shows "utf8_decode_from Utf8Idle (b # bs)
         = utf8_decode_from (Utf8Need 3 a (if a = 0 then 0x90 else 0x80) (if a = 4 then 0x8F else 0xBF)) bs"
  using assms mod_range_eq [of 30 8 "240 + a"] by (simp add: Let_def)

section \<open>Lemmas: one encoded code point decodes to itself\<close>

lemma decode_cp_1:
  assumes "c < 0x80"
  shows "utf8_decode_from Utf8Idle (utf8_encode_cp c @ rest) = c # utf8_decode_from Utf8Idle rest"
  using assms by (simp add: utf8_encode_cp_1 unat_word_of_nat_byte)

lemma decode_cp_2:
  assumes "0x80 \<le> c" and "c < 0x800"
  shows "utf8_decode_from Utf8Idle (utf8_encode_cp c @ rest) = c # utf8_decode_from Utf8Idle rest"
proof -
  define a where "a = c div 64"
  define y where "y = c mod 64"
  have c: "c = a * 64 + y" and y: "y < 64" by (simp_all add: a_def y_def)
  have a: "2 \<le> a" "a < 32" using assms c y by linarith+
  have u0: "unat (word_of_nat (0xC0 + a) :: byte) = 192 + a"
    using a by (intro unat_word_of_nat_byte) simp
  have "utf8_decode_from Utf8Idle (utf8_encode_cp c @ rest)
        = utf8_decode_from Utf8Idle (word_of_nat (0xC0 + a) # word_of_nat (0x80 + y) # rest)"
    unfolding a_def y_def utf8_encode_cp_2 [OF assms] by simp
  also have "\<dots> = utf8_decode_from (Utf8Need 1 a 0x80 0xBF) (word_of_nat (0x80 + y) # rest)"
    by (rule decode_lead_2 [OF u0 a])
  also have "\<dots> = (a * 64 + y) # utf8_decode_from Utf8Idle rest"
    by (rule decode_cont_last [OF unat_cont_byte [OF y] y]) (use y in simp_all)
  finally show ?thesis by (simp only: c [symmetric])
qed

lemma decode_cp_3:
  assumes "0x800 \<le> c" and "c < 0x10000" and "\<not> (0xD800 \<le> c \<and> c \<le> 0xDFFF)"
  shows "utf8_decode_from Utf8Idle (utf8_encode_cp c @ rest) = c # utf8_decode_from Utf8Idle rest"
proof -
  define a where "a = c div 64 div 64"
  define x where "x = c div 64 mod 64"
  define y where "y = c mod 64"
  have q: "c div 64 = a * 64 + x" and c: "c = (a * 64 + x) * 64 + y" and xy: "x < 64" "y < 64"
    by (simp_all add: a_def x_def y_def)
  have a: "a < 16" using assms(2) unfolding a_def by (simp add: div_less_iff_less_mult flip: div_4096)
  have lo: "(if a = 0 then 0xA0 else 0x80) \<le> 128 + x" using assms(1) c xy by auto
  have hi: "128 + x \<le> (if a = 13 then 0x9F else 0xBF)" using assms(3) c xy by auto
  have u0: "unat (word_of_nat (0xE0 + a) :: byte) = 224 + a"
    using a by (intro unat_word_of_nat_byte) simp
  have "utf8_decode_from Utf8Idle (utf8_encode_cp c @ rest)
        = utf8_decode_from Utf8Idle (word_of_nat (0xE0 + a) # word_of_nat (0x80 + x) # word_of_nat (0x80 + y) # rest)"
    unfolding a_def x_def y_def utf8_encode_cp_3 [OF assms] by simp
  also have "\<dots> = utf8_decode_from (Utf8Need 2 a (if a = 0 then 0xA0 else 0x80) (if a = 13 then 0x9F else 0xBF))
                      (word_of_nat (0x80 + x) # word_of_nat (0x80 + y) # rest)"
    by (rule decode_lead_3 [OF u0 a])
  also have "\<dots> = utf8_decode_from (Utf8Need 1 (a * 64 + x) 0x80 0xBF) (word_of_nat (0x80 + y) # rest)"
    by (rule decode_cont_next [OF unat_cont_byte [OF xy(1)] xy(1) lo hi]) simp_all
  also have "\<dots> = ((a * 64 + x) * 64 + y) # utf8_decode_from Utf8Idle rest"
    by (rule decode_cont_last [OF unat_cont_byte [OF xy(2)] xy(2)]) (use xy in simp_all)
  finally show ?thesis by (simp only: c [symmetric])
qed

lemma decode_cp_4:
  assumes "0x10000 \<le> c" and "c < 0x110000"
  shows "utf8_decode_from Utf8Idle (utf8_encode_cp c @ rest) = c # utf8_decode_from Utf8Idle rest"
proof -
  define a where "a = c div 64 div 64 div 64"
  define x where "x = c div 64 div 64 mod 64"
  define y where "y = c div 64 mod 64"
  define z where "z = c mod 64"
  have c: "c = ((a * 64 + x) * 64 + y) * 64 + z" and xyz: "x < 64" "y < 64" "z < 64"
    by (simp_all add: a_def x_def y_def z_def)
  have a: "a < 5" using assms(2) unfolding a_def by (simp add: div_less_iff_less_mult flip: div_262144)
  have lo: "(if a = 0 then 0x90 else 0x80) \<le> 128 + x" using assms(1) c xyz by auto
  have hi: "128 + x \<le> (if a = 4 then 0x8F else 0xBF)" using assms(2) c xyz by auto
  have u0: "unat (word_of_nat (0xF0 + a) :: byte) = 240 + a"
    using a by (intro unat_word_of_nat_byte) simp
  have "utf8_decode_from Utf8Idle (utf8_encode_cp c @ rest)
        = utf8_decode_from Utf8Idle (word_of_nat (0xF0 + a) # word_of_nat (0x80 + x) # word_of_nat (0x80 + y)
                                     # word_of_nat (0x80 + z) # rest)"
    unfolding a_def x_def y_def z_def utf8_encode_cp_4 [OF assms(1)] by simp
  also have "\<dots> = utf8_decode_from (Utf8Need 3 a (if a = 0 then 0x90 else 0x80) (if a = 4 then 0x8F else 0xBF))
                      (word_of_nat (0x80 + x) # word_of_nat (0x80 + y) # word_of_nat (0x80 + z) # rest)"
    by (rule decode_lead_4 [OF u0 a])
  also have "\<dots> = utf8_decode_from (Utf8Need 2 (a * 64 + x) 0x80 0xBF)
                      (word_of_nat (0x80 + y) # word_of_nat (0x80 + z) # rest)"
    by (rule decode_cont_next [OF unat_cont_byte [OF xyz(1)] xyz(1) lo hi]) simp_all
  also have "\<dots> = utf8_decode_from (Utf8Need 1 ((a * 64 + x) * 64 + y) 0x80 0xBF) (word_of_nat (0x80 + z) # rest)"
    by (rule decode_cont_next [OF unat_cont_byte [OF xyz(2)] xyz(2)]) (use xyz in simp_all)
  also have "\<dots> = (((a * 64 + x) * 64 + y) * 64 + z) # utf8_decode_from Utf8Idle rest"
    by (rule decode_cont_last [OF unat_cont_byte [OF xyz(3)] xyz(3)]) (use xyz in simp_all)
  finally show ?thesis by (simp only: c [symmetric])
qed

lemma decode_encode_cp:
  assumes "utf8_scalar c"
  shows "utf8_decode_from Utf8Idle (utf8_encode_cp c @ rest) = c # utf8_decode_from Utf8Idle rest"
  using assms decode_cp_1 decode_cp_2 decode_cp_3 decode_cp_4 unfolding utf8_scalar_def
  by (meson not_less)

section \<open>Round trip\<close>

text \<open>
  C5 (round trip of \<open>toString("utf8")\<close> and \<open>Buffer.from(_, "utf8")\<close>). Bytes
  that are well-formed UTF-8 come back unchanged from decoding and encoding.
\<close>

theorem utf8_encode_decode:
  "utf8_valid bs \<Longrightarrow> utf8_encode (utf8_decode bs) = bs"
  unfolding utf8_decode_def
proof (induction bs rule: utf8_valid.induct)
  case 1
  then show ?case by (simp add: utf8_encode_def)
next
  case (2 b bs)
  from "2.prems" obtain rs where r: "utf8_seq_ranges (unat b) = Some rs"
      and c: "in_ranges rs (take (length rs) bs)" and v: "utf8_valid (drop (length rs) bs)"
    by (auto split: option.splits)
  have split: "bs = take (length rs) bs @ drop (length rs) bs" by simp
  obtain cp where dec: "utf8_decode_from Utf8Idle (b # bs)
                          = cp # utf8_decode_from Utf8Idle (drop (length rs) bs)"
      and enc: "utf8_encode_cp cp = b # take (length rs) bs"
    using utf8_seq_roundtrip [OF r c, of "drop (length rs) bs"] by (auto simp flip: split)
  have "utf8_encode (utf8_decode_from Utf8Idle (drop (length rs) bs)) = drop (length rs) bs"
    using r v by (rule "2.IH")
  then show ?case unfolding dec by (simp add: enc utf8_encode_def)
qed

text \<open>
  C35 (the other round trip). A string of Unicode scalar values encoded by
  \<open>Buffer.from(_, "utf8")\<close> and decoded by \<open>toString("utf8")\<close> comes back
  unchanged: the decoder accepts every sequence the encoder writes.
\<close>

theorem utf8_decode_encode:
  "list_all utf8_scalar cs \<Longrightarrow> utf8_decode (utf8_encode cs) = cs"
proof (induction cs)
  case Nil
  then show ?case by (simp add: utf8_decode_def utf8_encode_def)
next
  case (Cons c cs)
  then show ?case
    using decode_encode_cp [of c "utf8_encode cs"]
    by (simp add: utf8_decode_def utf8_encode_def)
qed

section \<open>Witnesses\<close>

theorem utf8_encode_decode_witness:
  "utf8_valid [0x6B, 0x3D, 0xC3, 0xA9, 0xE2, 0x82, 0xAC]
   \<and> utf8_encode (utf8_decode [0x6B, 0x3D, 0xC3, 0xA9, 0xE2, 0x82, 0xAC])
       = [0x6B, 0x3D, 0xC3, 0xA9, 0xE2, 0x82, 0xAC]"
proof -
  have v: "utf8_valid [0x6B, 0x3D, 0xC3, 0xA9, 0xE2, 0x82, 0xAC]"
    by (simp add: utf8_seq_ranges_def in_ranges_def)
  show ?thesis using v utf8_encode_decode [OF v] by simp
qed

theorem utf8_decode_encode_witness:
  "list_all utf8_scalar [0x6B, 0xE9, 0x20AC, 0x1F600]
   \<and> utf8_decode (utf8_encode [0x6B, 0xE9, 0x20AC, 0x1F600]) = [0x6B, 0xE9, 0x20AC, 0x1F600]"
  using utf8_decode_encode [of "[0x6B, 0xE9, 0x20AC, 0x1F600]"] by (simp add: utf8_scalar_def)

end
