(* ===== verification/MessagesBanner.thy ===== *)
theory MessagesBanner
  imports NodePath Utf8
begin

text \<open>
  The \<open>transformSourceCode\<close> callback that \<open>src/scripts/build.ts\<close> (lines
  94--133) hands to \<open>transformCodebase\<close>. For a file directly in
  \<open>messages/\<close> whose name ends in \<open>.properties\<close>, it reads the locale from
  the name with \<open>/^messages_([^.]+)\.properties$/\<close>, asserts that the name
  matched (an exception otherwise), and returns the file's text, decoded as
  UTF-8, after a seven-line comment banner and an empty line, encoded back to
  UTF-8; every other file is returned as it is. The result is the bytes of
  \<open>modifiedSourceCode\<close>, or the error the assertion raises.
\<close>

section \<open>The locale pattern\<close>

text \<open>
  \<open>basename.match(/^messages_([^.]+)\.properties$/)\<close> and its group:
  the name must be \<open>messages_\<close>, then one or more characters other than
  \<open>.\<close>, then \<open>.properties\<close> at the end. As the group cannot hold a dot and
  the suffix starts with one, the group is everything between the two fixed
  parts; \<open>None\<close> is the \<open>null\<close> of a failed match.
\<close>

definition messages_locale :: "string \<Rightarrow> string option" where
  "messages_locale s =
     (let pre = ''messages_''; suf = ''.properties'' in
      if js_starts_with s pre \<and> js_ends_with s suf \<and> length pre + length suf < length s
      then
        let group = take (length s - length pre - length suf) (drop (length pre) s)
        in if CHR ''.'' \<notin> set group then Some group else None
      else None)"

section \<open>The banner\<close>

text \<open>The lines put in front of the file's text (lines 116--124).\<close>

definition banner_lines :: "string \<Rightarrow> string list" where
  "banner_lines locale =
     [''# IMPORTANT: This file contains the base translation. Modifying it directly is not recommended.'',
      ''# To override or add custom messages, create a file named messages_'' @ locale
        @ ''_override.properties in the same directory.'',
      ''# This file will be automatically loaded and merged with the base translation.'',
      ''# If you'' @ CHR 0x27 # ''re implementing theme variants, you can also create variant-specific `.properties` files.'',
      ''# For example let'' @ CHR 0x27 # ''s say you have defined `themeName: ['' @ CHR 0x22 # ''vanilla''
        @ CHR 0x22 # '', '' @ CHR 0x22 # ''chocolate'' @ CHR 0x22 # '']` then you can create the following files:'',
      ''# messages_'' @ locale @ ''_override_vanilla.properties'',
      ''# messages_'' @ locale @ ''_override_chocolate.properties'',
      []]"

section \<open>transformSourceCode\<close>

text \<open>
  The labelled block \<open>add_comment_to_messages_properties_file\<close>: each
  \<open>break\<close> falls through to \<open>return { modifiedSourceCode: sourceCode }\<close>.
  The new text is the banner lines and the decoded file joined with line
  feeds (code point 10), encoded with \<open>Buffer.from(_, "utf8")\<close>.
\<close>

definition transform_source_code :: "string \<Rightarrow> bytes \<Rightarrow> build_error + bytes" where
  "transform_source_code file_relative_path source_code =
     (if path_dirname file_relative_path \<noteq> ''messages'' then Inr source_code
      else
        let basename = path_basename file_relative_path in
        if \<not> js_ends_with basename ''.properties'' then Inr source_code
        else
          (case messages_locale basename of
             None \<Rightarrow> Inl AssertionError
           | Some locale \<Rightarrow>
               Inr (utf8_encode
                      (join_with [10] (map (map of_char) (banner_lines locale)
                                       @ [utf8_decode source_code])))))"

section \<open>Lemmas\<close>

lemma split_pre_mid_suf:
  "m + n \<le> length s \<Longrightarrow> s = take m s @ take (length s - m - n) (drop m s) @ drop (length s - n) s"
proof -
  assume a: "m + n \<le> length s"
  have "drop (length s - m - n) (drop m s) = drop (length s - n) s"
    using a by (simp add: add.commute)
  then have "drop m s = take (length s - m - n) (drop m s) @ drop (length s - n) s"
    by (metis append_take_drop_id)
  then show ?thesis by (metis append_take_drop_id)
qed

lemma match_parts:
  assumes "js_starts_with s pre" and "js_ends_with s suf" and "length pre + length suf \<le> length s"
  shows "s = pre @ take (length s - length pre - length suf) (drop (length pre) s) @ suf"
proof -
  have "s = take (length pre) s @ take (length s - length pre - length suf) (drop (length pre) s)
            @ drop (length s - length suf) s"
    using assms(3) by (rule split_pre_mid_suf)
  then show ?thesis
    using assms(1,2) by (simp add: js_starts_with_def js_ends_with_def)
qed

lemma messages_locale_SomeD:
  assumes "messages_locale s = Some l"
  shows "s = ''messages_'' @ l @ ''.properties'' \<and> l \<noteq> [] \<and> CHR ''.'' \<notin> set l"
proof -
  have st: "js_starts_with s ''messages_''" and en: "js_ends_with s ''.properties''"
    and len: "length ''messages_'' + length ''.properties'' < length s"
    and l: "l = take (length s - length ''messages_'' - length ''.properties'') (drop (length ''messages_'') s)"
    and nd: "CHR ''.'' \<notin> set l"
    using assms unfolding messages_locale_def Let_def by (auto split: if_splits)
  have eq: "s = ''messages_'' @ take (length s - length ''messages_'' - length ''.properties'')
                                    (drop (length ''messages_'') s) @ ''.properties''"
    by (rule match_parts [OF st en]) (use len in simp)
  have "s = ''messages_'' @ l @ ''.properties''"
    by (subst l) (rule eq)
  moreover have "l \<noteq> []" using len l by simp
  ultimately show ?thesis using nd by blast
qed

lemma messages_locale_of_parts:
  "l \<noteq> [] \<Longrightarrow> CHR ''.'' \<notin> set l \<Longrightarrow> messages_locale (''messages_'' @ l @ ''.properties'') = Some l"
  by (simp add: messages_locale_def js_starts_with_def js_ends_with_def Let_def)

lemma utf8_encode_banner_join:
  "utf8_encode (join_with [10] (map (map of_char) ls @ [cs]))
     = utf8_encode (concat (map (\<lambda>l. map of_char l @ [10]) ls)) @ utf8_encode cs"
  by (simp add: join_with_snoc comp_def)

lemma messages_path_parts:
  assumes "CHR ''/'' \<notin> set l"
  shows "path_dirname (''messages/messages_'' @ l @ ''.properties'') = ''messages''"
    and "path_basename (''messages/messages_'' @ l @ ''.properties'') = ''messages_'' @ l @ ''.properties''"
proof -
  have eq: "''messages/messages_'' @ l @ ''.properties'' = ''messages'' @ CHR ''/'' # (''messages_'' @ l @ ''.properties'')"
    by simp
  have ok: "CHR ''/'' \<notin> set (''messages_'' @ l @ ''.properties'')" using assms by simp
  show "path_dirname (''messages/messages_'' @ l @ ''.properties'') = ''messages''"
    unfolding eq by (rule path_dirname_file) (use ok in simp_all)
  show "path_basename (''messages/messages_'' @ l @ ''.properties'') = ''messages_'' @ l @ ''.properties''"
    unfolding eq by (rule path_basename_file) (use ok in simp_all)
qed

section \<open>Properties\<close>

text \<open>
  C6 (targeted rewrite). A messages file \<open>messages/messages_<l>.properties\<close>
  whose bytes are well-formed UTF-8 becomes the banner for locale \<open>l\<close>
  (each line followed by a line feed, encoded as UTF-8) followed by the file's
  bytes unchanged.
\<close>

theorem transform_messages_banner:
  assumes "l \<noteq> []" and "CHR ''.'' \<notin> set l" and "CHR ''/'' \<notin> set l" and "utf8_valid src"
  shows "transform_source_code (''messages/messages_'' @ l @ ''.properties'') src
           = Inr (utf8_encode (concat (map (\<lambda>line. map of_char line @ [10]) (banner_lines l))) @ src)"
proof -
  note parts = messages_path_parts [OF assms(3)]
  have "js_ends_with (''messages_'' @ l @ ''.properties'') ''.properties''"
    by (simp add: js_ends_with_def)
  moreover have "messages_locale (''messages_'' @ l @ ''.properties'') = Some l"
    using assms(1,2) by (rule messages_locale_of_parts)
  ultimately show ?thesis
    using utf8_encode_decode [OF assms(4)]
    unfolding transform_source_code_def Let_def parts
    by (simp add: utf8_encode_banner_join)
qed

text \<open>
  C7 (other files untouched). A file outside \<open>messages/\<close>, or one there whose
  name does not end in \<open>.properties\<close>, is returned byte for byte.
\<close>

theorem transform_other_unchanged:
  assumes "path_dirname p \<noteq> ''messages'' \<or> \<not> js_ends_with (path_basename p) ''.properties''"
  shows "transform_source_code p src = Inr src"
  using assms by (auto simp: transform_source_code_def Let_def)

text \<open>
  C8 (the assertion). A \<open>.properties\<close> file directly in \<open>messages/\<close> whose
  name does not have the form \<open>messages_<locale>.properties\<close> (with a
  non-empty, dot-free locale) makes the callback throw.
\<close>

theorem transform_unmatched_assertion:
  assumes "path_dirname p = ''messages''" and "js_ends_with (path_basename p) ''.properties''"
    and "messages_locale (path_basename p) = None"
  shows "transform_source_code p src = Inl AssertionError"
  using assms by (simp add: transform_source_code_def Let_def)

text \<open>
  C9 (the pattern). The locale matcher accepts exactly the names
  \<open>messages_\<close> + a non-empty locale without a dot + \<open>.properties\<close>, and its
  group is that locale: the language of \<open>/^messages_([^.]+)\.properties$/\<close>.
\<close>

theorem messages_locale_iff:
  "messages_locale s = Some l \<longleftrightarrow> s = ''messages_'' @ l @ ''.properties'' \<and> l \<noteq> [] \<and> CHR ''.'' \<notin> set l"
  using messages_locale_SomeD messages_locale_of_parts by blast


section \<open>Witnesses\<close>

theorem transform_messages_banner_witness:
  "transform_source_code ''messages/messages_en.properties'' [0x6B, 0x3D, 0x76]
     = Inr (utf8_encode (concat (map (\<lambda>line. map of_char line @ [10]) (banner_lines ''en'')))
            @ [0x6B, 0x3D, 0x76])"
proof -
  have v: "utf8_valid [0x6B, 0x3D, 0x76]" by (simp add: utf8_seq_ranges_def)
  show ?thesis
    using transform_messages_banner [of "''en''", OF _ _ _ v] by simp
qed

theorem transform_other_unchanged_witness:
  "path_dirname ''html/executions.ftl'' \<noteq> ''messages''
   \<and> transform_source_code ''html/executions.ftl'' [0x3C, 0x21] = Inr [0x3C, 0x21]"
proof -
  have d: "path_dirname ''html/executions.ftl'' \<noteq> ''messages''"
    by (simp add: path_dirname_def)
  show ?thesis using d transform_other_unchanged [of "''html/executions.ftl''"] by simp
qed

theorem transform_unmatched_assertion_witness:
  "transform_source_code ''messages/messages.properties'' [0x41] = Inl AssertionError"
proof -
  have d: "path_dirname ''messages/messages.properties'' = ''messages''"
    by (simp add: path_dirname_def)
  have b: "path_basename ''messages/messages.properties'' = ''messages.properties''"
    by (simp add: path_basename_def)
  have e: "js_ends_with ''messages.properties'' ''.properties''"
    by (simp add: js_ends_with_def)
  have m: "messages_locale ''messages.properties'' = None"
    by (simp add: messages_locale_def js_starts_with_def)
  show ?thesis
    using transform_unmatched_assertion [of "''messages/messages.properties''" "[0x41]"] d b e m
    by simp
qed

theorem messages_locale_iff_witness:
  "messages_locale ''messages_pt_BR.properties'' = Some ''pt_BR''"
  using messages_locale_iff [of "''messages_pt_BR.properties''" "''pt_BR''"] by simp

end
