(* ===== verification/KeycloakVersion.thy ===== *)
theory KeycloakVersion
  imports JsRuntime
begin

text \<open>
  How \<open>src/scripts/build.ts\<close> (lines 62--66) turns the package version into
  a Keycloak version, and the jar URL it downloads (line 69). The package
  version's major number packs the Keycloak version in six digits
  (\<open>260005.0.1\<close> is Keycloak 26.0.5): the script takes the text before the
  first dot and reads three two-character pieces of it with \<open>parseInt\<close>.
\<close>

section \<open>Definitions\<close>

text \<open>\<open>parseInt(major[i] + major[j])\<close>, one component of the version.\<close>

definition version_part :: "string \<Rightarrow> nat \<Rightarrow> nat \<Rightarrow> js_number" where
  "version_part major i j = js_parse_int (js_add_str (js_char_at major i) (js_char_at major j))"

text \<open>
  The IIFE computing \<open>keycloakVersion\<close>: \<open>version.split(".")[0]\<close> (the split
  is never empty, so the index is defined) and the template literal joining the
  three components with dots.
\<close>

definition keycloak_version :: "string \<Rightarrow> string" where
  "keycloak_version version =
     (let major = hd (js_split CHR ''.'' version)
      in js_number_to_string (version_part major 0 1) @ ''.''
         @ js_number_to_string (version_part major 2 3) @ ''.''
         @ js_number_to_string (version_part major 4 5))"

definition keycloak_themes_url :: "string \<Rightarrow> string" where
  "keycloak_themes_url version =
     ''https://repo1.maven.org/maven2/org/keycloak/keycloak-themes/'' @ version
     @ ''/keycloak-themes-'' @ version @ ''.jar''"

text \<open>
  The packing the script undoes: a number below 100 as two decimal digits.
  (Not code of the repository: it states how package versions are formed.)
\<close>

definition pad2 :: "nat \<Rightarrow> string" where
  "pad2 n = [char_of (48 + n div 10), char_of (48 + n mod 10)]"

section \<open>Lemmas\<close>

lemma hd_split_pad:
  assumes "a < 100" "b < 100" "c < 100"
  shows "hd (js_split CHR ''.'' (pad2 a @ pad2 b @ pad2 c @ CHR ''.'' # rest)) = pad2 a @ pad2 b @ pad2 c"
proof -
  have "CHR ''.'' \<notin> set (pad2 a @ pad2 b @ pad2 c)"
    using assms by (auto simp: pad2_def intro!: char_neq_of_char)
  then show ?thesis
    using js_split_sep [of "CHR ''.''" "pad2 a @ pad2 b @ pad2 c" rest] by simp
qed

section \<open>Properties\<close>

text \<open>
  C11 (round trip). A package version whose major number packs three numbers
  below 100 as two digits each gives back those numbers, printed without
  leading zeros and joined with dots, whatever follows the first dot.
\<close>

theorem keycloak_version_roundtrip:
  assumes "a < 100" "b < 100" "c < 100"
  shows "keycloak_version (pad2 a @ pad2 b @ pad2 c @ CHR ''.'' # rest)
           = nat_digits a @ ''.'' @ nat_digits b @ ''.'' @ nat_digits c"
proof -
  let ?m = "pad2 a @ pad2 b @ pad2 c"
  have p0: "version_part ?m 0 1 = Finite (int a)"
    using assms(1) parse_two_digits [of "a div 10" "a mod 10"]
    by (simp add: version_part_def js_char_at_def pad2_def)
  have p1: "version_part ?m 2 3 = Finite (int b)"
    using assms(2) parse_two_digits [of "b div 10" "b mod 10"]
    by (simp add: version_part_def js_char_at_def pad2_def)
  have p2: "version_part ?m 4 5 = Finite (int c)"
    using assms(3) parse_two_digits [of "c div 10" "c mod 10"]
    by (simp add: version_part_def js_char_at_def pad2_def)
  show ?thesis
    using p0 p1 p2 by (simp add: keycloak_version_def hd_split_pad assms)
qed

text \<open>
  C12 (bounds). Whatever the package version, each component the script
  reads is \<open>NaN\<close> or an integer between -9 and 99: two characters give at
  most two digits, and a sign leaves room for one.
\<close>

theorem version_part_bounds:
  "version_part m i j = NaN \<or> (\<exists>k. version_part m i j = Finite k \<and> -9 \<le> k \<and> k \<le> 99)"
proof (cases "js_parse_int (js_add_str (js_char_at m i) (js_char_at m j))")
  case (Finite k)
  have "-9 \<le> k \<and> k \<le> 99"
  proof (cases "i < length m")
    case True
    show ?thesis
    proof (cases "j < length m")
      case True
      with \<open>i < length m\<close> Finite show ?thesis
        by (auto simp: js_char_at_def dest: parse_int_two)
    next
      case False
      with \<open>i < length m\<close> Finite show ?thesis
        by (auto simp: js_char_at_def parse_int_undefined_suffix dest: parse_int_one)
    qed
  next
    case False
    with Finite show ?thesis
      by (cases "j < length m") (auto simp: js_char_at_def parse_int_letter_u parse_int_letter_N)
  qed
  with Finite show ?thesis by (simp add: version_part_def)
qed (simp add: version_part_def)


section \<open>Witnesses\<close>

theorem keycloak_version_roundtrip_witness:
  "keycloak_version ''260005.0.1'' = ''26.0.5''"
proof -
  have e: "pad2 26 @ pad2 0 @ pad2 5 @ CHR ''.'' # ''0.1'' = ''260005.0.1''"
    by code_simp
  have n: "nat_digits 26 @ ''.'' @ nat_digits 0 @ ''.'' @ nat_digits 5 = ''26.0.5''"
    by code_simp
  show ?thesis
    using keycloak_version_roundtrip [of 26 0 5 "''0.1''"] e n by simp
qed

theorem version_part_bounds_witness:
  "\<exists>k. version_part ''260005'' 0 1 = Finite k \<and> -9 \<le> k \<and> k \<le> 99"
proof -
  have "version_part ''260005'' 0 1 = Finite 26"
    by (simp add: version_part_def js_char_at_def js_parse_int_def js_is_space_def
                  js_digit_value_def js_digits_value_def)
  then show ?thesis
    using version_part_bounds [of "''260005''" 0 1] by simp
qed

end
