(* ===== verification/PackageJson.thy ===== *)
theory PackageJson
  imports Prelude
begin

text \<open>
  The package descriptor as \<open>src/scripts/build.ts\<close> handles it. Lines 18--60
  parse \<open>package.json\<close> with \<open>JSON.parse\<close>, check it with a zod object schema
  (\<open>zParsedPackageJson.parse\<close>, which throws a \<open>ZodError\<close> listing every failed
  field), and then use the parsed object itself as a \<open>ParsedPackageJson\<close>.
  Lines 136--157 build the object written to \<open>dist/package.json\<close>. A JSON
  value is the \<open>json\<close> datatype (an object keeps its members in order, as
  \<open>JSON.parse\<close> yields them; a repeated key reads as its last value). Numbers
  are kept as integers: no field the script reads may be a number.
\<close>

section \<open>JSON values\<close>

datatype json =
    JNull
  | JBool bool
  | JNumber int
  | JString string
  | JArray "json list"
  | JObject "(string \<times> json) list"

text \<open>\<open>obj[key]\<close> on a parsed object: the last member with that key, \<open>None\<close> for \<open>undefined\<close>.\<close>

definition json_get :: "(string \<times> json) list \<Rightarrow> string \<Rightarrow> json option" where
  "json_get kvs k = map_of (rev kvs) k"

section \<open>The zod schema\<close>

text \<open>\<open>z.string()\<close>, \<open>z.record(z.unknown())\<close> and \<open>z.array(z.string())\<close> on a member value.\<close>

fun zod_string :: "json option \<Rightarrow> bool" where
  "zod_string (Some (JString s)) = True"
| "zod_string _ = False"

fun zod_record_unknown :: "json option \<Rightarrow> bool" where
  "zod_record_unknown (Some (JObject kvs)) = True"
| "zod_record_unknown _ = False"

fun zod_string_array :: "json option \<Rightarrow> bool" where
  "zod_string_array (Some (JArray xs)) = list_all (\<lambda>x. zod_string (Some x)) xs"
| "zod_string_array _ = False"

text \<open>\<open>zTargetType\<close>: the keys of the object schema with their checks, in order.\<close>

definition package_json_shape :: "(string \<times> (json option \<Rightarrow> bool)) list" where
  "package_json_shape =
     [(''name'', zod_string), (''version'', zod_string), (''repository'', zod_record_unknown),
      (''license'', zod_string), (''author'', zod_string), (''homepage'', zod_string),
      (''keywords'', zod_string_array)]"

section \<open>ParsedPackageJson\<close>

record parsed_package_json =
  pkg_name :: string
  pkg_version :: string
  pkg_repository :: "(string \<times> json) list"
  pkg_license :: string
  pkg_author :: string
  pkg_homepage :: string
  pkg_keywords :: "string list"

fun json_str :: "json option \<Rightarrow> string" where
  "json_str (Some (JString s)) = s"
| "json_str _ = []"

fun json_obj :: "json option \<Rightarrow> (string \<times> json) list" where
  "json_obj (Some (JObject kvs)) = kvs"
| "json_obj _ = []"

fun json_str_list :: "json option \<Rightarrow> string list" where
  "json_str_list (Some (JArray xs)) = map (\<lambda>x. json_str (Some x)) xs"
| "json_str_list _ = []"

text \<open>The object read through the \<open>ParsedPackageJson\<close> type, member by member.\<close>

definition package_of_members :: "(string \<times> json) list \<Rightarrow> parsed_package_json" where
  "package_of_members kvs =
     \<lparr>pkg_name = json_str (json_get kvs ''name''), pkg_version = json_str (json_get kvs ''version''),
      pkg_repository = json_obj (json_get kvs ''repository''),
      pkg_license = json_str (json_get kvs ''license''), pkg_author = json_str (json_get kvs ''author''),
      pkg_homepage = json_str (json_get kvs ''homepage''),
      pkg_keywords = json_str_list (json_get kvs ''keywords'')\<rparr>"

text \<open>
  The IIFE of lines 18--60 after \<open>JSON.parse\<close>: \<open>zParsedPackageJson.parse\<close>
  rejects a value that is not an object (an issue at the root, the empty key)
  and an object with any failing member (one issue per member, in schema
  order); otherwise the parsed object is returned, read as
  \<open>ParsedPackageJson\<close>.
\<close>

definition parse_package_json :: "json \<Rightarrow> build_error + parsed_package_json" where
  "parse_package_json j =
     (case j of
        JObject kvs \<Rightarrow>
          (let failed = map fst (filter (\<lambda>(k, check). \<not> check (json_get kvs k)) package_json_shape)
           in if failed = [] then Inr (package_of_members kvs) else Inl (ZodError failed))
      | _ \<Rightarrow> Inl (ZodError [[]]))"

section \<open>dist/package.json\<close>

text \<open>The object passed to \<open>JSON.stringify\<close> at lines 139--151.\<close>

definition dist_package_json :: "parsed_package_json \<Rightarrow> json" where
  "dist_package_json p =
     JObject [(''name'', JString (pkg_name p)), (''version'', JString (pkg_version p)),
              (''repository'', JObject (pkg_repository p)), (''license'', JString (pkg_license p)),
              (''author'', JString (pkg_author p)), (''homepage'', JString (pkg_homepage p)),
              (''keywords'', JArray (map JString (pkg_keywords p))),
              (''publishConfig'', JObject [(''access'', JString ''public'')])]"

section \<open>Lemmas\<close>

lemma zod_string_iff: "zod_string v \<longleftrightarrow> v = Some (JString (json_str v))"
  by (cases v rule: zod_string.cases) auto

lemma zod_record_unknown_iff: "zod_record_unknown v \<longleftrightarrow> v = Some (JObject (json_obj v))"
  by (cases v rule: zod_record_unknown.cases) auto

lemma zod_string_array_iff:
  "zod_string_array v \<longleftrightarrow> v = Some (JArray (map JString (json_str_list v)))"
proof (cases v rule: zod_string_array.cases)
  case (1 xs)
  have "list_all (\<lambda>x. zod_string (Some x)) xs \<longleftrightarrow> xs = map (JString \<circ> (\<lambda>x. json_str (Some x))) xs"
    by (induction xs) (auto simp: zod_string_iff)
  then show ?thesis using 1 by (simp add: comp_def)
qed auto

lemma parse_package_json_Inr:
  "parse_package_json (JObject kvs) = Inr p \<longleftrightarrow>
     (\<forall>(k, check) \<in> set package_json_shape. check (json_get kvs k)) \<and> p = package_of_members kvs"
  by (auto simp: parse_package_json_def Let_def filter_empty_conv split: if_splits)

lemma package_json_shape_checks:
  "(\<forall>(k, check) \<in> set package_json_shape. check (json_get kvs k)) \<longleftrightarrow>
     zod_string (json_get kvs ''name'') \<and> zod_string (json_get kvs ''version'')
     \<and> zod_record_unknown (json_get kvs ''repository'') \<and> zod_string (json_get kvs ''license'')
     \<and> zod_string (json_get kvs ''author'') \<and> zod_string (json_get kvs ''homepage'')
     \<and> zod_string_array (json_get kvs ''keywords'')"
  by (simp add: package_json_shape_def)

section \<open>Properties\<close>

text \<open>
  C14 (round trip). The descriptor written to \<open>dist/package.json\<close> passes the
  same schema and reads back as the same \<open>ParsedPackageJson\<close>: the trimmed
  package is itself a valid input of the build.
\<close>

theorem parse_dist_package_json: "parse_package_json (dist_package_json p) = Inr p"
proof -
  have "map (\<lambda>x. json_str (Some x)) (map JString (pkg_keywords p)) = pkg_keywords p"
    by (simp add: comp_def)
  then show ?thesis
    unfolding dist_package_json_def parse_package_json_Inr package_json_shape_checks
    by (simp add: json_get_def package_of_members_def list_all_iff)
qed

text \<open>
  C15 (the type assertion holds). Once zod accepts the parsed object, each
  member the script reads has the type \<open>ParsedPackageJson\<close> gives it, and
  holds the value the record reads: using the unvalidated object after
  \<open>zParsedPackageJson.parse\<close> is sound.
\<close>

theorem parse_package_json_members:
  assumes "parse_package_json (JObject kvs) = Inr p"
  shows "json_get kvs ''name'' = Some (JString (pkg_name p))
         \<and> json_get kvs ''version'' = Some (JString (pkg_version p))
         \<and> json_get kvs ''repository'' = Some (JObject (pkg_repository p))
         \<and> json_get kvs ''license'' = Some (JString (pkg_license p))
         \<and> json_get kvs ''author'' = Some (JString (pkg_author p))
         \<and> json_get kvs ''homepage'' = Some (JString (pkg_homepage p))
         \<and> json_get kvs ''keywords'' = Some (JArray (map JString (pkg_keywords p)))"
proof -
  from assms have ok: "zod_string (json_get kvs ''name'') \<and> zod_string (json_get kvs ''version'')
     \<and> zod_record_unknown (json_get kvs ''repository'') \<and> zod_string (json_get kvs ''license'')
     \<and> zod_string (json_get kvs ''author'') \<and> zod_string (json_get kvs ''homepage'')
     \<and> zod_string_array (json_get kvs ''keywords'')"
    and p: "p = package_of_members kvs"
    by (simp_all add: parse_package_json_Inr package_json_shape_checks)
  from ok show ?thesis
    unfolding p package_of_members_def
    by (simp flip: zod_string_iff zod_record_unknown_iff zod_string_array_iff)
qed

text \<open>
  C16 (validation errors). A member of the schema whose value fails its check
  (missing, or of another type) makes the check throw a \<open>ZodError\<close> that
  names that member.
\<close>

theorem parse_package_json_rejects:
  assumes "(k, check) \<in> set package_json_shape" and "\<not> check (json_get kvs k)"
  shows "\<exists>ks. parse_package_json (JObject kvs) = Inl (ZodError ks) \<and> k \<in> set ks"
proof -
  let ?failed = "map fst (filter (\<lambda>(k, check). \<not> check (json_get kvs k)) package_json_shape)"
  have "k \<in> set ?failed"
    using assms by (force simp: image_iff)
  moreover from this have "?failed \<noteq> []" by (metis empty_iff list.set(1))
  ultimately show ?thesis
    by (simp add: parse_package_json_def Let_def del: filter_empty_conv)
qed

lemma parse_package_json_not_object:
  "(\<forall>kvs. j \<noteq> JObject kvs) \<Longrightarrow> parse_package_json j = Inl (ZodError [[]])"
  by (cases j) (auto simp: parse_package_json_def)

section \<open>Witnesses\<close>

definition example_package_members :: "(string \<times> json) list" where
  "example_package_members =
     [(''name'', JString ''keycloakify-emails''), (''version'', JString ''260005.0.1''),
      (''repository'', JObject [(''type'', JString ''git'')]), (''license'', JString ''MIT''),
      (''author'', JString ''u''), (''homepage'', JString ''https://example.org''),
      (''keywords'', JArray [JString ''keycloak'']), (''scripts'', JObject [])]"

theorem parse_package_json_members_witness:
  "parse_package_json (JObject example_package_members) = Inr (package_of_members example_package_members)
   \<and> json_get example_package_members ''version''
       = Some (JString (pkg_version (package_of_members example_package_members)))"
proof -
  have h: "parse_package_json (JObject example_package_members) = Inr (package_of_members example_package_members)"
    by (simp add: parse_package_json_def example_package_members_def package_json_shape_def json_get_def)
  show ?thesis using h parse_package_json_members [OF h] by simp
qed

theorem parse_package_json_rejects_witness:
  "\<exists>ks. parse_package_json (JObject [(''name'', JString ''x''), (''version'', JNumber 26)])
         = Inl (ZodError ks) \<and> ''version'' \<in> set ks"
proof -
  have m: "(''version'', zod_string) \<in> set package_json_shape"
    by (simp add: package_json_shape_def)
  have f: "\<not> zod_string (json_get [(''name'', JString ''x''), (''version'', JNumber 26)] ''version'')"
    by (simp add: json_get_def)
  show ?thesis using parse_package_json_rejects [OF m f] .
qed

end
