(* ===== verification/FileSystem.thy ===== *)
theory FileSystem
  imports Prelude "HOL-Library.AList"
begin

text \<open>
  The part of \<open>node:fs\<close> the build and its pipeline helpers use: a disk is an
  association list from paths (lists of names) to nodes, a directory or a file
  with its bytes; \<open>map_of\<close> reads it. The writes are
  \<open>fs.mkdirSync(dir, {recursive: true})\<close> (\<open>fs_mkdir_p\<close>), the pair
  \<open>mkdirSync(dirname(p), {recursive: true}); writeFileSync(p, bytes)\<close>
  (\<open>fs_write_file\<close>), and \<open>fs.rmSync(p, {recursive: true, force: true})\<close>
  (\<open>fs_remove_tree\<close>). A write through an existing file fails with
  \<open>ENOTDIR\<close>, a write onto a directory with \<open>EISDIR\<close>. The operations are
  related to their effect on the map \<open>map_of d\<close> (\<open>put_file\<close>), and a disk is
  well formed when the ancestors of every node are directories.
\<close>

type_synonym path = "string list"

datatype fnode = Dir | File bytes

type_synonym disk = "(path \<times> fnode) list"

section \<open>Operations\<close>

fun fs_mkdirs :: "path list \<Rightarrow> disk \<Rightarrow> build_error + disk" where
  "fs_mkdirs [] d = Inr d"
| "fs_mkdirs (q # qs) d =
     (case map_of d q of
        None \<Rightarrow> fs_mkdirs qs (AList.update q Dir d)
      | Some Dir \<Rightarrow> fs_mkdirs qs d
      | Some (File _) \<Rightarrow> Inl (IOError ''ENOTDIR''))"

definition fs_mkdir_p :: "path \<Rightarrow> disk \<Rightarrow> build_error + disk" where
  "fs_mkdir_p p d = fs_mkdirs (prefixes p) d"

definition fs_write_file :: "path \<Rightarrow> bytes \<Rightarrow> disk \<Rightarrow> build_error + disk" where
  "fs_write_file p b d =
     (if p = [] then Inl (IOError ''EISDIR'')
      else case fs_mkdir_p (butlast p) d of
        Inl e \<Rightarrow> Inl e
      | Inr d' \<Rightarrow>
          (case map_of d' p of
             Some Dir \<Rightarrow> Inl (IOError ''EISDIR'')
           | _ \<Rightarrow> Inr (AList.update p (File b) d')))"

text \<open>
  \<open>fs.writeFileSync(p, bytes)\<close> alone: the parent directory must exist.
  \<open>fs.cpSync(from, to)\<close> on a regular file: read it, create the parent
  directories of the target, write it.
\<close>

definition fs_write_file_sync :: "path \<Rightarrow> bytes \<Rightarrow> disk \<Rightarrow> build_error + disk" where
  "fs_write_file_sync p b d =
     (if p = [] then Inl (IOError ''EISDIR'')
      else case map_of d (butlast p) of
        None \<Rightarrow> Inl (IOError ''ENOENT'')
      | Some (File _) \<Rightarrow> Inl (IOError ''ENOTDIR'')
      | Some Dir \<Rightarrow>
          (case map_of d p of
             Some Dir \<Rightarrow> Inl (IOError ''EISDIR'')
           | _ \<Rightarrow> Inr (AList.update p (File b) d)))"

definition fs_remove_tree :: "path \<Rightarrow> disk \<Rightarrow> disk" where
  "fs_remove_tree p d = filter (\<lambda>(q, _). \<not> prefix p q) d"

definition fs_read_file :: "disk \<Rightarrow> path \<Rightarrow> build_error + bytes" where
  "fs_read_file d p =
     (case map_of d p of
        Some (File b) \<Rightarrow> Inr b
      | Some Dir \<Rightarrow> Inl (IOError ''EISDIR'')
      | None \<Rightarrow> Inl (IOError ''ENOENT''))"

fun is_file :: "fnode option \<Rightarrow> bool" where
  "is_file (Some (File _)) = True"
| "is_file _ = False"

definition fs_copy_file :: "path \<Rightarrow> path \<Rightarrow> disk \<Rightarrow> build_error + disk" where
  "fs_copy_file from to d =
     (case fs_read_file d from of
        Inl e \<Rightarrow> Inl e
      | Inr b \<Rightarrow> fs_write_file to b d)"

text \<open>The regular files strictly below \<open>dir\<close>, relative to it, in the disk's order.\<close>

definition fs_files_under :: "disk \<Rightarrow> path \<Rightarrow> path list" where
  "fs_files_under d dir =
     map (drop (length dir))
       (filter (\<lambda>p. strict_prefix dir p \<and> is_file (map_of d p)) (remdups (map fst d)))"

section \<open>The effect on the map\<close>

definition put_file :: "path \<Rightarrow> bytes \<Rightarrow> (path \<rightharpoonup> fnode) \<Rightarrow> (path \<rightharpoonup> fnode)" where
  "put_file p b m = (\<lambda>q. if q = p then Some (File b) else if strict_prefix q p then Some Dir else m q)"

definition dir_ok :: "(path \<rightharpoonup> fnode) \<Rightarrow> path \<Rightarrow> bool" where
  "dir_ok m q \<longleftrightarrow> m q = None \<or> m q = Some Dir"

definition can_write :: "path \<Rightarrow> (path \<rightharpoonup> fnode) \<Rightarrow> bool" where
  "can_write p m \<longleftrightarrow> p \<noteq> [] \<and> (\<forall>q \<in> set (prefixes (butlast p)). dir_ok m q) \<and> m p \<noteq> Some Dir"

definition wf_map :: "(path \<rightharpoonup> fnode) \<Rightarrow> bool" where
  "wf_map m \<longleftrightarrow> (\<forall>p q. m p \<noteq> None \<longrightarrow> strict_prefix q p \<longrightarrow> m q = Some Dir)"

text \<open>The well-formedness of a disk, executable: the ancestors of every entry are directories.\<close>

definition fs_wf :: "disk \<Rightarrow> bool" where
  "fs_wf d \<longleftrightarrow> (\<forall>p \<in> set (map fst d). \<forall>q \<in> set (prefixes (butlast p)). p \<noteq> [] \<longrightarrow> map_of d q = Some Dir)"

section \<open>Lemmas\<close>

lemma strict_prefix_butlast: "p \<noteq> [] \<Longrightarrow> prefix q (butlast p) \<longleftrightarrow> strict_prefix q p"
proof -
  assume "p \<noteq> []"
  then obtain ys y where "p = ys @ [y]" by (cases p rule: rev_cases) auto
  then show ?thesis
    by (auto simp: strict_prefix_def prefix_def append_eq_append_conv2 Cons_eq_append_conv)
qed

lemma strict_prefix_prefixes_butlast:
  "strict_prefix q p \<longleftrightarrow> p \<noteq> [] \<and> q \<in> set (prefixes (butlast p))"
  by (cases "p = []") (simp_all add: strict_prefix_butlast)

lemma strict_prefix_append_same [simp]:
  "strict_prefix (xs @ ys) (xs @ zs) \<longleftrightarrow> strict_prefix ys zs"
  by (simp add: strict_prefix_def)

lemma off_line_append:
  "\<not> prefix p q \<Longrightarrow> \<not> prefix q p \<Longrightarrow> \<not> prefix q (p @ xs) \<and> \<not> prefix (p @ xs) q"
  by (metis prefix_append prefix_same_cases append_prefixD)

lemma map_of_filter_keys:
  "map_of (filter (\<lambda>(k, _). P k) xs) = (\<lambda>k. if P k then map_of xs k else None)"
  by (induction xs) (auto simp: fun_eq_iff)

lemma fs_mkdirs_Inr:
  "fs_mkdirs qs d = Inr d' \<Longrightarrow> map_of d' = (\<lambda>q. if q \<in> set qs then Some Dir else map_of d q)"
  by (induction qs d rule: fs_mkdirs.induct)
     (auto simp: update_conv' fun_eq_iff split: option.splits fnode.splits)

lemma fs_mkdirs_ok:
  "(\<exists>d'. fs_mkdirs qs d = Inr d') \<longleftrightarrow> (\<forall>q \<in> set qs. dir_ok (map_of d) q)"
  by (induction qs d rule: fs_mkdirs.induct)
     (auto simp: update_conv' dir_ok_def split: option.splits fnode.splits)

lemma fs_write_file_Inr:
  "fs_write_file p b d = Inr d' \<Longrightarrow> map_of d' = put_file p b (map_of d)"
  by (auto simp: fs_write_file_def fs_mkdir_p_def put_file_def update_conv' fun_eq_iff
                 strict_prefix_butlast
           dest!: fs_mkdirs_Inr split: sum.splits option.splits fnode.splits if_splits)

lemma fs_write_file_ok:
  "(\<exists>d'. fs_write_file p b d = Inr d') \<longleftrightarrow> can_write p (map_of d)"
proof (cases "p = []")
  case False
  show ?thesis
  proof (cases "\<forall>q \<in> set (prefixes (butlast p)). dir_ok (map_of d) q")
    case True
    then obtain d' where d': "fs_mkdir_p (butlast p) d = Inr d'"
      using fs_mkdirs_ok [of "prefixes (butlast p)" d] unfolding fs_mkdir_p_def by blast
    then have "map_of d' p = map_of d p"
      using False strict_prefix_butlast [of p p] by (auto simp: fs_mkdir_p_def dest!: fs_mkdirs_Inr)
    then show ?thesis
      using False True d' by (auto simp: fs_write_file_def can_write_def split: option.splits fnode.splits)
  next
    case nok: False
    then have "\<forall>d'. fs_mkdir_p (butlast p) d \<noteq> Inr d'"
      using fs_mkdirs_ok by (auto simp: fs_mkdir_p_def)
    then show ?thesis
      using False nok by (auto simp: fs_write_file_def can_write_def split: sum.splits)
  qed
qed (simp add: fs_write_file_def can_write_def)

lemma fs_wf_iff: "fs_wf d \<longleftrightarrow> wf_map (map_of d)"
proof -
  have "\<And>p. p \<in> set (map fst d) \<longleftrightarrow> map_of d p \<noteq> None"
    by (simp add: map_of_eq_None_iff)
  moreover have "\<And>p q. (q \<in> set (prefixes (butlast p)) \<and> p \<noteq> []) \<longleftrightarrow> strict_prefix q p"
    using strict_prefix_prefixes_butlast by blast
  ultimately show ?thesis
    unfolding fs_wf_def wf_map_def by (metis (no_types, lifting))
qed

lemma put_file_wf:
  assumes "wf_map m" and "can_write p m"
  shows "wf_map (put_file p b m)"
proof -
  have anc: "\<And>q. strict_prefix q p \<Longrightarrow> m q = None \<or> m q = Some Dir"
    using assms(2) by (auto simp: can_write_def dir_ok_def strict_prefix_prefixes_butlast)
  have "m p \<noteq> Some Dir" using assms(2) by (simp add: can_write_def)
  then have "\<And>r. m r \<noteq> None \<Longrightarrow> \<not> strict_prefix p r"
    using assms(1) by (auto simp: wf_map_def)
  then show ?thesis
    using assms(1) unfolding wf_map_def put_file_def
    by (auto dest: prefix_order.less_trans)
qed

lemma fs_write_file_wf: "fs_wf d \<Longrightarrow> fs_write_file p b d = Inr d' \<Longrightarrow> fs_wf d'"
  using fs_write_file_ok [of p b d] put_file_wf [of "map_of d" p b]
  by (auto simp: fs_wf_iff dest!: fs_write_file_Inr)

lemma fs_remove_tree_map: "map_of (fs_remove_tree p d) = (\<lambda>q. if prefix p q then None else map_of d q)"
  unfolding fs_remove_tree_def by (simp add: map_of_filter_keys fun_eq_iff)

lemma fs_remove_tree_wf: "fs_wf d \<Longrightarrow> fs_wf (fs_remove_tree p d)"
  unfolding fs_wf_iff wf_map_def fs_remove_tree_map
  by (auto dest: prefix_order.trans prefix_order.less_imp_le split: if_splits)

lemma fs_mkdir_p_Inr:
  "fs_mkdir_p p d = Inr d' \<Longrightarrow> map_of d' = (\<lambda>q. if prefix q p then Some Dir else map_of d q)"
  unfolding fs_mkdir_p_def by (auto dest!: fs_mkdirs_Inr)

lemma fs_mkdir_p_wf:
  assumes wf: "fs_wf d" and r: "fs_mkdir_p p d = Inr d'"
  shows "fs_wf d'"
  unfolding fs_wf_iff wf_map_def
proof (intro allI impI)
  have m': "map_of d' = (\<lambda>q. if prefix q p then Some Dir else map_of d q)"
    using r by (rule fs_mkdir_p_Inr)
  fix r q assume r': "map_of d' r \<noteq> None" and q: "strict_prefix q r"
  show "map_of d' q = Some Dir"
  proof (cases "prefix r p")
    case True
    then have "prefix q p" using q by (meson prefix_order.less_imp_le prefix_order.trans)
    then show ?thesis by (simp add: m')
  next
    case False
    then have "map_of d r \<noteq> None" using r' by (simp add: m')
    then have "map_of d q = Some Dir" using wf q by (auto simp: fs_wf_iff wf_map_def)
    then show ?thesis by (simp add: m')
  qed
qed

section \<open>Changes confined below a directory\<close>

text \<open>\<open>m'\<close> differs from \<open>m\<close> only strictly below \<open>dir\<close>.\<close>

definition confined :: "path \<Rightarrow> (path \<rightharpoonup> fnode) \<Rightarrow> (path \<rightharpoonup> fnode) \<Rightarrow> bool" where
  "confined dir m m' \<longleftrightarrow> (\<forall>q. m' q \<noteq> m q \<longrightarrow> strict_prefix dir q)"

lemma confined_refl [simp]: "confined dir m m"
  by (simp add: confined_def)

lemma confined_trans: "confined dir m1 m2 \<Longrightarrow> confined dir m2 m3 \<Longrightarrow> confined dir m1 m3"
  unfolding confined_def by metis

lemma prefix_of_dir_is_dir:
  "wf_map m \<Longrightarrow> m dir = Some Dir \<Longrightarrow> prefix q dir \<Longrightarrow> m q = Some Dir"
  unfolding wf_map_def by (metis option.distinct(1) prefix_order.dual_order.not_eq_order_implies_strict)

lemma below_dir_cases:
  assumes "prefix q (dir @ s)" and "\<not> prefix q dir"
  shows "strict_prefix dir q"
  using assms prefix_same_cases [of q "dir @ s" dir]
  by (auto simp: prefix_order.less_le)

lemma fs_mkdir_p_confined:
  assumes "fs_wf d" and "map_of d dir = Some Dir" and "fs_mkdir_p (dir @ s) d = Inr d'"
  shows "confined dir (map_of d) (map_of d')"
  unfolding confined_def
proof (intro allI impI)
  have m': "map_of d' = (\<lambda>q. if prefix q (dir @ s) then Some Dir else map_of d q)"
    using assms(3) by (rule fs_mkdir_p_Inr)
  fix q assume "map_of d' q \<noteq> map_of d q"
  then have "prefix q (dir @ s)" and nd: "map_of d q \<noteq> Some Dir"
    by (auto simp: m' split: if_splits)
  moreover have "\<not> prefix q dir"
    using nd prefix_of_dir_is_dir assms(1,2) fs_wf_iff by blast
  ultimately show "strict_prefix dir q" by (meson below_dir_cases)
qed

lemma fs_write_file_confined:
  assumes "fs_wf d" and "map_of d dir = Some Dir" and "fs_write_file (dir @ s) b d = Inr d'"
  shows "confined dir (map_of d) (map_of d')"
  unfolding confined_def
proof (intro allI impI)
  have m': "map_of d' = put_file (dir @ s) b (map_of d)"
    using assms(3) by (rule fs_write_file_Inr)
  have "can_write (dir @ s) (map_of d)"
    using assms(3) fs_write_file_ok by blast
  then have "s \<noteq> []" using assms(2) by (auto simp: can_write_def)
  fix q assume ch: "map_of d' q \<noteq> map_of d q"
  show "strict_prefix dir q"
  proof (cases "q = dir @ s")
    case True
    then show ?thesis using \<open>s \<noteq> []\<close> by (simp add: strict_prefix_def)
  next
    case False
    then have "prefix q (dir @ s)" and nd: "map_of d q \<noteq> Some Dir"
      using ch by (auto simp: m' put_file_def prefix_order.less_imp_le split: if_splits)
    moreover have "\<not> prefix q dir"
      using nd prefix_of_dir_is_dir assms(1,2) fs_wf_iff by blast
    ultimately show ?thesis by (meson below_dir_cases)
  qed
qed

section \<open>Files below a directory\<close>

lemma is_file_iff: "is_file v \<longleftrightarrow> (\<exists>b. v = Some (File b))"
  by (cases v rule: is_file.cases) auto

lemma set_fs_files_under:
  "set (fs_files_under d dir) = {r. r \<noteq> [] \<and> is_file (map_of d (dir @ r))}"
proof -
  have keys: "\<And>p. is_file (map_of d p) \<Longrightarrow> p \<in> set (map fst d)"
    by (auto simp: is_file_iff dest: map_of_SomeD intro: rev_image_eqI)
  show ?thesis
  proof (intro equalityI subsetI)
    fix r assume "r \<in> set (fs_files_under d dir)"
    then show "r \<in> {r. r \<noteq> [] \<and> is_file (map_of d (dir @ r))}"
      by (auto simp: fs_files_under_def strict_prefix_def prefix_def)
  next
    fix r assume r: "r \<in> {r. r \<noteq> [] \<and> is_file (map_of d (dir @ r))}"
    then have "dir @ r \<in> set (filter (\<lambda>p. strict_prefix dir p \<and> is_file (map_of d p)) (remdups (map fst d)))"
      using keys by (simp add: strict_prefix_def)
    then show "r \<in> set (fs_files_under d dir)"
      unfolding fs_files_under_def set_map by (rule rev_image_eqI) simp
  qed
qed

lemma files_prefix_free:
  assumes "fs_wf d" and "is_file (map_of d (dir @ r))" and "is_file (map_of d (dir @ r'))"
    and "prefix r r'"
  shows "r = r'"
proof (rule ccontr)
  assume "r \<noteq> r'"
  with assms(4) have "strict_prefix (dir @ r) (dir @ r')" by (simp add: prefix_order.less_le)
  with assms(1,3) have "map_of d (dir @ r) = Some Dir"
    by (auto simp: fs_wf_iff wf_map_def is_file_iff)
  with assms(2) show False by simp
qed

section \<open>Frame lemmas: what a write leaves alone\<close>

lemma fs_write_file_frame:
  "fs_write_file p b d = Inr d' \<Longrightarrow> \<not> prefix q p \<Longrightarrow> map_of d' q = map_of d q"
  by (auto simp: put_file_def prefix_order.less_imp_le dest!: fs_write_file_Inr)

lemma fs_write_file_sync_Inr:
  "fs_write_file_sync p b d = Inr d' \<Longrightarrow> map_of d' = (map_of d)(p \<mapsto> File b)"
  by (auto simp: fs_write_file_sync_def update_conv' split: if_splits option.splits fnode.splits)

lemma fs_write_file_sync_frame:
  "fs_write_file_sync p b d = Inr d' \<Longrightarrow> q \<noteq> p \<Longrightarrow> map_of d' q = map_of d q"
  by (simp add: fs_write_file_sync_Inr)

lemma fs_copy_file_frame:
  "fs_copy_file from to d = Inr d' \<Longrightarrow> \<not> prefix q to \<Longrightarrow> map_of d' q = map_of d q"
  by (auto simp: fs_copy_file_def split: sum.splits dest: fs_write_file_frame)

lemma fs_copy_file_Inr:
  "fs_copy_file from to d = Inr d' \<Longrightarrow> map_of d' to = map_of d from"
  by (auto simp: fs_copy_file_def fs_read_file_def put_file_def
           split: sum.splits option.splits fnode.splits dest!: fs_write_file_Inr)

lemma fs_write_file_sync_wf:
  assumes "fs_wf d" and "fs_write_file_sync p b d = Inr d'"
  shows "fs_wf d'"
proof -
  have "p \<noteq> []" and par: "map_of d (butlast p) = Some Dir" and nd: "map_of d p \<noteq> Some Dir"
    using assms(2) by (auto simp: fs_write_file_sync_def split: if_splits option.splits fnode.splits)
  then have "can_write p (map_of d)"
    using assms(1) prefix_of_dir_is_dir [of "map_of d" "butlast p"]
    by (auto simp: can_write_def dir_ok_def fs_wf_iff)
  moreover have "map_of d' = put_file p b (map_of d)"
  proof
    fix q
    show "map_of d' q = put_file p b (map_of d) q"
      using fs_write_file_sync_Inr [OF assms(2)] par assms(1) \<open>p \<noteq> []\<close>
        prefix_of_dir_is_dir [of "map_of d" "butlast p" q]
      by (auto simp: put_file_def fs_wf_iff strict_prefix_butlast [symmetric])
  qed
  ultimately show ?thesis
    using assms(1) put_file_wf by (simp add: fs_wf_iff)
qed

lemma fs_copy_file_wf: "fs_wf d \<Longrightarrow> fs_copy_file from to d = Inr d' \<Longrightarrow> fs_wf d'"
  by (auto simp: fs_copy_file_def split: sum.splits intro: fs_write_file_wf)

end
