(* ===== verification/CacheStore.thy ===== *)
theory CacheStore
  imports FileSystem
begin

text \<open>
  The cache store of \<open>downloadAndExtractArchive\<close> (specification, sections
  4.1 and 6): the entry of key \<open>k\<close> is the directory \<open>cacheDirPath/k\<close>, and it
  is complete when its completion marker, the file \<open>cacheDirPath/.complete/k\<close>,
  exists. \<open>cache_reserve\<close> answers a hit with the existing directory and
  otherwise gives a fresh, empty directory (a stale or half-written one is
  removed first); \<open>cache_commit\<close> writes the marker. What a reader of the
  cache sees is \<open>cache_view\<close>: for each key, the tree of its directory when
  the key is complete, nothing otherwise.
\<close>

definition cache_dir :: "path \<Rightarrow> string \<Rightarrow> path" where
  "cache_dir root key = root @ [key]"

definition cache_marker :: "path \<Rightarrow> string \<Rightarrow> path" where
  "cache_marker root key = root @ [''.complete'', key]"

definition cache_is_complete :: "path \<Rightarrow> string \<Rightarrow> disk \<Rightarrow> bool" where
  "cache_is_complete root key d =
     (case map_of d (cache_marker root key) of Some (File _) \<Rightarrow> True | _ \<Rightarrow> False)"

definition cache_reserve :: "path \<Rightarrow> string \<Rightarrow> disk \<Rightarrow> build_error + (bool \<times> path \<times> disk)" where
  "cache_reserve root key d =
     (if cache_is_complete root key d then Inr (True, cache_dir root key, d)
      else case fs_mkdir_p (cache_dir root key) (fs_remove_tree (cache_dir root key) d) of
             Inl e \<Rightarrow> Inl e
           | Inr d' \<Rightarrow> Inr (False, cache_dir root key, d'))"

definition cache_commit :: "path \<Rightarrow> string \<Rightarrow> disk \<Rightarrow> build_error + disk" where
  "cache_commit root key d = fs_write_file (cache_marker root key) [] d"

definition cache_view :: "path \<Rightarrow> disk \<Rightarrow> string \<Rightarrow> (path \<rightharpoonup> fnode) option" where
  "cache_view root d key =
     (if cache_is_complete root key d then Some (\<lambda>r. map_of d (cache_dir root key @ r)) else None)"

text \<open>A key names a directory of its own: it is not the marker directory's name.\<close>

definition valid_key :: "string \<Rightarrow> bool" where
  "valid_key key \<longleftrightarrow> key \<noteq> ''.complete''"

section \<open>The abstract store\<close>

text \<open>
  What the specification promises of the store (section 4.1), without disks:
  a map from keys to extracted trees. \<open>abs_download C key t\<close> is a call that
  would extract the tree \<open>t\<close>: a present entry is returned as it is, an
  absent one is filled with \<open>t\<close>. \<open>cache_abs\<close> reads the abstract store off a
  disk: the complete entries of the valid keys.
\<close>

type_synonym tree = "path \<rightharpoonup> fnode"

definition abs_download :: "(string \<rightharpoonup> tree) \<Rightarrow> string \<Rightarrow> tree \<Rightarrow> tree \<times> (string \<rightharpoonup> tree)" where
  "abs_download C key t = (case C key of Some t0 \<Rightarrow> (t0, C) | None \<Rightarrow> (t, C(key \<mapsto> t)))"

definition cache_abs :: "path \<Rightarrow> disk \<Rightarrow> string \<rightharpoonup> tree" where
  "cache_abs root d k = (if valid_key k then cache_view root d k else None)"

section \<open>Lemmas\<close>

text \<open>\<open>m'\<close> differs from \<open>m\<close> only on paths on the line of \<open>dir\<close>: its ancestors and what lies below it.\<close>

definition touches_only :: "path \<Rightarrow> (path \<rightharpoonup> fnode) \<Rightarrow> (path \<rightharpoonup> fnode) \<Rightarrow> bool" where
  "touches_only dir m m' \<longleftrightarrow> (\<forall>q. m' q \<noteq> m q \<longrightarrow> prefix q dir \<or> prefix dir q)"

lemma touches_only_trans:
  "touches_only dir m1 m2 \<Longrightarrow> touches_only dir m2 m3 \<Longrightarrow> touches_only dir m1 m3"
  unfolding touches_only_def by metis

lemma confined_touches_only: "confined dir m m' \<Longrightarrow> touches_only dir m m'"
  unfolding confined_def touches_only_def by (auto dest: prefix_order.less_imp_le)

lemma cache_reserve_miss:
  assumes "cache_reserve root key d = Inr (False, dir, d')"
  shows "dir = cache_dir root key \<and> \<not> cache_is_complete root key d
         \<and> map_of d' = (\<lambda>q. if prefix q dir then Some Dir else if prefix dir q then None else map_of d q)"
  using assms
  by (auto simp: cache_reserve_def fs_remove_tree_map fun_eq_iff split: if_splits sum.splits
           dest!: fs_mkdir_p_Inr)

lemma cache_reserve_hit:
  "cache_reserve root key d = Inr (True, dir, d') \<Longrightarrow> dir = cache_dir root key \<and> d' = d"
  by (auto simp: cache_reserve_def split: if_splits sum.splits)

lemma cache_reserve_miss_touches:
  "cache_reserve root key d = Inr (False, dir, d') \<Longrightarrow> touches_only dir (map_of d) (map_of d')"
  by (auto simp: touches_only_def dest!: cache_reserve_miss split: if_splits)

lemma cache_reserve_miss_wf:
  assumes "fs_wf d" and "cache_reserve root key d = Inr (False, dir, d')"
  shows "fs_wf d' \<and> map_of d' dir = Some Dir"
proof -
  have mk: "fs_mkdir_p (cache_dir root key) (fs_remove_tree (cache_dir root key) d) = Inr d'"
    and "dir = cache_dir root key"
    using assms(2) by (auto simp: cache_reserve_def split: if_splits sum.splits)
  have "fs_wf d'"
    using fs_mkdir_p_wf [OF fs_remove_tree_wf [OF assms(1)] mk] .
  moreover have "map_of d' dir = Some Dir"
    using fs_mkdir_p_Inr [OF mk] \<open>dir = cache_dir root key\<close> by simp
  ultimately show ?thesis ..
qed

lemma cache_commit_complete:
  "cache_commit root key d = Inr d' \<Longrightarrow> cache_is_complete root key d'"
  by (auto simp: cache_commit_def cache_is_complete_def put_file_def dest!: fs_write_file_Inr)

lemma touches_only_marker:
  "touches_only (cache_dir root key) (map_of d) (map_of d') \<Longrightarrow> valid_key key \<Longrightarrow>
     map_of d' (cache_marker root k) = map_of d (cache_marker root k)"
  by (auto simp: touches_only_def cache_marker_def cache_dir_def valid_key_def prefix_def)

lemma cache_view_other_key:
  assumes "touches_only (cache_dir root key) (map_of d) (map_of d')" and "valid_key key"
    and "k \<noteq> key"
  shows "cache_view root d' k = cache_view root d k"
proof -
  have "\<And>r. map_of d' (cache_dir root k @ r) = map_of d (cache_dir root k @ r)"
    using assms(1,3) by (auto simp: touches_only_def cache_dir_def prefix_def)
  then show ?thesis
    using touches_only_marker [OF assms(1,2)] by (simp add: cache_view_def cache_is_complete_def)
qed

lemma cache_view_unchanged:
  assumes "touches_only (cache_dir root key) (map_of d) (map_of d')" and "valid_key key"
    and "\<not> cache_is_complete root key d"
  shows "cache_view root d' k = cache_view root d k"
proof (cases "k = key")
  case True
  then show ?thesis
    using touches_only_marker [OF assms(1,2)] assms(3) by (simp add: cache_view_def cache_is_complete_def)
qed (rule cache_view_other_key [OF assms(1,2)])

lemma cache_commit_other_key:
  assumes "cache_commit root key d = Inr d'" and "valid_key k" and "k \<noteq> key"
  shows "cache_view root d' k = cache_view root d k"
proof -
  have "\<And>q. (\<exists>r. q = cache_dir root k @ r) \<or> q = cache_marker root k \<Longrightarrow> \<not> prefix q (cache_marker root key)"
    using assms(2,3) by (auto simp: cache_dir_def cache_marker_def valid_key_def)
  then have "\<And>r. map_of d' (cache_dir root k @ r) = map_of d (cache_dir root k @ r)"
    and "map_of d' (cache_marker root k) = map_of d (cache_marker root k)"
    using fs_write_file_frame assms(1) unfolding cache_commit_def by blast+
  then show ?thesis by (simp add: cache_view_def cache_is_complete_def)
qed

lemma cache_commit_view:
  assumes "cache_commit root key d = Inr d'" and "valid_key key"
  shows "cache_view root d' key = Some (\<lambda>r. map_of d (cache_dir root key @ r))"
proof -
  have "\<And>r. \<not> prefix (cache_dir root key @ r) (cache_marker root key)"
    using assms(2) by (auto simp: cache_dir_def cache_marker_def valid_key_def)
  then have "\<And>r. map_of d' (cache_dir root key @ r) = map_of d (cache_dir root key @ r)"
    using fs_write_file_frame assms(1) unfolding cache_commit_def by blast
  then show ?thesis
    using cache_commit_complete [OF assms(1)] by (simp add: cache_view_def)
qed

end
