(* ===== verification/Extractor.thy ===== *)
theory Extractor
  imports FileSystem NodePath
begin

text \<open>
  The archive fetcher and the archive extractor of \<open>downloadAndExtractArchive\<close>
  (\<open>src/scripts/tools\<close>, outside \<open>src/\<close>: modelled from the specification,
  sections 4.2 and 4.3). The network is a parameter \<open>net\<close>: for a proxy
  configuration and a URL it gives the response body, or \<open>None\<close> for a failed
  request (a non-success status, no connection, a timeout). The container
  format is a parameter \<open>unzip\<close>: the entries of an archive in listing order, or
  \<open>None\<close> for a malformed container. The per-entry filter is the caller's
  callback: it may raise (\<open>Inl\<close>), skip (\<open>Inr None\<close>) or name a target path
  (\<open>Inr (Some t)\<close>). An extraction that fails keeps the files it wrote so
  far: its result carries the disk as it was left.
\<close>

datatype archive_entry = ArchiveEntry (entry_path: string) (entry_is_dir: bool) (entry_bytes: bytes)

type_synonym entry_filter = "string \<Rightarrow> bool \<Rightarrow> build_error + string option"

type_synonym 'proxy network = "'proxy \<Rightarrow> string \<Rightarrow> bytes option"

type_synonym container = "bytes \<Rightarrow> archive_entry list option"

section \<open>ArchiveFetcher\<close>

definition archive_fetch :: "'proxy network \<Rightarrow> 'proxy \<Rightarrow> string \<Rightarrow> build_error + bytes" where
  "archive_fetch net proxy url = (case net proxy url of None \<Rightarrow> Inl (NetworkError url) | Some b \<Rightarrow> Inr b)"

section \<open>ArchiveExtractor\<close>

text \<open>
  A target is resolved against the destination root: an absolute target, or
  one whose normalisation climbs above the root, is a path traversal.
\<close>

definition target_segments :: "string \<Rightarrow> path option" where
  "target_segments t =
     (if path_is_absolute t then None
      else let s = norm_segs True [] (path_segments t) in
           if ''..'' \<in> set s then None else Some s)"

text \<open>
  One entry: the filter's decision; a skipped entry is dropped; a directory is
  created with its ancestors, a file written after its ancestors are created,
  so that the order of the archive's entries does not matter.
\<close>

definition extract_entry :: "entry_filter \<Rightarrow> path \<Rightarrow> archive_entry \<Rightarrow> disk \<Rightarrow> build_error + disk" where
  "extract_entry f dest e d =
     (case f (entry_path e) (entry_is_dir e) of
        Inl err \<Rightarrow> Inl err
      | Inr None \<Rightarrow> Inr d
      | Inr (Some t) \<Rightarrow>
          (case target_segments t of
             None \<Rightarrow> Inl (PathTraversalError t)
           | Some s \<Rightarrow>
               (if entry_is_dir e then fs_mkdir_p (dest @ s) d
                else fs_write_file (dest @ s) (entry_bytes e) d)))"

fun extract_entries ::
  "entry_filter \<Rightarrow> path \<Rightarrow> archive_entry list \<Rightarrow> disk \<Rightarrow> (build_error \<times> disk) + disk" where
  "extract_entries f dest [] d = Inr d"
| "extract_entries f dest (e # es) d =
     (case extract_entry f dest e d of
        Inl err \<Rightarrow> Inl (err, d)
      | Inr d' \<Rightarrow> extract_entries f dest es d')"

definition archive_extract ::
  "container \<Rightarrow> bytes \<Rightarrow> entry_filter \<Rightarrow> path \<Rightarrow> disk \<Rightarrow> (build_error \<times> disk) + disk" where
  "archive_extract unzip archive f dest d =
     (case unzip archive of
        None \<Rightarrow> Inl (ArchiveFormatError, d)
      | Some es \<Rightarrow> extract_entries f dest es d)"

text \<open>The disk an extraction leaves, whether it succeeded or not.\<close>

fun extract_disk :: "(build_error \<times> disk) + disk \<Rightarrow> disk" where
  "extract_disk (Inl (_, d)) = d"
| "extract_disk (Inr d) = d"

section \<open>Lemmas\<close>

lemma extract_entry_invariant:
  assumes "fs_wf d" and "map_of d dest = Some Dir" and "extract_entry f dest e d = Inr d'"
  shows "fs_wf d' \<and> confined dest (map_of d) (map_of d')"
proof (cases "f (entry_path e) (entry_is_dir e)")
  case (Inr r)
  show ?thesis
  proof (cases r)
    case None
    then show ?thesis using Inr assms by (simp add: extract_entry_def)
  next
    case (Some t)
    then obtain s where
      step: "(if entry_is_dir e then fs_mkdir_p (dest @ s) d
              else fs_write_file (dest @ s) (entry_bytes e) d) = Inr d'"
      using Inr assms(3) by (auto simp: extract_entry_def split: option.splits)
    show ?thesis
    proof (cases "entry_is_dir e")
      case True
      then have "fs_mkdir_p (dest @ s) d = Inr d'" using step by simp
      then show ?thesis using assms(1,2) fs_mkdir_p_wf fs_mkdir_p_confined by blast
    next
      case False
      then have "fs_write_file (dest @ s) (entry_bytes e) d = Inr d'" using step by simp
      then show ?thesis using assms(1,2) fs_write_file_wf fs_write_file_confined by blast
    qed
  qed
qed (use assms(3) in \<open>simp add: extract_entry_def\<close>)

lemma confined_keeps_dir:
  "confined dest m m' \<Longrightarrow> m dest = Some Dir \<Longrightarrow> m' dest = Some Dir"
  unfolding confined_def by (metis prefix_order.less_irrefl)

lemma extract_entries_invariant:
  assumes "fs_wf d" and "map_of d dest = Some Dir"
  shows "fs_wf (extract_disk (extract_entries f dest es d))
         \<and> confined dest (map_of d) (map_of (extract_disk (extract_entries f dest es d)))"
  using assms
proof (induction es arbitrary: d)
  case (Cons e es)
  show ?case
  proof (cases "extract_entry f dest e d")
    case (Inr d')
    with Cons.prems have wf: "fs_wf d'" and c: "confined dest (map_of d) (map_of d')"
      using extract_entry_invariant by blast+
    from c Cons.prems(2) have "map_of d' dest = Some Dir" by (rule confined_keeps_dir)
    with wf have "fs_wf (extract_disk (extract_entries f dest es d'))
        \<and> confined dest (map_of d') (map_of (extract_disk (extract_entries f dest es d')))"
      by (rule Cons.IH)
    then show ?thesis
      using Inr confined_trans [OF c] by simp
  qed (use Cons.prems in simp)
qed simp

lemma archive_extract_invariant:
  assumes "fs_wf d" and "map_of d dest = Some Dir"
  shows "fs_wf (extract_disk (archive_extract unzip a f dest d))
         \<and> confined dest (map_of d) (map_of (extract_disk (archive_extract unzip a f dest d)))"
  using assms extract_entries_invariant
  by (auto simp: archive_extract_def split: option.splits)

lemma extract_entry_new_file:
  assumes "extract_entry f dest e d = Inr d'" and "map_of d' q = Some (File b)"
    and "map_of d q \<noteq> Some (File b)"
  shows "\<exists>t s. \<not> entry_is_dir e \<and> entry_bytes e = b \<and> f (entry_path e) False = Inr (Some t)
               \<and> target_segments t = Some s \<and> q = dest @ s"
proof (cases "f (entry_path e) (entry_is_dir e)")
  case (Inr r)
  show ?thesis
  proof (cases r)
    case (Some t)
    then obtain s where ts: "target_segments t = Some s" and
      step: "(if entry_is_dir e then fs_mkdir_p (dest @ s) d
              else fs_write_file (dest @ s) (entry_bytes e) d) = Inr d'"
      using Inr assms(1) by (auto simp: extract_entry_def split: option.splits)
    show ?thesis
    proof (cases "entry_is_dir e")
      case True
      then have "fs_mkdir_p (dest @ s) d = Inr d'" using step by simp
      then show ?thesis using assms(2,3) by (auto dest!: fs_mkdir_p_Inr split: if_splits)
    next
      case False
      then have "fs_write_file (dest @ s) (entry_bytes e) d = Inr d'" using step by simp
      then have "q = dest @ s \<and> entry_bytes e = b"
        using assms(2,3) by (auto simp: put_file_def dest!: fs_write_file_Inr split: if_splits)
      then show ?thesis using False Inr Some ts by auto
    qed
  qed (use Inr assms in \<open>simp add: extract_entry_def\<close>)
qed (use assms(1) in \<open>simp add: extract_entry_def\<close>)

section \<open>Properties\<close>



text \<open>
  C19 (a traversal is rejected, not renamed). When the filter names a target
  that is absolute or climbs out of the destination, the extraction stops with
  \<open>PathTraversalError\<close> and that entry is not written.
\<close>

theorem extract_rejects_traversal:
  assumes "f (entry_path e) (entry_is_dir e) = Inr (Some t)"
    and "path_is_absolute t \<or> ''..'' \<in> set (norm_segs True [] (path_segments t))"
  shows "extract_entries f dest (e # es) d = Inl (PathTraversalError t, d)"
  using assms by (auto simp: extract_entry_def target_segments_def Let_def)

text \<open>
  C20 (no file appears from nowhere). After a successful extraction, a file
  below the destination that was not there before holds the bytes of an
  archive file entry that the filter accepted, at the target it named.
\<close>

theorem extract_entries_files_from_archive:
  assumes "extract_entries f dest es d = Inr d'" and "map_of d' (dest @ r) = Some (File b)"
    and "map_of d (dest @ r) \<noteq> Some (File b)"
  shows "\<exists>e \<in> set es. \<exists>t. \<not> entry_is_dir e \<and> entry_bytes e = b
           \<and> f (entry_path e) False = Inr (Some t) \<and> target_segments t = Some r"
  using assms
proof (induction es arbitrary: d)
  case (Cons e es)
  then obtain d1 where d1: "extract_entry f dest e d = Inr d1"
    and rest: "extract_entries f dest es d1 = Inr d'"
    by (auto split: sum.splits)
  show ?case
  proof (cases "map_of d1 (dest @ r) = Some (File b)")
    case True
    then show ?thesis
      using extract_entry_new_file [OF d1 True Cons.prems(3)] by auto
  next
    case False
    then show ?thesis using Cons.IH [OF rest Cons.prems(2) False] by auto
  qed
qed simp


section \<open>Witnesses\<close>


theorem extract_rejects_traversal_witness:
  "extract_entries (\<lambda>p _. Inr (Some p)) [''out''] [ArchiveEntry ''../../etc/passwd'' False [0]] [([], Dir), ([''out''], Dir)]
     = Inl (PathTraversalError ''../../etc/passwd'', [([], Dir), ([''out''], Dir)])"
proof -
  have "''..'' \<in> set (norm_segs True [] (path_segments ''../../etc/passwd''))"
    by (simp add: path_simps js_simps)
  then show ?thesis
    using extract_rejects_traversal [of "\<lambda>p _. Inr (Some p)" "ArchiveEntry ''../../etc/passwd'' False [0]"] by simp
qed
theorem extract_entries_files_from_archive_witness:
  "extract_entries (\<lambda>p _. Inr (Some p)) [''out''] [ArchiveEntry ''a/b/file.txt'' False [1]] [([], Dir), ([''out''], Dir)]
     = Inr [([], Dir), ([''out''], Dir), ([''out'', ''a''], Dir), ([''out'', ''a'', ''b''], Dir),
            ([''out'', ''a'', ''b'', ''file.txt''], File [1])]
   \<and> (\<exists>e \<in> set [ArchiveEntry ''a/b/file.txt'' False [1]]. \<exists>t. \<not> entry_is_dir e \<and> entry_bytes e = [1]
           \<and> (\<lambda>p _. Inr (Some p)) (entry_path e) False = (Inr (Some t) :: build_error + string option)
           \<and> target_segments t = Some [''a'', ''b'', ''file.txt''])"
proof -
  have e: "extract_entries (\<lambda>p _. Inr (Some p)) [''out''] [ArchiveEntry ''a/b/file.txt'' False [1]] [([], Dir), ([''out''], Dir)]
     = Inr [([], Dir), ([''out''], Dir), ([''out'', ''a''], Dir), ([''out'', ''a'', ''b''], Dir),
            ([''out'', ''a'', ''b'', ''file.txt''], File [1])]"
    by (simp add: extract_entry_def target_segments_def
                path_simps js_simps fs_write_file_def fs_mkdir_p_def)
  show ?thesis
    using e extract_entries_files_from_archive [OF e, of "[''a'', ''b'', ''file.txt'']" "[1]"] by simp
qed

end
