(* ===== verification/Orchestrator.thy ===== *)
theory Orchestrator
  imports CacheStore Extractor
begin

text \<open>
  \<open>downloadAndExtractArchive\<close>, the pipeline orchestrator (specification,
  section 4.4; the code lives in \<open>src/scripts/tools\<close>, outside \<open>src/\<close>). The
  world is the disk together with the list of URLs fetched from the network,
  so that the network traffic of a call can be stated. A call reserves the
  cache entry of its key; on a hit it returns the entry's directory at once;
  on a miss it fetches the archive, extracts it into the reserved directory
  with the caller's filter, and commits the entry. Every failure is a value
  \<open>Inl\<close> together with the world as the call left it.
\<close>

record world =
  w_disk :: disk
  w_fetched :: "string list"

definition download_and_extract ::
  "'proxy network \<Rightarrow> container \<Rightarrow> string \<Rightarrow> path \<Rightarrow> string \<Rightarrow> 'proxy \<Rightarrow> entry_filter
   \<Rightarrow> 'w world_scheme \<Rightarrow> (build_error + path) \<times> 'w world_scheme" where
  "download_and_extract net unzip url cache_root key proxy f w =
     (case cache_reserve cache_root key (w_disk w) of
        Inl e \<Rightarrow> (Inl e, w)
      | Inr (True, dir, _) \<Rightarrow> (Inr dir, w)
      | Inr (False, dir, d1) \<Rightarrow>
          (let w1 = w\<lparr>w_disk := d1, w_fetched := w_fetched w @ [url]\<rparr> in
           case archive_fetch net proxy url of
             Inl e \<Rightarrow> (Inl e, w1)
           | Inr archive \<Rightarrow>
               (case archive_extract unzip archive f dir d1 of
                  Inl (e, d2) \<Rightarrow> (Inl e, w1\<lparr>w_disk := d2\<rparr>)
                | Inr d2 \<Rightarrow>
                    (case cache_commit cache_root key d2 of
                       Inl e \<Rightarrow> (Inl e, w1\<lparr>w_disk := d2\<rparr>)
                     | Inr d3 \<Rightarrow> (Inr dir, w1\<lparr>w_disk := d3\<rparr>)))))"

section \<open>Lemmas\<close>

lemma download_and_extract_Inr:
  assumes "download_and_extract net unzip url root key proxy f w = (Inr dir, w')"
  shows "dir = cache_dir root key \<and> cache_is_complete root key (w_disk w')"
  using assms cache_commit_complete
  by (auto simp: download_and_extract_def Let_def cache_reserve_def
           split: sum.splits bool.splits if_splits prod.splits)

lemma download_and_extract_Inl:
  assumes "download_and_extract net unzip url root key proxy f w = (Inl e, w')"
  shows "w' = w \<or> (\<exists>d1. cache_reserve root key (w_disk w) = Inr (False, cache_dir root key, d1)
                    \<and> (w_disk w' = d1 \<or> w_disk w' = extract_disk (archive_extract unzip (the (net proxy url)) f (cache_dir root key) d1)))"
  using assms
  by (auto simp: download_and_extract_def Let_def archive_fetch_def
           split: sum.splits bool.splits prod.splits option.splits
           dest: cache_reserve_hit cache_reserve_miss)

lemma download_and_extract_hit:
  "cache_is_complete root key (w_disk w) \<Longrightarrow>
     download_and_extract net unzip url root key proxy f w = (Inr (cache_dir root key), w)"
  by (simp add: download_and_extract_def cache_reserve_def)

lemma download_and_extract_fields:
  "download_and_extract net unzip url root key proxy f w = (r, w') \<Longrightarrow>
   w' = w\<lparr>w_disk := w_disk w', w_fetched := w_fetched w'\<rparr>"
  by (auto simp: download_and_extract_def Let_def split: sum.splits bool.splits prod.splits)

text \<open>
  A call changes nothing off the line of the entry's directory and the
  marker: the rest of the disk is framed.
\<close>

lemma download_and_extract_frame:
  assumes wf: "fs_wf (w_disk w)"
    and run: "download_and_extract net unzip url root key proxy f w = (res, w')"
    and q: "\<not> prefix q (cache_dir root key)" "\<not> prefix (cache_dir root key) q"
      "\<not> prefix q (cache_marker root key)"
  shows "map_of (w_disk w') q = map_of (w_disk w) q"
proof (cases "\<exists>d1. cache_reserve root key (w_disk w) = Inr (False, cache_dir root key, d1)")
  case False
  then have "w' = w"
    using run by (auto simp: download_and_extract_def cache_reserve_def split: sum.splits if_splits)
  then show ?thesis by simp
next
  case True
  then obtain d1 where miss: "cache_reserve root key (w_disk w) = Inr (False, cache_dir root key, d1)" ..
  have m1: "map_of d1 q = map_of (w_disk w) q"
    using cache_reserve_miss_touches [OF miss] q by (auto simp: touches_only_def)
  have wf1: "fs_wf d1" and dir1: "map_of d1 (cache_dir root key) = Some Dir"
    using cache_reserve_miss_wf [OF wf miss] by simp_all
  have ext: "archive_extract unzip a f (cache_dir root key) d1 = x \<Longrightarrow> map_of (extract_disk x) q = map_of d1 q"
    for a x using archive_extract_invariant [OF wf1 dir1, of unzip a f] q(2)
    by (auto simp: confined_def dest: prefix_order.less_imp_le)
  have com: "cache_commit root key d2 = Inr d3 \<Longrightarrow> map_of d3 q = map_of d2 q" for d2 d3
    using q(3) by (simp add: cache_commit_def fs_write_file_frame)
  from run miss show ?thesis
    using m1 ext [of _ "Inr _"] ext [of _ "Inl _"] com
    by (fastforce simp: download_and_extract_def Let_def split: sum.splits)
qed

text \<open>Without the network a call that misses the cache fails.\<close>

lemma download_and_extract_offline:
  "net proxy url = None \<Longrightarrow> \<not> cache_is_complete root key (w_disk w) \<Longrightarrow>
     \<exists>e w'. download_and_extract net unzip url root key proxy f w = (Inl e, w')"
  by (simp add: download_and_extract_def cache_reserve_def archive_fetch_def Let_def split: sum.splits)

text \<open>Reserving on a miss and extracting change nothing off the line of the entry's directory.\<close>

lemma miss_extract_touches:
  assumes wf: "fs_wf (w_disk w)"
    and miss: "cache_reserve root key (w_disk w) = Inr (False, cache_dir root key, d1)"
  shows "touches_only (cache_dir root key) (map_of (w_disk w))
           (map_of (extract_disk (archive_extract unzip a f (cache_dir root key) d1)))"
proof -
  have t1: "touches_only (cache_dir root key) (map_of (w_disk w)) (map_of d1)"
    using miss by (rule cache_reserve_miss_touches)
  have "fs_wf d1 \<and> map_of d1 (cache_dir root key) = Some Dir"
    using cache_reserve_miss_wf [OF wf miss] .
  then have "touches_only (cache_dir root key) (map_of d1)
               (map_of (extract_disk (archive_extract unzip a f (cache_dir root key) d1)))"
    using archive_extract_invariant confined_touches_only by blast
  with t1 show ?thesis using touches_only_trans by blast
qed

lemma download_and_extract_miss_Inr:
  assumes "download_and_extract net unzip url root key proxy f w = (Inr dir, w')"
    and "cache_reserve root key (w_disk w) = Inr (False, dir, d1)"
  shows "\<exists>a d2. net proxy url = Some a \<and> archive_extract unzip a f dir d1 = Inr d2
           \<and> cache_commit root key d2 = Inr (w_disk w') \<and> w_fetched w' = w_fetched w @ [url]"
  using assms
  by (auto simp: download_and_extract_def Let_def archive_fetch_def
           split: sum.splits option.splits prod.splits)

lemma download_and_extract_wf:
  assumes "fs_wf (w_disk w)" and "download_and_extract net unzip url root key proxy f w = (res, w')"
  shows "fs_wf (w_disk w')"
proof (cases "cache_reserve root key (w_disk w)")
  case (Inl e)
  then show ?thesis using assms by (simp add: download_and_extract_def)
next
  case (Inr r)
  obtain hit dir d1 where r: "r = (hit, dir, d1)" by (cases r) auto
  show ?thesis
  proof (cases hit)
    case True
    then show ?thesis using assms Inr r by (simp add: download_and_extract_def)
  next
    case False
    with Inr r have m: "cache_reserve root key (w_disk w) = Inr (False, dir, d1)" by simp
    then have wf1: "fs_wf d1 \<and> map_of d1 dir = Some Dir"
      using cache_reserve_miss_wf assms(1) by blast
    have wf2: "\<And>a. fs_wf (extract_disk (archive_extract unzip a f dir d1))"
      using archive_extract_invariant wf1 by blast
    have wf3: "\<And>a e d2. archive_extract unzip a f dir d1 = Inl (e, d2) \<Longrightarrow> fs_wf d2"
      using wf2 by (metis extract_disk.simps(1))
    have wf4: "\<And>a d2. archive_extract unzip a f dir d1 = Inr d2 \<Longrightarrow> fs_wf d2"
      using wf2 by (metis extract_disk.simps(2))
    show ?thesis
      using assms(2) m wf1 wf3 wf4
      by (auto simp: download_and_extract_def Let_def cache_commit_def
               split: sum.splits prod.splits)
         (metis wf4 fs_write_file_wf)
  qed
qed

text \<open>The definitions a concrete call unfolds to, for evaluating it by \<open>simp\<close>.\<close>

lemmas pipeline_eval =
  download_and_extract_def cache_reserve_def cache_is_complete_def cache_marker_def cache_dir_def
  cache_commit_def fs_mkdir_p_def fs_remove_tree_def fs_write_file_def archive_fetch_def
  archive_extract_def extract_entry_def target_segments_def
  path_simps js_simps Let_def

section \<open>Properties\<close>

text \<open>
  C22 (idempotence). Once a call has returned an extracted directory, every
  later call with the same cache key returns the same directory and leaves the
  world as it is: no network traffic, no extraction, byte-identical contents.
  It holds whatever URL, proxy and filter the later call passes.
\<close>

theorem download_and_extract_idempotent:
  assumes "download_and_extract net unzip url root key proxy f w = (Inr dir, w')"
  shows "download_and_extract net' unzip' url' root key proxy' f' w' = (Inr dir, w')"
proof -
  from download_and_extract_Inr [OF assms]
  have "dir = cache_dir root key" and "cache_is_complete root key (w_disk w')" by auto
  then show ?thesis
    by (simp add: download_and_extract_def cache_reserve_def)
qed

text \<open>
  C23 (failure atomicity). A call that fails, whether the fetch, the
  extraction (a malformed archive, a raising filter, a path traversal, a disk
  error) or the commit failed, leaves every key's cache entry as a reader saw
  it before the call: no key becomes complete and no complete entry changes.
\<close>

theorem download_and_extract_failure_atomic:
  assumes "fs_wf (w_disk w)" and "valid_key key"
    and "download_and_extract net unzip url root key proxy f w = (Inl e, w')"
  shows "cache_view root (w_disk w') = cache_view root (w_disk w)"
proof -
  consider (same) "w' = w"
    | (miss) d1 where "cache_reserve root key (w_disk w) = Inr (False, cache_dir root key, d1)"
        and "w_disk w' = d1 \<or> w_disk w' = extract_disk (archive_extract unzip (the (net proxy url)) f (cache_dir root key) d1)"
    using download_and_extract_Inl [OF assms(3)] by blast
  then show ?thesis
  proof cases
    case miss
    have nc: "\<not> cache_is_complete root key (w_disk w)" using miss(1) cache_reserve_miss by blast
    have "touches_only (cache_dir root key) (map_of (w_disk w)) (map_of (w_disk w'))"
      using miss(2) cache_reserve_miss_touches [OF miss(1)]
            miss_extract_touches [OF assms(1) miss(1), of unzip "the (net proxy url)" f] by auto
    then show ?thesis
      using cache_view_unchanged [OF _ assms(2) nc] by auto
  qed simp
qed

text \<open>
  C24 (a miss extracts into an emptied directory and commits it). A call that
  finds no complete entry and succeeds fetched its URL once, extracted the
  archive into the entry's directory after emptying it, and the committed
  entry holds exactly what that extraction wrote.
\<close>

theorem download_and_extract_miss_result:
  assumes "fs_wf (w_disk w)" and "valid_key key"
    and "\<not> cache_is_complete root key (w_disk w)"
    and "download_and_extract net unzip url root key proxy f w = (Inr dir, w')"
  shows "\<exists>a d1 d2. net proxy url = Some a \<and> w_fetched w' = w_fetched w @ [url]
           \<and> (\<forall>r. map_of d1 (dir @ r) = (if r = [] then Some Dir else None))
           \<and> archive_extract unzip a f dir d1 = Inr d2
           \<and> cache_view root (w_disk w') key = Some (\<lambda>r. map_of d2 (dir @ r))"
proof -
  have dir: "dir = cache_dir root key"
    using download_and_extract_Inr [OF assms(4)] by simp
  obtain d1 where r: "cache_reserve root key (w_disk w) = Inr (False, dir, d1)"
    using assms(3,4) dir by (auto simp: download_and_extract_def cache_reserve_def split: sum.splits)
  have empty: "\<forall>r. map_of d1 (dir @ r) = (if r = [] then Some Dir else None)"
    using cache_reserve_miss [OF r] by auto
  obtain a d2 where a: "net proxy url = Some a" and x: "archive_extract unzip a f dir d1 = Inr d2"
    and c: "cache_commit root key d2 = Inr (w_disk w')" and fe: "w_fetched w' = w_fetched w @ [url]"
    using download_and_extract_miss_Inr [OF assms(4) r] by blast
  have "\<forall>r. map_of (w_disk w') (dir @ r) = map_of d2 (dir @ r)"
    using c assms(2) dir
    by (auto simp: cache_commit_def cache_marker_def cache_dir_def valid_key_def put_file_def
                   strict_prefix_def prefix_def dest!: fs_write_file_Inr)
  then have "cache_view root (w_disk w') key = Some (\<lambda>r. map_of d2 (dir @ r))"
    using download_and_extract_Inr [OF assms(4)] by (simp add: cache_view_def fun_eq_iff dir)
  then show ?thesis using a x fe empty by blast
qed

text \<open>
  C30 (refinement of the abstract store). Every successful call is the
  abstract operation \<open>abs_download\<close> on the store read off the disk: the
  directory it returns holds the entry the abstract store returns, and the
  store after the call is the abstract store after the operation, for the
  tree the call extracted.
\<close>

theorem download_and_extract_refines:
  assumes wf: "fs_wf (w_disk w)" and vk: "valid_key key"
    and run: "download_and_extract net unzip url root key proxy f w = (Inr dir, w')"
  shows "\<exists>t. ((\<lambda>r. map_of (w_disk w') (dir @ r)), cache_abs root (w_disk w'))
               = abs_download (cache_abs root (w_disk w)) key t"
proof (cases "cache_is_complete root key (w_disk w)")
  case True
  have "(Inr dir, w') = (Inr (cache_dir root key), w)"
    using run download_and_extract_hit [OF True, of net unzip url proxy f] by simp
  then have "w' = w" and "dir = cache_dir root key" by simp_all
  then show ?thesis
    using True vk by (simp add: abs_download_def cache_abs_def cache_view_def)
next
  case False
  have dir: "dir = cache_dir root key"
    using download_and_extract_Inr [OF run] by simp
  obtain d1 where r: "cache_reserve root key (w_disk w) = Inr (False, dir, d1)"
    using False run dir by (auto simp: download_and_extract_def cache_reserve_def split: sum.splits)
  obtain a d2 where x: "archive_extract unzip a f dir d1 = Inr d2"
    and c: "cache_commit root key d2 = Inr (w_disk w')"
    using download_and_extract_miss_Inr [OF run r] by blast
  have t: "touches_only (cache_dir root key) (map_of (w_disk w)) (map_of d2)"
    using miss_extract_touches [OF wf r [unfolded dir], of unzip a f] x dir by simp
  let ?t = "\<lambda>r. map_of d2 (dir @ r)"
  have view: "cache_view root (w_disk w') key = Some ?t"
    using cache_commit_view [OF c vk] dir by simp
  have others: "cache_abs root (w_disk w') k = cache_abs root (w_disk w) k" if "k \<noteq> key" for k
    using cache_commit_other_key [OF c _ that] cache_view_other_key [OF t vk that]
    by (simp add: cache_abs_def)
  have "cache_abs root (w_disk w') = (cache_abs root (w_disk w))(key \<mapsto> ?t)"
    using view others vk by (auto simp: cache_abs_def fun_eq_iff)
  moreover have "(\<lambda>r. map_of (w_disk w') (dir @ r)) = ?t"
    using view dir by (simp add: cache_view_def split: if_splits)
  moreover have "cache_abs root (w_disk w) key = None"
    using False by (simp add: cache_abs_def cache_view_def)
  ultimately show ?thesis by (auto simp: abs_download_def)
qed

section \<open>Witnesses\<close>

text \<open>A one-file archive served for every URL, unpacked into the cache \<open>cache/k\<close>.\<close>

theorem download_and_extract_idempotent_witness:
  "download_and_extract (\<lambda>_ _. Some [1]) (\<lambda>_. Some [ArchiveEntry ''a/x.txt'' False [120]]) ''u1''
      [''cache''] ''k'' () (\<lambda>p _. Inr (Some p)) \<lparr>w_disk = [([], Dir)], w_fetched = []\<rparr>
     = (Inr [''cache'', ''k''],
        \<lparr>w_disk = [([], Dir), ([''cache''], Dir), ([''cache'', ''k''], Dir), ([''cache'', ''k'', ''a''], Dir),
                   ([''cache'', ''k'', ''a'', ''x.txt''], File [120]), ([''cache'', ''.complete''], Dir),
                   ([''cache'', ''.complete'', ''k''], File [])],
         w_fetched = [''u1'']\<rparr>)
   \<and> download_and_extract (\<lambda>_ _. None) (\<lambda>_. None) ''u2'' [''cache''] ''k'' () (\<lambda>_ _. Inr None)
      \<lparr>w_disk = [([], Dir), ([''cache''], Dir), ([''cache'', ''k''], Dir), ([''cache'', ''k'', ''a''], Dir),
                 ([''cache'', ''k'', ''a'', ''x.txt''], File [120]), ([''cache'', ''.complete''], Dir),
                 ([''cache'', ''.complete'', ''k''], File [])],
       w_fetched = [''u1'']\<rparr>
     = (Inr [''cache'', ''k''],
        \<lparr>w_disk = [([], Dir), ([''cache''], Dir), ([''cache'', ''k''], Dir), ([''cache'', ''k'', ''a''], Dir),
                   ([''cache'', ''k'', ''a'', ''x.txt''], File [120]), ([''cache'', ''.complete''], Dir),
                   ([''cache'', ''.complete'', ''k''], File [])],
         w_fetched = [''u1'']\<rparr>)"
proof -
  have h: "download_and_extract (\<lambda>_ _. Some [1]) (\<lambda>_. Some [ArchiveEntry ''a/x.txt'' False [120]]) ''u1''
      [''cache''] ''k'' () (\<lambda>p _. Inr (Some p)) \<lparr>w_disk = [([], Dir)], w_fetched = []\<rparr>
     = (Inr [''cache'', ''k''],
        \<lparr>w_disk = [([], Dir), ([''cache''], Dir), ([''cache'', ''k''], Dir), ([''cache'', ''k'', ''a''], Dir),
                   ([''cache'', ''k'', ''a'', ''x.txt''], File [120]), ([''cache'', ''.complete''], Dir),
                   ([''cache'', ''.complete'', ''k''], File [])],
         w_fetched = [''u1'']\<rparr>)"
    by (simp add: pipeline_eval)
  show ?thesis
    using h download_and_extract_idempotent [OF h, of "\<lambda>_ _. None" "\<lambda>_. None" "''u2''" "()" "\<lambda>_ _. Inr None"]
    by simp
qed

theorem download_and_extract_failure_atomic_witness:
  "download_and_extract (\<lambda>_ _. Some [1])
      (\<lambda>_. Some [ArchiveEntry ''a/x.txt'' False [120], ArchiveEntry ''/etc/passwd'' False [0]]) ''u1''
      [''cache''] ''k'' () (\<lambda>p _. Inr (Some p)) \<lparr>w_disk = [([], Dir)], w_fetched = []\<rparr>
     = (Inl (PathTraversalError ''/etc/passwd''),
        \<lparr>w_disk = [([], Dir), ([''cache''], Dir), ([''cache'', ''k''], Dir), ([''cache'', ''k'', ''a''], Dir),
                   ([''cache'', ''k'', ''a'', ''x.txt''], File [120])],
         w_fetched = [''u1'']\<rparr>)
   \<and> cache_view [''cache''] [([], Dir), ([''cache''], Dir), ([''cache'', ''k''], Dir), ([''cache'', ''k'', ''a''], Dir),
                   ([''cache'', ''k'', ''a'', ''x.txt''], File [120])]
     = cache_view [''cache''] [([], Dir)]"
proof -
  have h: "download_and_extract (\<lambda>_ _. Some [1])
      (\<lambda>_. Some [ArchiveEntry ''a/x.txt'' False [120], ArchiveEntry ''/etc/passwd'' False [0]]) ''u1''
      [''cache''] ''k'' () (\<lambda>p _. Inr (Some p)) \<lparr>w_disk = [([], Dir)], w_fetched = []\<rparr>
     = (Inl (PathTraversalError ''/etc/passwd''),
        \<lparr>w_disk = [([], Dir), ([''cache''], Dir), ([''cache'', ''k''], Dir), ([''cache'', ''k'', ''a''], Dir),
                   ([''cache'', ''k'', ''a'', ''x.txt''], File [120])],
         w_fetched = [''u1'']\<rparr>)"
    by (simp add: pipeline_eval)
  have wf: "fs_wf (w_disk \<lparr>w_disk = [([], Dir)], w_fetched = []\<rparr>)" by (simp add: fs_wf_def)
  have k: "valid_key ''k''" by (simp add: valid_key_def)
  show ?thesis
    using h download_and_extract_failure_atomic [OF wf k h] by simp
qed

theorem download_and_extract_miss_result_witness:
  "\<exists>a d1 d2. (\<lambda>_ _. Some [1]) () ''u1'' = Some a \<and> [''u1''] = [] @ [''u1'']
     \<and> (\<forall>r. map_of d1 ([''cache'', ''k''] @ r) = (if r = [] then Some Dir else None))
     \<and> archive_extract (\<lambda>_. Some [ArchiveEntry ''a/x.txt'' False [120]]) a (\<lambda>p _. Inr (Some p)) [''cache'', ''k''] d1 = Inr d2
     \<and> cache_view [''cache''] [([], Dir), ([''cache''], Dir), ([''cache'', ''k''], Dir), ([''cache'', ''k'', ''a''], Dir),
                   ([''cache'', ''k'', ''a'', ''x.txt''], File [120]), ([''cache'', ''.complete''], Dir),
                   ([''cache'', ''.complete'', ''k''], File [])] ''k''
         = Some (\<lambda>r. map_of d2 ([''cache'', ''k''] @ r))"
proof -
  have h: "download_and_extract (\<lambda>_ _. Some [1]) (\<lambda>_. Some [ArchiveEntry ''a/x.txt'' False [120]]) ''u1''
      [''cache''] ''k'' () (\<lambda>p _. Inr (Some p)) \<lparr>w_disk = [([], Dir)], w_fetched = []\<rparr>
     = (Inr [''cache'', ''k''],
        \<lparr>w_disk = [([], Dir), ([''cache''], Dir), ([''cache'', ''k''], Dir), ([''cache'', ''k'', ''a''], Dir),
                   ([''cache'', ''k'', ''a'', ''x.txt''], File [120]), ([''cache'', ''.complete''], Dir),
                   ([''cache'', ''.complete'', ''k''], File [])],
         w_fetched = [''u1'']\<rparr>)"
    by (simp add: pipeline_eval)
  have wf: "fs_wf (w_disk \<lparr>w_disk = [([], Dir)], w_fetched = []\<rparr>)" by (simp add: fs_wf_def)
  have k: "valid_key ''k''" by (simp add: valid_key_def)
  have nc: "\<not> cache_is_complete [''cache''] ''k'' (w_disk \<lparr>w_disk = [([], Dir)], w_fetched = []\<rparr>)"
    by (simp add: cache_is_complete_def cache_marker_def)
  show ?thesis
    using download_and_extract_miss_result [OF wf k nc h] by simp
qed

theorem download_and_extract_refines_witness:
  "download_and_extract (\<lambda>_ _. Some [1]) (\<lambda>_. Some [ArchiveEntry ''a/x.txt'' False [120]]) ''u1''
      [''cache''] ''k'' () (\<lambda>p _. Inr (Some p)) \<lparr>w_disk = [([], Dir)], w_fetched = []\<rparr>
     = (Inr [''cache'', ''k''], \<lparr>w_disk = [([], Dir), ([''cache''], Dir), ([''cache'', ''k''], Dir), ([''cache'', ''k'', ''a''], Dir),
                   ([''cache'', ''k'', ''a'', ''x.txt''], File [120]), ([''cache'', ''.complete''], Dir),
                   ([''cache'', ''.complete'', ''k''], File [])],
         w_fetched = [''u1'']\<rparr>)
   \<and> (\<exists>t. ((\<lambda>r. map_of (w_disk \<lparr>w_disk = [([], Dir), ([''cache''], Dir), ([''cache'', ''k''], Dir), ([''cache'', ''k'', ''a''], Dir),
                   ([''cache'', ''k'', ''a'', ''x.txt''], File [120]), ([''cache'', ''.complete''], Dir),
                   ([''cache'', ''.complete'', ''k''], File [])],
         w_fetched = [''u1'']\<rparr>) ([''cache'', ''k''] @ r)), cache_abs [''cache''] (w_disk \<lparr>w_disk = [([], Dir), ([''cache''], Dir), ([''cache'', ''k''], Dir), ([''cache'', ''k'', ''a''], Dir),
                   ([''cache'', ''k'', ''a'', ''x.txt''], File [120]), ([''cache'', ''.complete''], Dir),
                   ([''cache'', ''.complete'', ''k''], File [])],
         w_fetched = [''u1'']\<rparr>))
           = abs_download (cache_abs [''cache''] [([], Dir)]) ''k'' t)"
proof -
  have h: "download_and_extract (\<lambda>_ _. Some [1]) (\<lambda>_. Some [ArchiveEntry ''a/x.txt'' False [120]]) ''u1''
      [''cache''] ''k'' () (\<lambda>p _. Inr (Some p)) \<lparr>w_disk = [([], Dir)], w_fetched = []\<rparr>
     = (Inr [''cache'', ''k''], \<lparr>w_disk = [([], Dir), ([''cache''], Dir), ([''cache'', ''k''], Dir), ([''cache'', ''k'', ''a''], Dir),
                   ([''cache'', ''k'', ''a'', ''x.txt''], File [120]), ([''cache'', ''.complete''], Dir),
                   ([''cache'', ''.complete'', ''k''], File [])],
         w_fetched = [''u1'']\<rparr>)"
    by (simp add: pipeline_eval)
  have wf: "fs_wf (w_disk \<lparr>w_disk = [([], Dir)], w_fetched = []\<rparr>)" by (simp add: fs_wf_def)
  have k: "valid_key ''k''" by (simp add: valid_key_def)
  show ?thesis
    using h download_and_extract_refines [OF wf k h] by simp
qed

end
