(* ===== verification/Transformer.thy ===== *)
theory Transformer
  imports FileSystem
begin

text \<open>
  \<open>transformCodebase\<close> (specification, section 4.5; the code lives in
  \<open>src/scripts/tools\<close>, outside \<open>src/\<close>): for every regular file below the
  source directory, in the order the directory crawl lists them, read it, pass
  its relative path and bytes to the caller's transform, and write the bytes
  the transform returns (the original ones for \<open>unchanged\<close>, \<open>None\<close> here) at
  the same relative path below the destination, creating directories as
  needed. A transform that raises aborts the walk. The lemmas describe the
  result in closed form (\<open>transformed_tree\<close>), independent of the crawl order.
\<close>

type_synonym file_transform = "path \<Rightarrow> bytes \<Rightarrow> build_error + bytes option"

definition transform_file :: "file_transform \<Rightarrow> path \<Rightarrow> path \<Rightarrow> path \<Rightarrow> disk \<Rightarrow> build_error + disk" where
  "transform_file tr src dest rel d =
     (case fs_read_file d (src @ rel) of
        Inl e \<Rightarrow> Inl e
      | Inr source_code \<Rightarrow>
          (case tr rel source_code of
             Inl e \<Rightarrow> Inl e
           | Inr None \<Rightarrow> fs_write_file (dest @ rel) source_code d
           | Inr (Some modified) \<Rightarrow> fs_write_file (dest @ rel) modified d))"

fun transform_files :: "file_transform \<Rightarrow> path \<Rightarrow> path \<Rightarrow> path list \<Rightarrow> disk \<Rightarrow> build_error + disk" where
  "transform_files tr src dest [] d = Inr d"
| "transform_files tr src dest (rel # rels) d =
     (case transform_file tr src dest rel d of
        Inl e \<Rightarrow> Inl e
      | Inr d' \<Rightarrow> transform_files tr src dest rels d')"

definition transform_codebase :: "file_transform \<Rightarrow> path \<Rightarrow> path \<Rightarrow> disk \<Rightarrow> build_error + disk" where
  "transform_codebase tr src dest d = transform_files tr src dest (fs_files_under d src) d"

section \<open>The result in closed form\<close>

text \<open>The bytes written for \<open>rel\<close>, read from the map \<open>m\<close>.\<close>

definition tf_output :: "file_transform \<Rightarrow> path \<Rightarrow> path \<Rightarrow> (path \<rightharpoonup> fnode) \<Rightarrow> build_error + bytes" where
  "tf_output tr src rel m =
     (case m (src @ rel) of
        Some (File b) \<Rightarrow> (case tr rel b of Inl e \<Rightarrow> Inl e | Inr None \<Rightarrow> Inr b | Inr (Some b') \<Rightarrow> Inr b')
      | Some Dir \<Rightarrow> Inl (IOError ''EISDIR'')
      | None \<Rightarrow> Inl (IOError ''ENOENT''))"

definition tf_ok :: "file_transform \<Rightarrow> path \<Rightarrow> path \<Rightarrow> (path \<rightharpoonup> fnode) \<Rightarrow> path \<Rightarrow> bool" where
  "tf_ok tr src dest m rel \<longleftrightarrow> \<not> isl (tf_output tr src rel m) \<and> can_write (dest @ rel) m"

definition transformed_tree ::
  "file_transform \<Rightarrow> path \<Rightarrow> path \<Rightarrow> path set \<Rightarrow> (path \<rightharpoonup> fnode) \<Rightarrow> (path \<rightharpoonup> fnode)" where
  "transformed_tree tr src dest R m =
     (\<lambda>q. if \<exists>r\<in>R. q = dest @ r then Some (File (projr (tf_output tr src (drop (length dest) q) m)))
          else if \<exists>r\<in>R. strict_prefix q (dest @ r) then Some Dir else m q)"

definition apart :: "path \<Rightarrow> path \<Rightarrow> bool" where
  "apart src dest \<longleftrightarrow> \<not> prefix src dest \<and> \<not> prefix dest src"

definition prefix_free :: "path set \<Rightarrow> bool" where
  "prefix_free R \<longleftrightarrow> (\<forall>r\<in>R. \<forall>r'\<in>R. \<not> strict_prefix r r')"

fun file_bytes :: "fnode option \<Rightarrow> bytes option" where
  "file_bytes (Some (File b)) = Some b"
| "file_bytes _ = None"

section \<open>Lemmas\<close>

lemma transform_file_eq:
  "transform_file tr src dest rel d =
     (case tf_output tr src rel (map_of d) of Inl e \<Rightarrow> Inl e | Inr b \<Rightarrow> fs_write_file (dest @ rel) b d)"
  by (simp add: transform_file_def tf_output_def fs_read_file_def
           split: option.splits fnode.splits sum.splits)

lemma can_write_iff:
  "can_write p m \<longleftrightarrow> p \<noteq> [] \<and> (\<forall>q. strict_prefix q p \<longrightarrow> dir_ok m q) \<and> m p \<noteq> Some Dir"
  unfolding can_write_def using strict_prefix_prefixes_butlast by blast

lemma apart_put_file_src:
  assumes "apart src dest"
  shows "put_file (dest @ r) b m (src @ r') = m (src @ r')"
proof -
  have "\<not> prefix (src @ r') (dest @ r)"
    using assms prefix_same_cases [of src "dest @ r" dest]
    by (auto simp: apart_def dest: append_prefixD)
  then show ?thesis by (auto simp: put_file_def prefix_order.less_imp_le)
qed

lemma tf_output_put_file:
  "apart src dest \<Longrightarrow> tf_output tr src r' (put_file (dest @ r) b m) = tf_output tr src r' m"
  by (simp add: tf_output_def apart_put_file_src)

lemma can_write_put_file:
  assumes "can_write (dest @ r) m" and "\<not> strict_prefix r r'" and "\<not> strict_prefix r' r"
  shows "can_write (dest @ r') (put_file (dest @ r) b m) = can_write (dest @ r') m"
proof -
  have anc: "\<And>q. strict_prefix q (dest @ r') \<Longrightarrow> dir_ok (put_file (dest @ r) b m) q = dir_ok m q"
    using assms by (auto simp: put_file_def can_write_iff dir_ok_def)
  have "put_file (dest @ r) b m (dest @ r') = Some Dir \<longleftrightarrow> m (dest @ r') = Some Dir"
    using assms by (auto simp: put_file_def can_write_iff)
  then show ?thesis
    using anc unfolding can_write_iff by auto
qed

lemma tf_ok_put_file:
  assumes "apart src dest" and "can_write (dest @ r) m"
    and "\<not> strict_prefix r r'" and "\<not> strict_prefix r' r"
  shows "tf_ok tr src dest (put_file (dest @ r) b m) r' = tf_ok tr src dest m r'"
  using assms by (simp add: tf_ok_def tf_output_put_file can_write_put_file)

lemma transformed_tree_insert:
  assumes "apart src dest" and "\<forall>r'\<in>R. \<not> strict_prefix r r' \<and> \<not> strict_prefix r' r"
    and "tf_output tr src r m = Inr b"
  shows "transformed_tree tr src dest (insert r R) m
           = transformed_tree tr src dest R (put_file (dest @ r) b m)"
  unfolding transformed_tree_def tf_output_put_file [OF assms(1)]
  using assms(2,3) by (auto simp: put_file_def fun_eq_iff)

lemma transformed_tree_apart:
  assumes "apart src dest"
  shows "transformed_tree tr src dest R m (src @ r) = m (src @ r)"
proof -
  have np: "\<not> prefix (src @ r) (dest @ r')" for r'
    using assms prefix_same_cases [of src "dest @ r'" dest]
    by (auto simp: apart_def dest: append_prefixD)
  have "\<forall>r'. src @ r \<noteq> dest @ r'" and "\<forall>r'. \<not> strict_prefix (src @ r) (dest @ r')"
    using np by (metis prefix_order.refl, metis prefix_order.less_imp_le)
  then show ?thesis
    by (simp add: transformed_tree_def)
qed

lemma files_under_prefix_free: "fs_wf d \<Longrightarrow> prefix_free (set (fs_files_under d dir))"
  unfolding prefix_free_def set_fs_files_under
  using files_prefix_free [of d dir] by (auto simp: prefix_order.less_le)

lemma transform_files_spec:
  assumes "apart src dest" and "prefix_free (set rs)"
  shows "case transform_files tr src dest rs d of
           Inr d' \<Rightarrow> (\<forall>r\<in>set rs. tf_ok tr src dest (map_of d) r)
                     \<and> map_of d' = transformed_tree tr src dest (set rs) (map_of d)
         | Inl _ \<Rightarrow> \<not> (\<forall>r\<in>set rs. tf_ok tr src dest (map_of d) r)"
  using assms(2)
proof (induction rs arbitrary: d)
  case Nil
  then show ?case by (simp add: transformed_tree_def fun_eq_iff)
next
  case (Cons r rs)
  let ?m = "map_of d"
  have pf: "prefix_free (set rs)" using Cons.prems by (simp add: prefix_free_def)
  have sep: "\<forall>r'\<in>set rs. \<not> strict_prefix r r' \<and> \<not> strict_prefix r' r"
    using Cons.prems by (simp add: prefix_free_def)
  show ?case
  proof (cases "tf_output tr src r ?m")
    case (Inl e)
    then show ?thesis by (simp add: transform_file_eq tf_ok_def)
  next
    case (Inr b)
    note out = Inr
    show ?thesis
    proof (cases "fs_write_file (dest @ r) b d")
      case (Inl e)
      then have "\<not> can_write (dest @ r) ?m" using fs_write_file_ok [of "dest @ r" b d] by auto
      then show ?thesis using out Inl by (simp add: transform_file_eq tf_ok_def)
    next
      case (Inr d1)
      have cw: "can_write (dest @ r) ?m" using Inr fs_write_file_ok by blast
      have m1: "map_of d1 = put_file (dest @ r) b ?m" using Inr by (rule fs_write_file_Inr)
      have ok_eq: "\<forall>r'\<in>set rs. tf_ok tr src dest (map_of d1) r' = tf_ok tr src dest ?m r'"
        using sep tf_ok_put_file [OF assms(1) cw] m1 by simp
      have tree: "transformed_tree tr src dest (set (r # rs)) ?m
                    = transformed_tree tr src dest (set rs) (map_of d1)"
        using transformed_tree_insert [OF assms(1) sep out] m1 by simp
      have ok_r: "tf_ok tr src dest ?m r" using cw out by (simp add: tf_ok_def)
      from Cons.IH [OF pf, of d1] show ?thesis
        using out Inr ok_eq tree ok_r by (auto simp: transform_file_eq split: sum.splits)
    qed
  qed
qed

lemma transform_files_Inr_tree:
  assumes "fs_wf d" and "apart src dest" and "set rs = set (fs_files_under d src)"
    and "transform_files tr src dest rs d = Inr d'"
  shows "(\<forall>r\<in>set rs. tf_ok tr src dest (map_of d) r)
         \<and> map_of d' = transformed_tree tr src dest (set rs) (map_of d)"
  using transform_files_spec [OF assms(2), of rs tr d] assms(4)
        files_under_prefix_free [OF assms(1), of src] assms(3)
  by simp

section \<open>Properties\<close>

text \<open>
  C25 (order independence). The crawl's order does not matter: if the walk
  succeeds for one listing of the source files, it succeeds for every other
  listing of the same files and builds the same tree, whenever the source and
  destination directories are apart (neither lies inside the other).
\<close>

theorem transform_files_order_independent:
  assumes "fs_wf d" and "apart src dest"
    and "set rs = set (fs_files_under d src)" and "set rs' = set (fs_files_under d src)"
    and "transform_files tr src dest rs d = Inr d1"
  shows "\<exists>d2. transform_files tr src dest rs' d = Inr d2 \<and> map_of d2 = map_of d1"
proof -
  have one: "(\<forall>r\<in>set rs. tf_ok tr src dest (map_of d) r)
             \<and> map_of d1 = transformed_tree tr src dest (set rs) (map_of d)"
    using transform_files_Inr_tree [OF assms(1,2,3,5)] .
  have "prefix_free (set rs')"
    using files_under_prefix_free [OF assms(1), of src] assms(4) by simp
  from transform_files_spec [OF assms(2) this, of tr d] one assms(3,4)
  show ?thesis by (auto split: sum.splits)
qed

text \<open>
  C26 (the identity transform copies the tree). With a transform that leaves
  every file unchanged, into a destination that does not exist yet, the
  regular files below the destination are exactly those below the source,
  byte for byte, at the same relative paths.
\<close>

theorem transform_codebase_identity:
  assumes "fs_wf d" and "apart src dest" and "map_of d src = Some Dir"
    and "\<forall>r. map_of d (dest @ r) = None"
    and "transform_codebase (\<lambda>_ _. Inr None) src dest d = Inr d'"
  shows "\<forall>r. file_bytes (map_of d' (dest @ r)) = file_bytes (map_of d (src @ r))"
proof
  fix r
  let ?F = "set (fs_files_under d src)"
  have tree: "map_of d' = transformed_tree (\<lambda>_ _. Inr None) src dest ?F (map_of d)"
    using transform_files_Inr_tree [OF assms(1,2) refl] assms(5)
    by (simp add: transform_codebase_def)
  show "file_bytes (map_of d' (dest @ r)) = file_bytes (map_of d (src @ r))"
  proof (cases "r \<in> ?F")
    case True
    then obtain b where "map_of d (src @ r) = Some (File b)"
      by (auto simp: set_fs_files_under is_file_iff)
    then show ?thesis
      using True by (auto simp: tree transformed_tree_def tf_output_def)
  next
    case False
    then have "file_bytes (map_of d (src @ r)) = None"
      using assms(3) by (cases "map_of d (src @ r)" rule: file_bytes.cases)
                        (auto simp: set_fs_files_under)
    then show ?thesis
      using False assms(4) by (auto simp: tree transformed_tree_def)
  qed
qed

section \<open>Witnesses\<close>

text \<open>A source tree \<open>src\<close> holding \<open>a\<close> and \<open>b/c\<close>, transformed into \<open>dst\<close>.\<close>

theorem transform_files_order_independent_witness:
  "transform_files (\<lambda>_ b. Inr (Some (b @ [10]))) [''src''] [''dst''] [[''a''], [''b'', ''c'']] [([], Dir), ([''src''], Dir), ([''src'', ''a''], File [1]), ([''src'', ''b''], Dir), ([''src'', ''b'', ''c''], File [2])]
     = Inr [([], Dir), ([''src''], Dir), ([''src'', ''a''], File [1]), ([''src'', ''b''], Dir),
            ([''src'', ''b'', ''c''], File [2]), ([''dst''], Dir), ([''dst'', ''a''], File [1, 10]),
            ([''dst'', ''b''], Dir), ([''dst'', ''b'', ''c''], File [2, 10])]
   \<and> (\<exists>d2. transform_files (\<lambda>_ b. Inr (Some (b @ [10]))) [''src''] [''dst''] [[''b'', ''c''], [''a'']] [([], Dir), ([''src''], Dir), ([''src'', ''a''], File [1]), ([''src'', ''b''], Dir), ([''src'', ''b'', ''c''], File [2])] = Inr d2
       \<and> map_of d2 = map_of [([], Dir), ([''src''], Dir), ([''src'', ''a''], File [1]), ([''src'', ''b''], Dir),
            ([''src'', ''b'', ''c''], File [2]), ([''dst''], Dir), ([''dst'', ''a''], File [1, 10]),
            ([''dst'', ''b''], Dir), ([''dst'', ''b'', ''c''], File [2, 10])])"
proof -
  have wf: "fs_wf [([], Dir), ([''src''], Dir), ([''src'', ''a''], File [1]), ([''src'', ''b''], Dir), ([''src'', ''b'', ''c''], File [2])]" by (simp add: fs_wf_def)
  have ap: "apart [''src''] [''dst'']" by (simp add: apart_def)
  have l1: "set [[''a''], [''b'', ''c'']] = set (fs_files_under [([], Dir), ([''src''], Dir), ([''src'', ''a''], File [1]), ([''src'', ''b''], Dir), ([''src'', ''b'', ''c''], File [2])] [''src''])"
    by (simp add: fs_files_under_def)
  have l2: "set [[''b'', ''c''], [''a'']] = set (fs_files_under [([], Dir), ([''src''], Dir), ([''src'', ''a''], File [1]), ([''src'', ''b''], Dir), ([''src'', ''b'', ''c''], File [2])] [''src''])"
    by (auto simp: fs_files_under_def)
  have h: "transform_files (\<lambda>_ b. Inr (Some (b @ [10]))) [''src''] [''dst''] [[''a''], [''b'', ''c'']] [([], Dir), ([''src''], Dir), ([''src'', ''a''], File [1]), ([''src'', ''b''], Dir), ([''src'', ''b'', ''c''], File [2])]
     = Inr [([], Dir), ([''src''], Dir), ([''src'', ''a''], File [1]), ([''src'', ''b''], Dir),
            ([''src'', ''b'', ''c''], File [2]), ([''dst''], Dir), ([''dst'', ''a''], File [1, 10]),
            ([''dst'', ''b''], Dir), ([''dst'', ''b'', ''c''], File [2, 10])]"
    by (simp add: transform_file_def fs_read_file_def fs_write_file_def fs_mkdir_p_def)
  show ?thesis
    using h transform_files_order_independent [OF wf ap l1 l2 h] by simp
qed

theorem transform_codebase_identity_witness:
  "transform_codebase (\<lambda>_ _. Inr None) [''src''] [''dst''] [([], Dir), ([''src''], Dir), ([''src'', ''a''], File [1]), ([''src'', ''b''], Dir), ([''src'', ''b'', ''c''], File [2])]
     = Inr [([], Dir), ([''src''], Dir), ([''src'', ''a''], File [1]), ([''src'', ''b''], Dir),
            ([''src'', ''b'', ''c''], File [2]), ([''dst''], Dir), ([''dst'', ''a''], File [1]),
            ([''dst'', ''b''], Dir), ([''dst'', ''b'', ''c''], File [2])]
   \<and> file_bytes (map_of [([], Dir), ([''src''], Dir), ([''src'', ''a''], File [1]), ([''src'', ''b''], Dir),
            ([''src'', ''b'', ''c''], File [2]), ([''dst''], Dir), ([''dst'', ''a''], File [1]),
            ([''dst'', ''b''], Dir), ([''dst'', ''b'', ''c''], File [2])] [''dst'', ''b'', ''c''])
       = file_bytes (map_of [([], Dir), ([''src''], Dir), ([''src'', ''a''], File [1]), ([''src'', ''b''], Dir), ([''src'', ''b'', ''c''], File [2])] [''src'', ''b'', ''c''])"
proof -
  have wf: "fs_wf [([], Dir), ([''src''], Dir), ([''src'', ''a''], File [1]), ([''src'', ''b''], Dir), ([''src'', ''b'', ''c''], File [2])]" by (simp add: fs_wf_def)
  have ap: "apart [''src''] [''dst'']" by (simp add: apart_def)
  have s: "map_of [([], Dir), ([''src''], Dir), ([''src'', ''a''], File [1]), ([''src'', ''b''], Dir), ([''src'', ''b'', ''c''], File [2])] [''src''] = Some Dir" by simp
  have fresh: "\<forall>r. map_of [([], Dir), ([''src''], Dir), ([''src'', ''a''], File [1]), ([''src'', ''b''], Dir), ([''src'', ''b'', ''c''], File [2])] ([''dst''] @ r) = None" by simp
  have h: "transform_codebase (\<lambda>_ _. Inr None) [''src''] [''dst''] [([], Dir), ([''src''], Dir), ([''src'', ''a''], File [1]), ([''src'', ''b''], Dir), ([''src'', ''b'', ''c''], File [2])]
     = Inr [([], Dir), ([''src''], Dir), ([''src'', ''a''], File [1]), ([''src'', ''b''], Dir),
            ([''src'', ''b'', ''c''], File [2]), ([''dst''], Dir), ([''dst'', ''a''], File [1]),
            ([''dst'', ''b''], Dir), ([''dst'', ''b'', ''c''], File [2])]"
    by (simp add: transform_codebase_def fs_files_under_def transform_file_def fs_read_file_def
                  fs_write_file_def fs_mkdir_p_def)
  show ?thesis
    using h transform_codebase_identity [OF wf ap s fresh h] by (simp only: append_Cons append_Nil)
qed

end
