(* ===== verification/Build.thy ===== *)
theory Build
  imports EmailThemeFilter MessagesBanner KeycloakVersion PackageJson Orchestrator Transformer
begin

text \<open>
  The script of \<open>src/scripts/build.ts\<close> as one function on a world: the
  disk, the URLs fetched and the lines written to standard output. It reads
  and checks \<open>package.json\<close> (lines 18--60; \<open>JSON.parse\<close> is the parameter
  \<open>json_parse\<close>), derives the Keycloak version (62--66), downloads and
  extracts the email theme through the cache with the \<open>onArchiveFile\<close>
  callback (68--87), transforms the extracted tree into
  \<open>dist/keycloak-theme/email\<close> (89--134), writes \<open>dist/package.json\<close>
  (136--157; \<open>JSON.stringify\<close> is the parameter \<open>json_stringify\<close>), copies
  \<open>README.md\<close> and \<open>LICENSE\<close> (159--164) and logs the version (166). The
  repository root \<open>getThisCodebaseRootDirPath()\<close> is the parameter \<open>root\<close>,
  the process's working directory the parameter \<open>cwd\<close>.
\<close>

record build_world = world +
  w_stdout :: "string list"

text \<open>The callback \<open>onArchiveFile\<close> as an entry filter: it never raises.\<close>

definition email_filter :: "string \<Rightarrow> entry_filter" where
  "email_filter cwd file_relative_path is_directory = Inr (on_archive_file cwd file_relative_path)"

text \<open>The \<open>transformSourceCode\<close> callback: it always returns \<open>{ modifiedSourceCode }\<close>.\<close>

definition build_transform :: file_transform where
  "build_transform file_relative_path source_code =
     (case transform_source_code (join_with ''/'' file_relative_path) source_code of
        Inl e \<Rightarrow> Inl e
      | Inr modified \<Rightarrow> Inr (Some modified))"

definition cache_dir_path :: "path \<Rightarrow> path" where
  "cache_dir_path root = root @ [''node_modules'', ''.cache'', ''scripts'']"

definition dist_email_dir :: "path \<Rightarrow> path" where
  "dist_email_dir root = root @ [''dist'', ''keycloak-theme'', ''email'']"

definition build_main ::
  "'proxy network \<Rightarrow> container \<Rightarrow> (codepoints \<Rightarrow> json option) \<Rightarrow> (json \<Rightarrow> codepoints)
   \<Rightarrow> string \<Rightarrow> path \<Rightarrow> 'proxy \<Rightarrow> build_world \<Rightarrow> (build_error + unit) \<times> build_world" where
  "build_main net unzip json_parse json_stringify cwd root proxy w =
     (case fs_read_file (w_disk w) (root @ [''package.json'']) of
        Inl e \<Rightarrow> (Inl e, w)
      | Inr raw \<Rightarrow>
     (case json_parse (utf8_decode raw) of
        None \<Rightarrow> (Inl SyntaxError, w)
      | Some package_json \<Rightarrow>
     (case parse_package_json package_json of
        Inl e \<Rightarrow> (Inl e, w)
      | Inr p \<Rightarrow>
     (let kc_version = keycloak_version (pkg_version p) in
      case download_and_extract net unzip (keycloak_themes_url kc_version) (cache_dir_path root)
             ''extract_email_theme'' proxy (email_filter cwd) w of
        (Inl e, w1) \<Rightarrow> (Inl e, w1)
      | (Inr extracted_dir_path, w1) \<Rightarrow>
     (let dist_dir_path = root @ [''dist''] in
      case transform_codebase build_transform extracted_dir_path (dist_email_dir root) (w_disk w1) of
        Inl e \<Rightarrow> (Inl e, w1)
      | Inr d2 \<Rightarrow>
     (case fs_write_file_sync (dist_dir_path @ [''package.json''])
             (utf8_encode (json_stringify (dist_package_json p))) d2 of
        Inl e \<Rightarrow> (Inl e, w1\<lparr>w_disk := d2\<rparr>)
      | Inr d3 \<Rightarrow>
     (case fs_copy_file (root @ [''README.md'']) (dist_dir_path @ [''README.md'']) d3 of
        Inl e \<Rightarrow> (Inl e, w1\<lparr>w_disk := d3\<rparr>)
      | Inr d4 \<Rightarrow>
     (case fs_copy_file (root @ [''LICENSE'']) (dist_dir_path @ [''LICENSE'']) d4 of
        Inl e \<Rightarrow> (Inl e, w1\<lparr>w_disk := d4\<rparr>)
      | Inr d5 \<Rightarrow>
          (Inr (), w1\<lparr>w_disk := d5,
                      w_stdout := w_stdout w1 @ [[CHR 0x0A, CHR 0x0A] @ ''Done for keycloak version ''
                                                 @ kc_version]\<rparr>)))))))))"

section \<open>Example inputs\<close>

text \<open>
  A small repository \<open>r\<close> with its descriptor, README and licence, and a jar
  with one file of the email theme and one of the login theme, used by the
  witnesses below.
\<close>

definition example_package_json :: json where
  "example_package_json =
     JObject [(''name'', JString ''keycloakify-emails''), (''version'', JString ''260005.0.1''),
              (''repository'', JObject []), (''license'', JString ''MIT''), (''author'', JString ''u''),
              (''homepage'', JString ''h''), (''keywords'', JArray [])]"

definition example_world :: build_world where
  "example_world =
     \<lparr>w_disk = [([], Dir), ([''r''], Dir), ([''r'', ''package.json''], File [123]),
                ([''r'', ''README.md''], File [1]), ([''r'', ''LICENSE''], File [2])],
      w_fetched = [], w_stdout = []\<rparr>"

definition example_archive :: "archive_entry list" where
  "example_archive = [ArchiveEntry ''theme/base/email/html/a.ftl'' False [2],
                      ArchiveEntry ''theme/base/login/x.ftl'' False [1]]"

text \<open>The same repository after an earlier build left \<open>old.ftl\<close> in the theme of \<open>dist\<close>.\<close>

definition example_stale_world :: build_world where
  "example_stale_world =
     example_world\<lparr>w_disk := w_disk example_world @
        [([''r'', ''dist''], Dir), ([''r'', ''dist'', ''keycloak-theme''], Dir),
         ([''r'', ''dist'', ''keycloak-theme'', ''email''], Dir),
         ([''r'', ''dist'', ''keycloak-theme'', ''email'', ''old.ftl''], File [7])]\<rparr>"

section \<open>Lemmas\<close>

abbreviation email_cache :: "path \<Rightarrow> path" where
  "email_cache root \<equiv> cache_dir (cache_dir_path root) ''extract_email_theme''"

lemma build_main_Inr:
  assumes "build_main net unzip json_parse json_stringify cwd root proxy w = (Inr (), w')"
  shows "\<exists>raw j p w1 d2 d3 d4. fs_read_file (w_disk w) (root @ [''package.json'']) = Inr raw
     \<and> json_parse (utf8_decode raw) = Some j \<and> parse_package_json j = Inr p
     \<and> download_and_extract net unzip (keycloak_themes_url (keycloak_version (pkg_version p)))
         (cache_dir_path root) ''extract_email_theme'' proxy (email_filter cwd) w = (Inr (email_cache root), w1)
     \<and> transform_codebase build_transform (email_cache root) (dist_email_dir root) (w_disk w1) = Inr d2
     \<and> fs_write_file_sync (root @ [''dist'', ''package.json''])
         (utf8_encode (json_stringify (dist_package_json p))) d2 = Inr d3
     \<and> fs_copy_file (root @ [''README.md'']) (root @ [''dist'', ''README.md'']) d3 = Inr d4
     \<and> fs_copy_file (root @ [''LICENSE'']) (root @ [''dist'', ''LICENSE'']) d4 = Inr (w_disk w')
     \<and> w_fetched w' = w_fetched w1
     \<and> w_stdout w' = w_stdout w1 @ [[CHR 0x0A, CHR 0x0A] @ ''Done for keycloak version ''
                                     @ keycloak_version (pkg_version p)]"
  using assms
  by (auto simp: build_main_def Let_def split: sum.splits option.splits prod.splits
           dest: download_and_extract_Inr)

lemma email_cache_dist_apart: "apart (email_cache root) (dist_email_dir root)"
  by (simp add: apart_def cache_dir_def cache_dir_path_def dist_email_dir_def)

lemma build_outputs_frame:
  assumes "fs_write_file_sync (root @ [''dist'', ''package.json'']) b d2 = Inr d3"
    and "fs_copy_file (root @ [''README.md'']) (root @ [''dist'', ''README.md'']) d3 = Inr d4"
    and "fs_copy_file (root @ [''LICENSE'']) (root @ [''dist'', ''LICENSE'']) d4 = Inr d5"
    and "q = email_cache root @ r \<or> q = dist_email_dir root @ r"
  shows "map_of d5 q = map_of d2 q"
proof -
  have "q \<noteq> root @ [''dist'', ''package.json'']" and "\<not> prefix q (root @ [''dist'', ''README.md''])"
    and "\<not> prefix q (root @ [''dist'', ''LICENSE''])"
    using assms(4) by (auto simp: cache_dir_def cache_dir_path_def dist_email_dir_def)
  then show ?thesis
    using fs_write_file_sync_frame [OF assms(1)] fs_copy_file_frame [OF assms(2)]
          fs_copy_file_frame [OF assms(3)]
    by simp
qed

text \<open>
  What a successful run makes of the theme: with \<open>m\<close> the disk after the
  download and \<open>R\<close> the files of the cached theme, every file of \<open>R\<close> could
  be transformed, the cache is left as the download left it, \<open>dist\<close>'s theme
  is the transformer's closed form over \<open>m\<close>, and the download did not touch
  \<open>dist\<close>.
\<close>

lemma build_main_theme:
  assumes wf: "fs_wf (w_disk w)"
    and run: "build_main net unzip json_parse json_stringify cwd root proxy w = (Inr (), w')"
  obtains R m where "\<forall>r\<in>R. tf_ok build_transform (email_cache root) (dist_email_dir root) m r"
    and "R = {r. r \<noteq> [] \<and> is_file (m (email_cache root @ r))}"
    and "\<And>r. map_of (w_disk w') (email_cache root @ r) = m (email_cache root @ r)"
    and "\<And>r. map_of (w_disk w') (dist_email_dir root @ r)
             = transformed_tree build_transform (email_cache root) (dist_email_dir root) R m (dist_email_dir root @ r)"
    and "\<And>r. m (dist_email_dir root @ r) = map_of (w_disk w) (dist_email_dir root @ r)"
proof -
  obtain w1 d2 d3 d4 p where
    dl: "download_and_extract net unzip (keycloak_themes_url (keycloak_version (pkg_version p)))
           (cache_dir_path root) ''extract_email_theme'' proxy (email_filter cwd) w = (Inr (email_cache root), w1)"
    and tc: "transform_codebase build_transform (email_cache root) (dist_email_dir root) (w_disk w1) = Inr d2"
    and s3: "fs_write_file_sync (root @ [''dist'', ''package.json''])
               (utf8_encode (json_stringify (dist_package_json p))) d2 = Inr d3"
    and s4: "fs_copy_file (root @ [''README.md'']) (root @ [''dist'', ''README.md'']) d3 = Inr d4"
    and s5: "fs_copy_file (root @ [''LICENSE'']) (root @ [''dist'', ''LICENSE'']) d4 = Inr (w_disk w')"
    using build_main_Inr [OF run] by blast
  let ?m = "map_of (w_disk w1)" and ?dest = "dist_email_dir root"
  let ?R = "set (fs_files_under (w_disk w1) (email_cache root))"
  have wf1: "fs_wf (w_disk w1)" using download_and_extract_wf [OF wf dl] .
  have tree: "(\<forall>r\<in>?R. tf_ok build_transform (email_cache root) ?dest ?m r)
     \<and> map_of d2 = transformed_tree build_transform (email_cache root) ?dest ?R ?m"
    using transform_files_Inr_tree [OF wf1 email_cache_dist_apart refl] tc
    by (simp add: transform_codebase_def)
  show ?thesis
  proof (rule that [of ?R ?m])
    show "\<forall>r\<in>?R. tf_ok build_transform (email_cache root) ?dest ?m r" using tree by blast
    show "?R = {r. r \<noteq> [] \<and> is_file (?m (email_cache root @ r))}" by (rule set_fs_files_under)
    show "map_of (w_disk w') (email_cache root @ r) = ?m (email_cache root @ r)" for r
      using build_outputs_frame [OF s3 s4 s5, of "email_cache root @ r" r] tree
            transformed_tree_apart [OF email_cache_dist_apart] by simp
    show "map_of (w_disk w') (?dest @ r) = transformed_tree build_transform (email_cache root) ?dest ?R ?m (?dest @ r)"
      for r using build_outputs_frame [OF s3 s4 s5, of "?dest @ r" r] tree by simp
    show "?m (?dest @ r) = map_of (w_disk w) (?dest @ r)" for r
      using download_and_extract_frame [OF wf dl, of "?dest @ r"]
      by (simp add: cache_dir_def cache_marker_def cache_dir_path_def dist_email_dir_def)
  qed
qed

text \<open>The definitions a concrete run of the script unfolds to, for evaluating it by \<open>simp\<close>.\<close>

lemmas build_eval = build_main_def fs_read_file_def parse_package_json_def package_json_shape_def
  json_get_def pipeline_eval email_filter_def on_archive_file_def path_relative_def email_theme_dir_eq
  norm_segs_append seg_ok_def js_starts_with_def transform_codebase_def fs_files_under_def
  transform_file_def build_transform_def transform_source_code_def path_dirname_def
  fs_write_file_sync_def fs_copy_file_def cache_dir_path_def dist_email_dir_def
  example_package_json_def example_world_def example_archive_def path_resolve_def

section \<open>Properties\<close>

text \<open>
  C27 (the email theme reaches \<open>dist\<close>). After a successful run, every file
  of the cached email theme is in \<open>dist/keycloak-theme/email\<close> at the same
  relative path, holding what \<open>transformSourceCode\<close> made of it.
\<close>

theorem build_main_dist_email:
  assumes wf: "fs_wf (w_disk w)"
    and run: "build_main net unzip json_parse json_stringify cwd root proxy w = (Inr (), w')"
    and fl: "map_of (w_disk w') (email_cache root @ r) = Some (File b)" and ne: "r \<noteq> []"
  shows "\<exists>b'. build_transform r b = Inr (Some b')
              \<and> map_of (w_disk w') (dist_email_dir root @ r) = Some (File b')"
proof -
  obtain R m where ok: "\<forall>r\<in>R. tf_ok build_transform (email_cache root) (dist_email_dir root) m r"
    and R: "R = {r. r \<noteq> [] \<and> is_file (m (email_cache root @ r))}"
    and src: "\<And>r. map_of (w_disk w') (email_cache root @ r) = m (email_cache root @ r)"
    and dst: "\<And>r. map_of (w_disk w') (dist_email_dir root @ r)
                 = transformed_tree build_transform (email_cache root) (dist_email_dir root) R m (dist_email_dir root @ r)"
    and old: "\<And>r. m (dist_email_dir root @ r) = map_of (w_disk w) (dist_email_dir root @ r)"
    using build_main_theme [OF wf run] by blast
  have m1: "m (email_cache root @ r) = Some (File b)" using fl src by simp
  then have inR: "r \<in> R" using ne R by simp
  then obtain b' where out: "tf_output build_transform (email_cache root) r m = Inr b'"
    using ok by (cases "tf_output build_transform (email_cache root) r m") (auto simp: tf_ok_def)
  have "build_transform r b = Inr (Some b')"
    using out m1 by (auto simp: tf_output_def build_transform_def split: sum.splits option.splits)
  then show ?thesis using dst [of r] inR out by (auto simp: transformed_tree_def)
qed

text \<open>
  C28 (a complete cache entry hides the version). Once the entry of the
  constant key \<open>extract_email_theme\<close> is complete, a run makes no network
  request, whatever version \<open>package.json\<close> names: the jar of another
  Keycloak version is never fetched, and \<open>dist\<close> is built from the theme
  cached first.
\<close>

theorem build_main_cached_no_fetch:
  assumes "cache_is_complete (cache_dir_path root) ''extract_email_theme'' (w_disk w)"
  shows "w_fetched (snd (build_main net unzip json_parse json_stringify cwd root proxy w)) = w_fetched w"
  using assms
  by (simp add: build_main_def Let_def download_and_extract_hit split: sum.splits option.splits)

text \<open>
  C29 (an invalid descriptor stops the script first). When \<open>package.json\<close>
  fails the schema, the run raises the \<open>ZodError\<close> and leaves the world as
  it was: nothing fetched, nothing written.
\<close>

theorem build_main_rejects_package:
  assumes "fs_read_file (w_disk w) (root @ [''package.json'']) = Inr raw"
    and "json_parse (utf8_decode raw) = Some j" and "parse_package_json j = Inl e"
  shows "build_main net unzip json_parse json_stringify cwd root proxy w = (Inl e, w)"
  using assms by (simp add: build_main_def)

text \<open>
  C36 (what a successful run leaves behind). After a successful run,
  \<open>dist/package.json\<close> holds the UTF-8 encoding of \<open>JSON.stringify\<close> of the
  trimmed descriptor of the \<open>package.json\<close> read at the start, the copies
  \<open>dist/README.md\<close> and \<open>dist/LICENSE\<close> equal the files at the root, and
  standard output got exactly the line naming the Keycloak version.
\<close>

theorem build_main_outputs:
  assumes run: "build_main net unzip json_parse json_stringify cwd root proxy w = (Inr (), w')"
  shows "\<exists>raw j p. fs_read_file (w_disk w) (root @ [''package.json'']) = Inr raw
     \<and> json_parse (utf8_decode raw) = Some j \<and> parse_package_json j = Inr p
     \<and> map_of (w_disk w') (root @ [''dist'', ''package.json''])
         = Some (File (utf8_encode (json_stringify (dist_package_json p))))
     \<and> map_of (w_disk w') (root @ [''dist'', ''README.md'']) = map_of (w_disk w') (root @ [''README.md''])
     \<and> map_of (w_disk w') (root @ [''dist'', ''LICENSE'']) = map_of (w_disk w') (root @ [''LICENSE''])
     \<and> w_stdout w' = w_stdout w @ [[CHR 0x0A, CHR 0x0A] @ ''Done for keycloak version ''
                                    @ keycloak_version (pkg_version p)]"
proof -
  obtain raw j p w1 d2 d3 d4 where
      pj: "fs_read_file (w_disk w) (root @ [''package.json'']) = Inr raw"
        "json_parse (utf8_decode raw) = Some j" "parse_package_json j = Inr p"
      and dl: "download_and_extract net unzip (keycloak_themes_url (keycloak_version (pkg_version p)))
         (cache_dir_path root) ''extract_email_theme'' proxy (email_filter cwd) w = (Inr (email_cache root), w1)"
      and wr: "fs_write_file_sync (root @ [''dist'', ''package.json''])
         (utf8_encode (json_stringify (dist_package_json p))) d2 = Inr d3"
      and c1: "fs_copy_file (root @ [''README.md'']) (root @ [''dist'', ''README.md'']) d3 = Inr d4"
      and c2: "fs_copy_file (root @ [''LICENSE'']) (root @ [''dist'', ''LICENSE'']) d4 = Inr (w_disk w')"
      and out: "w_stdout w' = w_stdout w1 @ [[CHR 0x0A, CHR 0x0A] @ ''Done for keycloak version ''
                                     @ keycloak_version (pkg_version p)]"
    using build_main_Inr [OF run] by blast
  have "w_stdout w1 = w_stdout w"
    using download_and_extract_fields [OF dl] by (metis build_world.select_convs(1) build_world.surjective
      world.update_convs(1) world.update_convs(2))
  moreover have "map_of (w_disk w') (root @ [''dist'', ''package.json''])
                 = Some (File (utf8_encode (json_stringify (dist_package_json p))))"
    using fs_write_file_sync_Inr [OF wr] fs_copy_file_frame [OF c1] fs_copy_file_frame [OF c2] by simp
  moreover have "map_of (w_disk w') (root @ [''dist'', ''README.md'']) = map_of (w_disk w') (root @ [''README.md''])"
    using fs_copy_file_Inr [OF c1] fs_copy_file_frame [OF c1] fs_copy_file_frame [OF c2] by simp
  moreover have "map_of (w_disk w') (root @ [''dist'', ''LICENSE'']) = map_of (w_disk w') (root @ [''LICENSE''])"
    using fs_copy_file_Inr [OF c2] fs_copy_file_frame [OF c2] by simp
  ultimately show ?thesis using pj out by auto
qed

text \<open>
  C37 (stale files stay in \<open>dist\<close>). The script never clears
  \<open>dist/keycloak-theme/email\<close>: a file an earlier run left there whose
  path is not a file of the cached theme survives a successful run
  unchanged, and is published with the new theme.
\<close>

theorem build_main_keeps_stale_dist:
  assumes wf: "fs_wf (w_disk w)"
    and run: "build_main net unzip json_parse json_stringify cwd root proxy w = (Inr (), w')"
    and stale: "map_of (w_disk w) (dist_email_dir root @ r) = Some (File b)"
    and gone: "\<not> is_file (map_of (w_disk w') (email_cache root @ r))"
  shows "map_of (w_disk w') (dist_email_dir root @ r) = Some (File b)"
proof -
  obtain R m where ok: "\<forall>r\<in>R. tf_ok build_transform (email_cache root) (dist_email_dir root) m r"
    and R: "R = {r. r \<noteq> [] \<and> is_file (m (email_cache root @ r))}"
    and src: "\<And>r. map_of (w_disk w') (email_cache root @ r) = m (email_cache root @ r)"
    and dst: "\<And>r. map_of (w_disk w') (dist_email_dir root @ r)
                 = transformed_tree build_transform (email_cache root) (dist_email_dir root) R m (dist_email_dir root @ r)"
    and old: "\<And>r. m (dist_email_dir root @ r) = map_of (w_disk w) (dist_email_dir root @ r)"
    using build_main_theme [OF wf run] by blast
  have m1: "m (dist_email_dir root @ r) = Some (File b)" using stale old by simp
  have notR: "r \<notin> R" using gone src R by simp
  have "\<not> strict_prefix (dist_email_dir root @ r) (dist_email_dir root @ r')" if "r' \<in> R" for r'
  proof
    assume sp: "strict_prefix (dist_email_dir root @ r) (dist_email_dir root @ r')"
    have "can_write (dist_email_dir root @ r') m" using ok that by (simp add: tf_ok_def)
    then have "dir_ok m (dist_email_dir root @ r)" using sp unfolding can_write_iff by blast
    then show False using m1 by (simp add: dir_ok_def)
  qed
  then show ?thesis using dst [of r] notR m1 by (auto simp: transformed_tree_def)
qed

text \<open>
  C40 (offline with no cached theme, the script fails cleanly). When no URL
  can be fetched and the cache holds no complete entry, the run ends with an
  error, prints nothing, and every path off the line of
  \<open>node_modules/.cache/scripts\<close> is as it was: \<open>dist\<close> in particular.
\<close>

theorem build_main_offline_fails:
  assumes wf: "fs_wf (w_disk w)" and offline: "\<forall>u. net proxy u = None"
    and nc: "\<not> cache_is_complete (cache_dir_path root) ''extract_email_theme'' (w_disk w)"
    and run: "build_main net unzip json_parse json_stringify cwd root proxy w = (res, w')"
    and q: "\<not> prefix (cache_dir_path root) q" "\<not> prefix q (cache_dir_path root)"
  shows "isl res \<and> map_of (w_disk w') q = map_of (w_disk w) q \<and> w_stdout w' = w_stdout w"
proof -
  have fr: "map_of (w_disk w1) q = map_of (w_disk w) q \<and> w_stdout w1 = w_stdout w"
    if dl: "download_and_extract net unzip url (cache_dir_path root) ''extract_email_theme'' proxy f w = (r, w1)"
    for url f r w1
  proof
    show "map_of (w_disk w1) q = map_of (w_disk w) q"
      using download_and_extract_frame [OF wf dl] off_line_append [OF q, of "[''extract_email_theme'']"]
            off_line_append [OF q, of "[''.complete'', ''extract_email_theme'']"]
      by (simp add: cache_dir_def cache_marker_def)
    show "w_stdout w1 = w_stdout w"
      using download_and_extract_fields [OF dl]
      by (metis build_world.select_convs(1) build_world.surjective world.update_convs(1) world.update_convs(2))
  qed
  have fails: "\<exists>e w1. download_and_extract net unzip url (cache_dir_path root) ''extract_email_theme'' proxy f w
                  = (Inl e, w1)" for url f
    using download_and_extract_offline [of net proxy url] offline nc by blast
  show ?thesis
  proof (cases "\<exists>raw j p. fs_read_file (w_disk w) (root @ [''package.json'']) = Inr raw
                   \<and> json_parse (utf8_decode raw) = Some j \<and> parse_package_json j = Inr p")
    case True
    then obtain raw j p where pj: "fs_read_file (w_disk w) (root @ [''package.json'']) = Inr raw"
        "json_parse (utf8_decode raw) = Some j" "parse_package_json j = Inr p" by blast
    obtain e w1 where dl: "download_and_extract net unzip (keycloak_themes_url (keycloak_version (pkg_version p)))
        (cache_dir_path root) ''extract_email_theme'' proxy (email_filter cwd) w = (Inl e, w1)"
      using fails by blast
    have "res = Inl e \<and> w' = w1" using run pj dl by (simp add: build_main_def Let_def)
    then show ?thesis using fr [OF dl] by simp
  next
    case False
    then have "isl res \<and> w' = w"
      using run by (auto simp: build_main_def split: sum.splits option.splits)
    then show ?thesis by simp
  qed
qed

section \<open>Witnesses\<close>

theorem build_main_dist_email_witness:
  "\<exists>b'. build_transform [''html'', ''a.ftl''] [2] = Inr (Some b')
     \<and> map_of (w_disk (snd (build_main (\<lambda>_ _. Some [0]) (\<lambda>_. Some example_archive)
          (\<lambda>_. Some example_package_json) (\<lambda>_. [123, 125]) ''/home'' [''r''] () example_world)))
          (dist_email_dir [''r''] @ [''html'', ''a.ftl'']) = Some (File b')"
proof -
  let ?run = "build_main (\<lambda>_ _. Some [0]) (\<lambda>_. Some example_archive)
          (\<lambda>_. Some example_package_json) (\<lambda>_. [123, 125]) ''/home'' [''r''] () example_world"
  have wf: "fs_wf (w_disk example_world)" by (simp add: example_world_def fs_wf_def)
  have ok: "fst ?run = Inr ()" by (simp add: build_eval)
  then have run: "?run = (Inr (), snd ?run)" by (metis prod.collapse)
  have fl: "map_of (w_disk (snd ?run)) (email_cache [''r''] @ [''html'', ''a.ftl'']) = Some (File [2])"
    by (simp add: build_eval)
  show ?thesis using build_main_dist_email [OF wf run fl] by simp
qed

theorem build_main_cached_no_fetch_witness:
  "w_fetched (snd (build_main (\<lambda>_ _. None) (\<lambda>_. None) (\<lambda>_. Some example_package_json)
      (\<lambda>_. [123, 125]) ''/home'' [''r''] ()
      (example_world\<lparr>w_disk := w_disk example_world
          @ [([''r'', ''node_modules'', ''.cache'', ''scripts'', ''.complete'', ''extract_email_theme''], File [])]\<rparr>)))
   = []"
proof -
  have "cache_is_complete (cache_dir_path [''r'']) ''extract_email_theme''
          (w_disk (example_world\<lparr>w_disk := w_disk example_world
          @ [([''r'', ''node_modules'', ''.cache'', ''scripts'', ''.complete'', ''extract_email_theme''], File [])]\<rparr>))"
    by (simp add: example_world_def cache_is_complete_def cache_marker_def cache_dir_path_def)
  from build_main_cached_no_fetch [OF this, of "\<lambda>_ _. None" "\<lambda>_. None" "\<lambda>_. Some example_package_json"
         "\<lambda>_. [123, 125]" "''/home''" "()"]
  show ?thesis by (simp add: example_world_def)
qed

theorem build_main_rejects_package_witness:
  "build_main (\<lambda>_ _. Some [0]) (\<lambda>_. Some example_archive) (\<lambda>_. Some (JObject [(''name'', JString ''x'')]))
      (\<lambda>_. [123, 125]) ''/home'' [''r''] () example_world
   = (Inl (ZodError [''version'', ''repository'', ''license'', ''author'', ''homepage'', ''keywords'']),
      example_world)"
proof -
  have r: "fs_read_file (w_disk example_world) ([''r''] @ [''package.json'']) = Inr [123]"
    by (simp add: example_world_def fs_read_file_def)
  have p: "parse_package_json (JObject [(''name'', JString ''x'')])
             = Inl (ZodError [''version'', ''repository'', ''license'', ''author'', ''homepage'', ''keywords''])"
    by (simp add: parse_package_json_def package_json_shape_def json_get_def)
  show ?thesis
    using build_main_rejects_package [OF r _ p, of "\<lambda>_. Some (JObject [(''name'', JString ''x'')])"] by simp
qed

theorem build_main_outputs_witness:
  "w_stdout (snd (build_main (\<lambda>_ _. Some [0]) (\<lambda>_. Some example_archive)
          (\<lambda>_. Some example_package_json) (\<lambda>_. [123, 125]) ''/home'' [''r''] () example_world))
     = [[CHR 0x0A, CHR 0x0A] @ ''Done for keycloak version '' @ keycloak_version ''260005.0.1'']
   \<and> map_of (w_disk (snd (build_main (\<lambda>_ _. Some [0]) (\<lambda>_. Some example_archive)
          (\<lambda>_. Some example_package_json) (\<lambda>_. [123, 125]) ''/home'' [''r''] () example_world)))
          [''r'', ''dist'', ''package.json''] = Some (File (utf8_encode [123, 125]))"
proof -
  let ?run = "build_main (\<lambda>_ _. Some [0]) (\<lambda>_. Some example_archive)
          (\<lambda>_. Some example_package_json) (\<lambda>_. [123, 125]) ''/home'' [''r''] () example_world"
  have "fst ?run = Inr ()" by (simp add: build_eval)
  then have run: "?run = (Inr (), snd ?run)" by (metis prod.collapse)
  from build_main_outputs [OF run] obtain p where
      p: "parse_package_json example_package_json = Inr p"
      and out: "map_of (w_disk (snd ?run)) [''r'', ''dist'', ''package.json''] = Some (File (utf8_encode [123, 125]))"
        "w_stdout (snd ?run) = w_stdout example_world @ [[CHR 0x0A, CHR 0x0A] @ ''Done for keycloak version ''
                                    @ keycloak_version (pkg_version p)]"
    by auto
  have "pkg_version p = ''260005.0.1''"
    using p by (auto simp: parse_package_json_def package_json_shape_def json_get_def example_package_json_def
                           package_of_members_def)
  then show ?thesis using out by (simp add: example_world_def)
qed

theorem build_main_keeps_stale_dist_witness:
  "map_of (w_disk (snd (build_main (\<lambda>_ _. Some [0]) (\<lambda>_. Some example_archive)
      (\<lambda>_. Some example_package_json) (\<lambda>_. [123, 125]) ''/home'' [''r''] () example_stale_world)))
      (dist_email_dir [''r''] @ [''old.ftl'']) = Some (File [7])"
proof -
  let ?run = "build_main (\<lambda>_ _. Some [0]) (\<lambda>_. Some example_archive)
      (\<lambda>_. Some example_package_json) (\<lambda>_. [123, 125]) ''/home'' [''r''] () example_stale_world"
  have wf: "fs_wf (w_disk example_stale_world)"
    by (simp add: example_stale_world_def example_world_def fs_wf_def)
  have "fst ?run = Inr ()" by (simp add: build_eval example_stale_world_def)
  then have run: "?run = (Inr (), snd ?run)" by (metis prod.collapse)
  have stale: "map_of (w_disk example_stale_world) (dist_email_dir [''r''] @ [''old.ftl'']) = Some (File [7])"
    by (simp add: example_stale_world_def example_world_def dist_email_dir_def)
  have gone: "\<not> is_file (map_of (w_disk (snd ?run)) (email_cache [''r''] @ [''old.ftl'']))"
    by (simp add: build_eval example_stale_world_def)
  show ?thesis using build_main_keeps_stale_dist [OF wf run stale gone] .
qed

theorem build_main_offline_fails_witness:
  "isl (fst (build_main (\<lambda>_ _. None) (\<lambda>_. Some example_archive) (\<lambda>_. Some example_package_json)
           (\<lambda>_. [123, 125]) ''/home'' [''r''] () example_world))
   \<and> map_of (w_disk (snd (build_main (\<lambda>_ _. None) (\<lambda>_. Some example_archive) (\<lambda>_. Some example_package_json)
           (\<lambda>_. [123, 125]) ''/home'' [''r''] () example_world))) [''r'', ''README.md''] = Some (File [1])
   \<and> w_stdout (snd (build_main (\<lambda>_ _. None) (\<lambda>_. Some example_archive) (\<lambda>_. Some example_package_json)
           (\<lambda>_. [123, 125]) ''/home'' [''r''] () example_world)) = []"
proof -
  let ?run = "build_main (\<lambda>_ _. None) (\<lambda>_. Some example_archive) (\<lambda>_. Some example_package_json)
           (\<lambda>_. [123, 125]) ''/home'' [''r''] () example_world"
  have wf: "fs_wf (w_disk example_world)" by (simp add: example_world_def fs_wf_def)
  have nc: "\<not> cache_is_complete (cache_dir_path [''r'']) ''extract_email_theme'' (w_disk example_world)"
    by (simp add: example_world_def cache_is_complete_def cache_marker_def cache_dir_path_def)
  have run: "?run = (fst ?run, snd ?run)" by simp
  have q: "\<not> prefix (cache_dir_path [''r'']) [''r'', ''README.md'']" "\<not> prefix [''r'', ''README.md''] (cache_dir_path [''r''])"
    by (simp_all add: cache_dir_path_def)
  from build_main_offline_fails [OF wf _ nc run q] show ?thesis
    by (simp add: example_world_def)
qed

end
