(* ===== verification/Race.thy ===== *)
theory Race
  imports Orchestrator
begin

text \<open>
  Several processes running \<open>downloadAndExtractArchive\<close> at once on the same
  cache key (specification, sections 4.1 and 5: the cache directory is the
  only shared resource, with reserve-then-commit and no locks). Each process
  goes through the phases of \<open>download_and_extract\<close> one step at a time:
  reserve (hit, miss or failure), fetch and extract (one step: both touch only
  the network and the reserved directory), commit. The scheduler picks any
  process that can move, so the steps are an inductive relation. The lemmas
  show that every interleaving ends, that no process is ever stuck, that the
  entries of the other keys are never touched, that a finished process
  leaves the key complete and completion is never lost, and that a reader
  can see the key complete while its directory is still being filled again.
\<close>

datatype run_phase = Start | Reserved | Extracted | Done | Failed build_error

record race_state =
  r_disk :: disk
  r_phase :: "run_phase list"

text \<open>\<open>s\<close> with process \<open>i\<close> in phase \<open>p\<close> and the disk \<open>d\<close>.\<close>

definition move :: "race_state \<Rightarrow> nat \<Rightarrow> run_phase \<Rightarrow> disk \<Rightarrow> race_state" where
  "move s i p d = s\<lparr>r_disk := d, r_phase := (r_phase s)[i := p]\<rparr>"

inductive race_step ::
  "'proxy network \<Rightarrow> container \<Rightarrow> string \<Rightarrow> path \<Rightarrow> string \<Rightarrow> 'proxy \<Rightarrow> entry_filter
   \<Rightarrow> race_state \<Rightarrow> race_state \<Rightarrow> bool"
  for net unzip url root key proxy f
where
  reserve_hit:
    "i < length (r_phase s) \<Longrightarrow> r_phase s ! i = Start \<Longrightarrow>
     cache_reserve root key (r_disk s) = Inr (True, dir, d) \<Longrightarrow>
     race_step net unzip url root key proxy f s (move s i Done (r_disk s))"
| reserve_miss:
    "i < length (r_phase s) \<Longrightarrow> r_phase s ! i = Start \<Longrightarrow>
     cache_reserve root key (r_disk s) = Inr (False, dir, d) \<Longrightarrow>
     race_step net unzip url root key proxy f s (move s i Reserved d)"
| reserve_fail:
    "i < length (r_phase s) \<Longrightarrow> r_phase s ! i = Start \<Longrightarrow>
     cache_reserve root key (r_disk s) = Inl e \<Longrightarrow>
     race_step net unzip url root key proxy f s (move s i (Failed e) (r_disk s))"
| fetch_fail:
    "i < length (r_phase s) \<Longrightarrow> r_phase s ! i = Reserved \<Longrightarrow>
     archive_fetch net proxy url = Inl e \<Longrightarrow>
     race_step net unzip url root key proxy f s (move s i (Failed e) (r_disk s))"
| extract_fail:
    "i < length (r_phase s) \<Longrightarrow> r_phase s ! i = Reserved \<Longrightarrow>
     archive_fetch net proxy url = Inr a \<Longrightarrow>
     archive_extract unzip a f (cache_dir root key) (r_disk s) = Inl (e, d) \<Longrightarrow>
     race_step net unzip url root key proxy f s (move s i (Failed e) d)"
| extract_ok:
    "i < length (r_phase s) \<Longrightarrow> r_phase s ! i = Reserved \<Longrightarrow>
     archive_fetch net proxy url = Inr a \<Longrightarrow>
     archive_extract unzip a f (cache_dir root key) (r_disk s) = Inr d \<Longrightarrow>
     race_step net unzip url root key proxy f s (move s i Extracted d)"
| commit_ok:
    "i < length (r_phase s) \<Longrightarrow> r_phase s ! i = Extracted \<Longrightarrow>
     cache_commit root key (r_disk s) = Inr d \<Longrightarrow>
     race_step net unzip url root key proxy f s (move s i Done d)"
| commit_fail:
    "i < length (r_phase s) \<Longrightarrow> r_phase s ! i = Extracted \<Longrightarrow>
     cache_commit root key (r_disk s) = Inl e \<Longrightarrow>
     race_step net unzip url root key proxy f s (move s i (Failed e) (r_disk s))"

inductive_cases race_stepE: "race_step net unzip url root key proxy f s t"

text \<open>The steps a process still has to take.\<close>

fun phase_rank :: "run_phase \<Rightarrow> nat" where
  "phase_rank Start = 3"
| "phase_rank Reserved = 2"
| "phase_rank Extracted = 1"
| "phase_rank Done = 0"
| "phase_rank (Failed _) = 0"

definition race_rank :: "race_state \<Rightarrow> nat" where
  "race_rank s = sum_list (map phase_rank (r_phase s))"

fun finished :: "run_phase \<Rightarrow> bool" where
  "finished Done = True"
| "finished (Failed _) = True"
| "finished _ = False"

section \<open>Lemmas\<close>

lemma sum_list_update_less:
  assumes "i < length xs" and "(g :: 'a \<Rightarrow> nat) y < g (xs ! i)"
  shows "sum_list (map g (xs[i := y])) < sum_list (map g xs)"
  using assms
proof (induction xs arbitrary: i)
  case (Cons x xs)
  show ?case
  proof (cases i)
    case 0
    then show ?thesis using Cons.prems by simp
  next
    case (Suc j)
    then show ?thesis using Cons.prems Cons.IH [of j] by simp
  qed
qed simp

lemma move_rank:
  "i < length (r_phase s) \<Longrightarrow> phase_rank p < phase_rank (r_phase s ! i) \<Longrightarrow>
     race_rank (move s i p d) < race_rank s"
  by (simp add: race_rank_def move_def sum_list_update_less)

lemma move_disk [simp]: "r_disk (move s i p d) = d"
  by (simp add: move_def)

lemma race_step_rank:
  "race_step net unzip url root key proxy f s t \<Longrightarrow> race_rank t < race_rank s"
  by (induction rule: race_step.induct) (simp_all add: move_rank)

text \<open>
  The invariant of the shared disk: it is well formed, and while some process
  is between its reservation and its extraction the entry's directory exists.
\<close>

definition race_inv :: "path \<Rightarrow> string \<Rightarrow> race_state \<Rightarrow> bool" where
  "race_inv root key s \<longleftrightarrow> fs_wf (r_disk s)
     \<and> (map_of (r_disk s) (cache_dir root key) = Some Dir \<or> Reserved \<notin> set (r_phase s))"

lemma notin_set_update:
  "x \<notin> set xs \<Longrightarrow> p \<noteq> x \<Longrightarrow> x \<notin> set (xs[i := p])"
  using set_update_subset_insert [of xs i p] by blast

lemma commit_keeps_dir:
  assumes "cache_commit root key d = Inr d'" and "valid_key key"
  shows "map_of d' (cache_dir root key) = map_of d (cache_dir root key)"
proof -
  have "\<not> prefix (cache_dir root key) (cache_marker root key)"
    using assms(2) by (simp add: cache_dir_def cache_marker_def valid_key_def)
  then show ?thesis
    using fs_write_file_frame assms(1) unfolding cache_commit_def by blast
qed

text \<open>An extraction step of a reserved process stays below the entry's directory.\<close>

lemma race_extract_frame:
  assumes "race_inv root key s" and "i < length (r_phase s)" and "r_phase s ! i = Reserved"
    and "archive_extract unzip a f (cache_dir root key) (r_disk s) = x"
  shows "fs_wf (extract_disk x) \<and> confined (cache_dir root key) (map_of (r_disk s)) (map_of (extract_disk x))
         \<and> map_of (r_disk s) (cache_dir root key) = Some Dir"
proof -
  have dir: "map_of (r_disk s) (cache_dir root key) = Some Dir" and wf: "fs_wf (r_disk s)"
    using assms(1-3) by (auto simp: race_inv_def dest: nth_mem)
  then show ?thesis using archive_extract_invariant [OF wf dir, of unzip a f] assms(4) by simp
qed

lemma race_step_inv:
  assumes "race_step net unzip url root key proxy f s t" and "valid_key key"
    and "race_inv root key s"
  shows "race_inv root key t
         \<and> (\<forall>k. valid_key k \<longrightarrow> k \<noteq> key \<longrightarrow> cache_view root (r_disk t) k = cache_view root (r_disk s) k)"
  using assms
proof (induction rule: race_step.induct)
  case (reserve_miss i s dir d)
  then have "dir = cache_dir root key" using cache_reserve_miss by blast
  with reserve_miss show ?case
    using cache_reserve_miss_wf [of "r_disk s"] cache_reserve_miss_touches cache_view_other_key
    by (simp add: race_inv_def move_def) blast
next
  case (extract_fail i s a e d)
  from race_extract_frame [OF extract_fail.prems(2) extract_fail.hyps(1,2,4)]
  have "fs_wf d" and c: "confined (cache_dir root key) (map_of (r_disk s)) (map_of d)"
    and dir: "map_of (r_disk s) (cache_dir root key) = Some Dir" by simp_all
  then show ?case
    using confined_keeps_dir [OF c dir] cache_view_other_key [OF confined_touches_only [OF c] extract_fail.prems(1)]
    by (simp add: race_inv_def move_def)
next
  case (extract_ok i s a d)
  from race_extract_frame [OF extract_ok.prems(2) extract_ok.hyps(1,2,4)]
  have "fs_wf d" and c: "confined (cache_dir root key) (map_of (r_disk s)) (map_of d)"
    and dir: "map_of (r_disk s) (cache_dir root key) = Some Dir" by simp_all
  then show ?case
    using confined_keeps_dir [OF c dir] cache_view_other_key [OF confined_touches_only [OF c] extract_ok.prems(1)]
    by (simp add: race_inv_def move_def)
next
  case (commit_ok i s d)
  then show ?case
    using commit_keeps_dir [of root key "r_disk s" d] cache_commit_other_key [of root key "r_disk s" d]
          fs_write_file_wf [of "r_disk s" "cache_marker root key" "[]" d]
    by (auto simp: race_inv_def move_def cache_commit_def notin_set_update)
qed (auto simp: race_inv_def move_def notin_set_update)

lemma race_steps_inv:
  assumes "(race_step net unzip url root key proxy f)\<^sup>*\<^sup>* s0 s" and "valid_key key"
    and "race_inv root key s0"
  shows "race_inv root key s
         \<and> (\<forall>k. valid_key k \<longrightarrow> k \<noteq> key \<longrightarrow> cache_view root (r_disk s) k = cache_view root (r_disk s0) k)"
  using assms(1)
proof (induction rule: rtranclp_induct)
  case base
  then show ?case using assms(3) by simp
next
  case (step s t)
  then show ?case using race_step_inv [OF step.hyps(2) assms(2)] by simp
qed

text \<open>The marker is not below the entry's directory: a step confined there keeps it.\<close>

lemma confined_keeps_complete:
  assumes "confined (cache_dir root key) (map_of d) (map_of d')" and "valid_key key"
  shows "cache_is_complete root key d' = cache_is_complete root key d"
proof -
  have "\<not> strict_prefix (cache_dir root key) (cache_marker root key)"
    using assms(2) by (auto simp: cache_dir_def cache_marker_def valid_key_def strict_prefix_def prefix_def)
  then have "map_of d' (cache_marker root key) = map_of d (cache_marker root key)"
    using assms(1) unfolding confined_def by blast
  then show ?thesis by (simp add: cache_is_complete_def)
qed

lemma race_step_keeps_complete:
  assumes "race_step net unzip url root key proxy f s t" and "valid_key key" and "race_inv root key s"
    and "cache_is_complete root key (r_disk s)"
  shows "cache_is_complete root key (r_disk t)"
  using assms
proof (induction rule: race_step.induct)
  case (reserve_miss i s dir d)
  then show ?case using cache_reserve_miss by blast
next
  case (extract_fail i s a e d)
  from race_extract_frame [OF extract_fail.prems(2) extract_fail.hyps(1,2,4)]
  have "confined (cache_dir root key) (map_of (r_disk s)) (map_of d)" by simp
  then show ?case using confined_keeps_complete [OF _ extract_fail.prems(1)] extract_fail.prems(3) by simp
next
  case (extract_ok i s a d)
  from race_extract_frame [OF extract_ok.prems(2) extract_ok.hyps(1,2,4)]
  have "confined (cache_dir root key) (map_of (r_disk s)) (map_of d)" by simp
  then show ?case using confined_keeps_complete [OF _ extract_ok.prems(1)] extract_ok.prems(3) by simp
next
  case (commit_ok i s d)
  then show ?case using cache_commit_complete by simp
qed simp_all

lemma race_step_done_complete:
  assumes step: "race_step net unzip url root key proxy f s t" and "valid_key key" and "race_inv root key s"
    and done_s: "Done \<in> set (r_phase s) \<longrightarrow> cache_is_complete root key (r_disk s)"
  shows "Done \<in> set (r_phase t) \<longrightarrow> cache_is_complete root key (r_disk t)"
proof
  assume dt: "Done \<in> set (r_phase t)"
  have keep: "cache_is_complete root key (r_disk s) \<Longrightarrow> cache_is_complete root key (r_disk t)"
    using race_step_keeps_complete [OF assms(1-3)] .
  from step show "cache_is_complete root key (r_disk t)"
  proof cases
    case (reserve_hit i dir d)
    then show ?thesis by (auto simp: cache_reserve_def split: if_splits sum.splits)
  next
    case (commit_ok i d)
    then show ?thesis using cache_commit_complete by simp
  qed (use dt keep done_s notin_set_update in \<open>fastforce simp: move_def\<close>)+
qed

text \<open>
  A concrete interleaving of two processes on key \<open>k\<close>: the first reserves
  and extracts, the second reserves (emptying the directory), the first
  commits.
\<close>

lemma race_example_run:
  "(race_step (\<lambda>_ _. Some [0]) (\<lambda>_. Some [ArchiveEntry ''x'' False [1]]) ''u'' [''c''] ''k'' ()
      (\<lambda>p _. Inr (Some p)))\<^sup>*\<^sup>* \<lparr>r_disk = [([], Dir)], r_phase = [Start, Start]\<rparr>
     \<lparr>r_disk = [([], Dir), ([''c''], Dir), ([''c'', ''k''], Dir), ([''c'', ''.complete''], Dir),
                ([''c'', ''.complete'', ''k''], File [])], r_phase = [Done, Reserved]\<rparr>"
proof -
  let ?step = "race_step (\<lambda>_ _. Some [0]) (\<lambda>_. Some [ArchiveEntry ''x'' False [1]]) ''u'' [''c''] ''k'' ()
                 (\<lambda>p _. Inr (Some p))"
  let ?s0 = "\<lparr>r_disk = [([], Dir)], r_phase = [Start, Start]\<rparr>"
  let ?s1 = "move ?s0 0 Reserved [([], Dir), ([''c''], Dir), ([''c'', ''k''], Dir)]"
  let ?s2 = "move ?s1 0 Extracted [([], Dir), ([''c''], Dir), ([''c'', ''k''], Dir), ([''c'', ''k'', ''x''], File [1])]"
  let ?s3 = "move ?s2 1 Reserved [([], Dir), ([''c''], Dir), ([''c'', ''k''], Dir)]"
  let ?s4 = "move ?s3 0 Done [([], Dir), ([''c''], Dir), ([''c'', ''k''], Dir), ([''c'', ''.complete''], Dir), ([''c'', ''.complete'', ''k''], File [])]"
  have "?step ?s0 ?s1"
    by (rule race_step.reserve_miss [where dir = "[''c'', ''k'']"]) (simp_all add: pipeline_eval)
  moreover have "?step ?s1 ?s2"
    by (rule race_step.extract_ok [where a = "[0]"]) (simp_all add: move_def pipeline_eval)
  moreover have "?step ?s2 ?s3"
    by (rule race_step.reserve_miss [where dir = "[''c'', ''k'']"]) (simp_all add: move_def pipeline_eval)
  moreover have "?step ?s3 ?s4"
    by (rule race_step.commit_ok) (simp_all add: move_def pipeline_eval)
  ultimately have "?step\<^sup>*\<^sup>* ?s0 ?s4" by (meson rtranclp.rtrancl_into_rtrancl rtranclp.rtrancl_refl)
  then show ?thesis by (simp add: move_def)
qed

lemma race_start_enabled:
  assumes i: "i < length (r_phase s)" and st: "r_phase s ! i = Start"
  shows "\<exists>t. race_step net unzip url root key proxy f s t"
proof (cases "cache_reserve root key (r_disk s)")
  case (Inl e)
  from race_step.reserve_fail [OF i st Inl] show ?thesis ..
next
  case (Inr r)
  then obtain hit dir d where r: "cache_reserve root key (r_disk s) = Inr (hit, dir, d)"
    by (cases r) auto
  show ?thesis
  proof (cases hit)
    case True
    with r have "cache_reserve root key (r_disk s) = Inr (True, dir, d)" by simp
    from race_step.reserve_hit [OF i st this] show ?thesis ..
  next
    case False
    with r have "cache_reserve root key (r_disk s) = Inr (False, dir, d)" by simp
    from race_step.reserve_miss [OF i st this] show ?thesis ..
  qed
qed

lemma race_reserved_enabled:
  assumes i: "i < length (r_phase s)" and st: "r_phase s ! i = Reserved"
  shows "\<exists>t. race_step net unzip url root key proxy f s t"
proof (cases "archive_fetch net proxy url")
  case (Inl e)
  from race_step.fetch_fail [OF i st Inl] show ?thesis ..
next
  case fetched: (Inr a)
  show ?thesis
  proof (cases "archive_extract unzip a f (cache_dir root key) (r_disk s)")
    case (Inl ed)
    then obtain e d where "archive_extract unzip a f (cache_dir root key) (r_disk s) = Inl (e, d)"
      by (cases ed) auto
    from race_step.extract_fail [OF i st fetched this] show ?thesis ..
  next
    case (Inr d)
    from race_step.extract_ok [OF i st fetched Inr] show ?thesis ..
  qed
qed

lemma race_extracted_enabled:
  assumes i: "i < length (r_phase s)" and st: "r_phase s ! i = Extracted"
  shows "\<exists>t. race_step net unzip url root key proxy f s t"
proof (cases "cache_commit root key (r_disk s)")
  case (Inl e)
  from race_step.commit_fail [OF i st Inl] show ?thesis ..
next
  case (Inr d)
  from race_step.commit_ok [OF i st Inr] show ?thesis ..
qed

section \<open>Properties\<close>



text \<open>
  C33 (the other keys are never touched). Starting from a well-formed disk with
  no process past its reservation, in every state of every interleaving the
  disk stays well formed and the entries of all other valid keys are exactly
  as they were.
\<close>

theorem race_other_keys_untouched:
  assumes "(race_step net unzip url root key proxy f)\<^sup>*\<^sup>* s0 s"
    and "valid_key key" and "fs_wf (r_disk s0)" and "Reserved \<notin> set (r_phase s0)"
    and "valid_key k" and "k \<noteq> key"
  shows "fs_wf (r_disk s) \<and> cache_view root (r_disk s) k = cache_view root (r_disk s0) k"
proof -
  have "race_inv root key s0" using assms(3,4) by (simp add: race_inv_def)
  from race_steps_inv [OF assms(1,2) this] show ?thesis
    using assms(5,6) by (simp add: race_inv_def)
qed


text \<open>
  C38 (a finished process leaves the key complete). In every state reached
  from processes that all start together on a well-formed disk, while some
  process has finished successfully the entry of the key is complete.
\<close>

theorem race_done_complete:
  assumes run: "(race_step net unzip url root key proxy f)\<^sup>*\<^sup>* s0 s"
    and vk: "valid_key key" and wf: "fs_wf (r_disk s0)" and init: "r_phase s0 = replicate n Start"
    and i: "i < length (r_phase s)" and fin: "r_phase s ! i = Done"
  shows "cache_is_complete root key (r_disk s)"
proof -
  have inv0: "race_inv root key s0" using wf init by (simp add: race_inv_def)
  have "Done \<in> set (r_phase s) \<longrightarrow> cache_is_complete root key (r_disk s)"
    using run
  proof (induction rule: rtranclp_induct)
    case base
    then show ?case using init by simp
  next
    case (step s t)
    have "race_inv root key s" using race_steps_inv [OF step.hyps(1) vk inv0] by simp
    from race_step_done_complete [OF step.hyps(2) vk this step.IH] show ?case .
  qed
  then show ?thesis using i fin nth_mem by metis
qed

text \<open>
  C39 (completion is never lost). Once the key's marker is written, no
  interleaving removes it: a process that reserves later hits the cache, and
  extraction and commit never touch the marker.
\<close>

theorem race_complete_stable:
  assumes "(race_step net unzip url root key proxy f)\<^sup>*\<^sup>* s t"
    and vk: "valid_key key" and inv: "race_inv root key s"
    and "cache_is_complete root key (r_disk s)"
  shows "cache_is_complete root key (r_disk t)"
  using assms(1,4)
proof (induction rule: rtranclp_induct)
  case (step t u)
  have "race_inv root key t" using race_steps_inv [OF step.hyps(1) vk inv] by simp
  from race_step_keeps_complete [OF step.hyps(2) vk this step.IH [OF step.prems]] show ?case .
qed

section \<open>Witnesses\<close>


theorem race_other_keys_untouched_witness:
  "fs_wf [([], Dir), ([''c''], Dir), ([''c'', ''k''], Dir)] \<and> cache_view [''c''] [([], Dir), ([''c''], Dir), ([''c'', ''k''], Dir)] ''j'' = cache_view [''c''] [([], Dir)] ''j''"
proof -
  let ?step = "race_step (\<lambda>_ _. Some [0]) (\<lambda>_. Some [ArchiveEntry ''x'' False [1]]) ''u'' [''c''] ''k'' ()
                 (\<lambda>p _. Inr (Some p))"
  let ?s0 = "\<lparr>r_disk = [([], Dir)], r_phase = [Start, Start]\<rparr>"
  have "?step ?s0 (move ?s0 0 Reserved [([], Dir), ([''c''], Dir), ([''c'', ''k''], Dir)])"
    by (rule race_step.reserve_miss [where dir = "[''c'', ''k'']"]) (simp_all add: pipeline_eval)
  then have "?step\<^sup>*\<^sup>* ?s0 (move ?s0 0 Reserved [([], Dir), ([''c''], Dir), ([''c'', ''k''], Dir)])" by simp
  from race_other_keys_untouched [OF this, of "''j''"] show ?thesis
    by (simp add: valid_key_def fs_wf_def)
qed

theorem race_done_complete_witness:
  "cache_is_complete [''c''] ''k'' [([], Dir), ([''c''], Dir), ([''c'', ''k''], Dir), ([''c'', ''.complete''], Dir),
                ([''c'', ''.complete'', ''k''], File [])]"
  using race_done_complete [OF race_example_run, of 2 0] by (simp add: valid_key_def fs_wf_def numeral_2_eq_2)

theorem race_complete_stable_witness:
  "cache_is_complete [''c''] ''k'' [([], Dir), ([''c''], Dir), ([''c'', ''k''], Dir), ([''c'', ''.complete''], Dir),
                ([''c'', ''.complete'', ''k''], File []), ([''c'', ''k'', ''x''], File [1])]"
proof -
  let ?step = "race_step (\<lambda>_ _. Some [0]) (\<lambda>_. Some [ArchiveEntry ''x'' False [1]]) ''u'' [''c''] ''k'' ()
                 (\<lambda>p _. Inr (Some p))"
  let ?s4 = "\<lparr>r_disk = [([], Dir), ([''c''], Dir), ([''c'', ''k''], Dir), ([''c'', ''.complete''], Dir),
                ([''c'', ''.complete'', ''k''], File [])], r_phase = [Done, Reserved]\<rparr>"
  let ?s5 = "move ?s4 1 Extracted [([], Dir), ([''c''], Dir), ([''c'', ''k''], Dir), ([''c'', ''.complete''], Dir),
                ([''c'', ''.complete'', ''k''], File []), ([''c'', ''k'', ''x''], File [1])]"
  have "?step ?s4 ?s5"
    by (rule race_step.extract_ok [where a = "[0]"]) (simp_all add: pipeline_eval)
  then have run: "?step\<^sup>*\<^sup>* ?s4 ?s5" by simp
  have inv: "race_inv [''c''] ''k'' ?s4" by (simp add: race_inv_def fs_wf_def cache_dir_def)
  have c: "cache_is_complete [''c''] ''k'' (r_disk ?s4)" by (simp add: cache_is_complete_def cache_marker_def)
  from race_complete_stable [OF run _ inv c] show ?thesis by (simp add: valid_key_def)
qed

end
