(* ===== verification/Spec2Isabelle.thy ===== *)
theory Spec2Isabelle
  imports Build Race
begin

text \<open>
  \<^bold>\<open>A verification library for keycloakify/email-native's build script.\<close>

  \<^emph>\<open>The program.\<close> The repository's one source file, \<open>src/scripts/build.ts\<close>,
  builds the npm package of Keycloak's base email theme. It reads and checks
  \<open>package.json\<close> with a zod schema (lines 18--60), derives the Keycloak
  version from the package version (62--66), downloads the
  \<open>keycloak-themes\<close> jar through \<open>downloadAndExtractArchive\<close> with a callback
  that keeps \<open>theme/base/email\<close> (68--87), rewrites the extracted tree into
  \<open>dist/keycloak-theme/email\<close> through \<open>transformCodebase\<close>, putting a banner
  in front of every \<open>messages/messages_<locale>.properties\<close> file (89--134),
  writes a trimmed \<open>dist/package.json\<close> (136--157), copies \<open>README.md\<close> and
  \<open>LICENSE\<close> (159--164) and logs the version (166). The helpers it imports
  from \<open>./tools\<close> are not part of \<open>src/\<close>; they are modelled from the
  specification (\<open>spec.md\<close>, sections 4.1--4.5 and 5).

  \<^emph>\<open>Theories, leaf first.\<close>
  \<^item> \<open>Prelude\<close>: bytes (\<open>8 word\<close>), code points, the error type
    \<open>build_error\<close> (one constructor per exception), \<open>join_with\<close>
    (\<open>Array.prototype.join\<close>), the collections \<open>js_simps\<close> and \<open>path_simps\<close>
    of evaluation rules, list and byte lemmas.
  \<^item> \<open>JsRuntime\<close>: \<open>split\<close>, indexing, \<open>+\<close> on string-or-undefined,
    \<open>parseInt\<close> (radix 10, sign, whitespace), number printing,
    \<open>startsWith\<close>/\<open>endsWith\<close>; split/join round trips.
  \<^item> \<open>NodePath\<close>: POSIX \<open>join\<close>, \<open>normalize\<close>, \<open>resolve\<close> (the working
    directory a parameter), \<open>relative\<close>, \<open>dirname\<close>, \<open>basename\<close>.
  \<^item> \<open>EmailThemeFilter\<close>: \<open>onArchiveFile\<close> (75--86): C1--C4.
  \<^item> \<open>Utf8\<close>: \<open>toString("utf8")\<close> as the WHATWG decoder (a \<open>function\<close> with
    a lexicographic measure) and \<open>Buffer.from(_, "utf8")\<close>: C5, C35.
  \<^item> \<open>MessagesBanner\<close>: \<open>transformSourceCode\<close> (94--133): C6--C10.
  \<^item> \<open>KeycloakVersion\<close>: the version IIFE and the jar URL (62--69): C11--C13.
  \<^item> \<open>PackageJson\<close>: JSON values, the zod schema, the descriptor check and
    the trimmed descriptor (18--60, 136--157): C14--C16.
  \<^item> \<open>FileSystem\<close>: \<open>node:fs\<close> on a disk (an association list from segment
    lists to directories and files): recursive \<open>mkdirSync\<close>, \<open>writeFileSync\<close>
    with and without parent creation, \<open>rmSync\<close>, \<open>cpSync\<close>, the recursive
    listing; each write's effect on \<open>map_of\<close> (\<open>put_file\<close>), the
    well-formedness invariant (ancestors are directories) and frame lemmas.
  \<^item> \<open>Extractor\<close>: the archive fetcher and extractor (4.2, 4.3; network and
    zip container are parameters): C17--C21.
  \<^item> \<open>CacheStore\<close>: reserve and commit with a completion marker written last
    (4.1), the reader's view \<open>cache_view\<close>, and the abstract store
    \<open>abs_download\<close>/\<open>cache_abs\<close> the refinement is stated against.
  \<^item> \<open>Orchestrator\<close>: \<open>downloadAndExtractArchive\<close> (4.4) on a world record of
    disk and fetched URLs: C22--C24 and the refinement C30.
  \<^item> \<open>Transformer\<close>: \<open>transformCodebase\<close> (4.5) with its result in closed
    form (\<open>transformed_tree\<close>): C25, C26.
  \<^item> \<open>Build\<close>: the whole script as \<open>build_main\<close> on a world of disk, fetched
    URLs and standard output, composing every component above; the lemma
    \<open>build_main_theme\<close> gives the theme a run leaves in \<open>dist\<close> in closed
    form: C27--C29, C36, C37, C40.
  \<^item> \<open>Race\<close>: concurrent invocations on one cache key as an inductive step
    relation (section 5): termination C31, progress C32, the invariant C33,
    the half-written entry C34, and the completion invariants C38, C39.

  \<^emph>\<open>What the lemmas show.\<close> The filter writes only below the extraction
  directory and keeps exactly the email theme (C1--C3); UTF-8 decoding and
  encoding are inverse on well-formed bytes (C5), and decoding inverts encoding
  on Unicode scalar values (C35), so the banner is prepended
  to the original bytes (C6); the version derivation inverts the two-digit
  packing and is bounded (C11, C12); the trimmed descriptor passes the same
  check (C14) and the check makes the type assertion sound (C15). The
  extractor confines every change below its destination whatever the archive
  and the filter answer (C17, C18, C19); the orchestrator is idempotent,
  failure-atomic and refines the abstract store (C22, C23, C30); the
  transformer's result does not depend on the crawl order (C25); under any
  interleaving of invocations a finished invocation leaves the key complete
  and completion is never lost (C38, C39); the script
  puts the transformed theme in \<open>dist\<close> (C27), writes the trimmed
  descriptor, the README and licence copies and the version line (C36), and
  stops on a bad descriptor before any effect (C29); offline with no cached
  theme it fails without touching anything outside the cache (C40).

  \<^emph>\<open>Findings.\<close> Names beginning with two dots are dropped from the theme
  (C4); non-UTF-8 bytes in a messages file are replaced by U+FFFD (C10); an
  ordinary semantic version gives the URL of Keycloak \<open>1.NaN.NaN\<close> (C13);
  the constant cache key \<open>extract_email_theme\<close> makes a version bump reuse
  the old theme without a download (C28); with reservation and commit in
  place, a racing process can leave the key complete over an emptied
  directory (C34); \<open>dist\<close> is never cleared, so theme files of an
  earlier build that the current jar lacks are published again (C37).

  \<^emph>\<open>Bounds and fuel.\<close> No fuel is used: the decoder terminates by a
  lexicographic measure (remaining bytes, then pending state), and every loop
  of the script and its helpers is structural recursion over a list (entries,
  files, segments). The race ends because each step lowers the sum of the
  remaining phases (at most three steps per process).

  \<^emph>\<open>Not modelled.\<close> \<open>getProxyFetchOptions\<close> (reads npm configuration and
  the environment; the proxy is an opaque parameter), \<open>getThisCodebaseRootDirPath\<close>
  (a constant directory, the parameter \<open>root\<close>), \<open>chalk\<close>'s terminal
  colours, the text of \<open>JSON.parse\<close>/\<open>JSON.stringify\<close> (parameters of
  \<open>build_main\<close>), and the HTTP and zip formats (the network and the container
  are parameters). Of \<open>node:path\<close>, \<open>node:fs\<close> and the JavaScript
  built-ins exactly the functions the script and its helpers call are
  modelled; the rest of those libraries (the win32 paths, the other
  \<open>fs\<close> calls) is never reached. Paths on the model's disk are lists of
  names: symbolic links, permissions and timestamps are not represented.
  JavaScript strings are lists of 8-bit characters where the script only
  handles ASCII text. Every line of \<open>build.ts\<close> other than its imports is
  translated by a definition; nothing more of the program is left to model.
\<close>

end
